(* ===== verification/Prelude.thy ===== *)
theory Prelude
  imports Main "HOL-Library.Word" "HOL-Library.Char_ord" "HOL-Library.List_Lexorder"
begin

text \<open>
  Shared vocabulary of the development.

  Go strings and byte slices are both sequences of bytes, and the conversions between them
  copy the bytes; a HOL \<open>char\<close> has exactly 256 values, so both are lists of \<open>char\<close> here
  and the conversions are the identity. Arithmetic on a byte goes through \<open>of_char\<close>.

  Times are nanoseconds since the Unix epoch (UTC), durations are nanoseconds. An operation
  that calls time.Now takes the time as an argument. Each call of rand.Read in an operation
  is a draw from a tape \<open>rng\<close>: the n-th draw either fails or fills the buffer.
\<close>

section \<open>Types\<close>

type_synonym bytes = string
type_synonym byte = "8 word"
type_synonym time = int
type_synonym duration = int
type_synonym rng = "nat \<Rightarrow> bytes option"

definition second :: duration where
  "second = 1000000000"

definition minute :: duration where
  "minute = 60 * second"

definition hour :: duration where
  "hour = 60 * minute"

text \<open>The time of Go's zero \<open>time.Time\<close>: year 1, January 1, 00:00:00 UTC.\<close>

definition zero_time :: time where
  "zero_time = - 62135596800 * second"

text \<open>
  time.Time.MarshalJSON refuses years outside [0,9999]; these are the bounds of that range.
\<close>

definition time_ok :: "time \<Rightarrow> bool" where
  "time_ok t \<longleftrightarrow> - 62167219200 * second \<le> t \<and> t < 253402300800 * second"

section \<open>Errors\<close>

text \<open>
  One constructor per place where the code makes an error value. \<open>ErrNotFound\<close> is the
  sentinel storage.ErrNotFound that callers test with errors.Is; \<open>Wrapped\<close> is fmt.Errorf
  with \<open>%w\<close>, through which errors.Is sees; \<open>ErrText\<close> is an error that is nothing but its text.
\<close>

datatype (plugins only: code size) err =
    ErrNotFound
  | ErrBadger string
  | ErrRand
  | ErrMarshal
  | ErrUnmarshal
  | ErrCipherKey
  | ErrCipherOpen
  | ErrCiphertextTooShort
  | ErrHkdf
  | ErrFile string
  | ErrYaml
  | ErrMissingPolicyName string
  | ErrMasterKey
  | ErrSecretDeleted string
  | ErrVersionNotFound int string
  | ErrTransitExists string
  | ErrTransitNotFound string
  | ErrTransitVersion int string
  | ErrCiphertextFormat
  | ErrCiphertextVersion string
  | ErrCiphertextEncoding
  | ErrTokenFormat
  | ErrSessionNotFound
  | ErrSessionToken
  | ErrSessionExpired
  | ErrAdminToken
  | ErrAdminNotFound string
  | ErrUserExists string
  | ErrUserNotFound string
  | ErrCredentials
  | ErrServiceNotFound string
  | ErrTotpNotFound string
  | ErrUnknownService string
  | ErrChallengeUnknown
  | ErrChallengeExpired
  | ErrChallengeMismatch
  | ErrSignature
  | ErrTotpCode
  | ErrConfigField string
  | ErrText string
  | Wrapped string err

fun is_not_found :: "err \<Rightarrow> bool" where
  "is_not_found ErrNotFound = True"
| "is_not_found (Wrapped _ e) = is_not_found e"
| "is_not_found _ = False"

text \<open>Where the code can panic, the outcome says so; a panic is not an error value.\<close>

datatype 'a outcome = Done 'a | Panic string

section \<open>Buffers and randomness\<close>

text \<open>A buffer of n bytes, zeroed by make and filled from the drawn bytes.\<close>

definition fill :: "nat \<Rightarrow> bytes \<Rightarrow> bytes" where
  "fill n bs = take n (bs @ replicate n (CHR 0x00))"

definition rand_read :: "rng \<Rightarrow> nat \<Rightarrow> nat \<Rightarrow> err + bytes" where
  "rand_read rng i n = (case rng i of None \<Rightarrow> Inl ErrRand | Some bs \<Rightarrow> Inr (fill n bs))"

definition rng_from :: "nat \<Rightarrow> rng \<Rightarrow> rng" where
  "rng_from k rng = (\<lambda>i. rng (k + i))"

lemma length_fill [simp]: "length (fill n bs) = n"
  by (simp add: fill_def)

lemma rand_read_length: "rand_read rng i n = Inr bs \<Longrightarrow> length bs = n"
  by (auto simp: rand_read_def split: option.splits)

lemma rand_read_errors: "rand_read rng i n = Inl e \<Longrightarrow> e = ErrRand"
  by (auto simp: rand_read_def split: option.splits)

section \<open>64-bit integers\<close>

text \<open>
  Go's int and int64 are 64 bits wide. \<open>wrap64\<close> is the value after an addition that may
  have wrapped; \<open>int64_ok\<close> says that no wrap-around is needed.
\<close>

definition wrap64 :: "int \<Rightarrow> int" where
  "wrap64 i = (i + 2 ^ 63) mod 2 ^ 64 - 2 ^ 63"

definition int64_ok :: "int \<Rightarrow> bool" where
  "int64_ok i \<longleftrightarrow> - (2 ^ 63) \<le> i \<and> i < 2 ^ 63"

lemma int64_ok_wrap64 [simp]: "int64_ok (wrap64 i)"
  by (simp add: int64_ok_def wrap64_def)

lemma wrap64_id: "int64_ok i \<Longrightarrow> wrap64 i = i"
  by (simp add: int64_ok_def wrap64_def)

section \<open>Lists and sums\<close>

lemma case_sum_Inr_iff:
  "(case x of Inl e \<Rightarrow> Inl e | Inr y \<Rightarrow> f y) = Inr z \<longleftrightarrow> (\<exists>y. x = Inr y \<and> f y = Inr z)"
  by (cases x) auto

lemma takeWhile_append_all:
  "\<forall>x\<in>set xs. P x \<Longrightarrow> ys = [] \<or> \<not> P (hd ys) \<Longrightarrow> takeWhile P (xs @ ys) = xs"
  by (induction xs) (cases ys, auto)

lemma dropWhile_append_all:
  "\<forall>x\<in>set xs. P x \<Longrightarrow> ys = [] \<or> \<not> P (hd ys) \<Longrightarrow> dropWhile P (xs @ ys) = ys"
  by (induction xs) (cases ys, auto)

end
