(* ===== verification/Go_Strings.thy ===== *)
theory Go_Strings
  imports Prelude
begin

text \<open>
  The parts of Go's strings, strconv, fmt and unicode/utf8 packages that the program calls:
  HasPrefix, HasSuffix, TrimPrefix, TrimSuffix, SplitN with a one-byte separator, decimal
  printing and parsing of integers, the scan of "v\<open>%d\<close>", and the decoding of UTF-8.
\<close>

named_theorems str_simps

section \<open>Prefixes and suffixes\<close>

definition has_prefix :: "string \<Rightarrow> string \<Rightarrow> bool" where
  "has_prefix s p \<longleftrightarrow> take (length p) s = p"

definition has_suffix :: "string \<Rightarrow> string \<Rightarrow> bool" where
  "has_suffix s x \<longleftrightarrow> length x \<le> length s \<and> drop (length s - length x) s = x"

definition trim_prefix :: "string \<Rightarrow> string \<Rightarrow> string" where
  "trim_prefix s p = (if has_prefix s p then drop (length p) s else s)"

definition trim_suffix :: "string \<Rightarrow> string \<Rightarrow> string" where
  "trim_suffix s x = (if has_suffix s x then take (length s - length x) s else s)"

lemma has_prefix_iff: "has_prefix s p \<longleftrightarrow> (\<exists>r. s = p @ r)"
  unfolding has_prefix_def by (metis append_eq_conv_conj append_take_drop_id)

lemma has_prefixE:
  assumes "has_prefix s p" obtains r where "s = p @ r"
  using assms by (auto simp: has_prefix_iff)

lemma has_prefix_append [simp, str_simps]: "has_prefix (p @ r) p"
  by (simp add: has_prefix_def)

lemma has_prefix_same [simp]: "has_prefix s s" "has_prefix s []"
  by (simp_all add: has_prefix_def)

lemma has_prefix_Cons [str_simps]:
  "has_prefix (a # s) (b # p) \<longleftrightarrow> a = b \<and> has_prefix s p"
  "\<not> has_prefix [] (b # p)"
  by (auto simp: has_prefix_def)

lemma has_prefix_append2 [simp]: "has_prefix (p @ r) (p @ q) \<longleftrightarrow> has_prefix r q"
  by (auto simp: has_prefix_iff)

lemma has_prefix_trans: "has_prefix s p \<Longrightarrow> has_prefix p q \<Longrightarrow> has_prefix s q"
  by (auto simp: has_prefix_iff)

lemma has_prefix_append_left: "has_prefix s (p @ q) \<Longrightarrow> has_prefix s p"
  by (auto simp: has_prefix_iff)

lemma trim_prefix_append [simp, str_simps]: "trim_prefix (p @ r) p = r"
  by (simp add: trim_prefix_def)

lemma has_suffix_iff: "has_suffix s x \<longleftrightarrow> (\<exists>r. s = r @ x)"
proof
  assume h: "has_suffix s x"
  then have "s = take (length s - length x) s @ x"
    unfolding has_suffix_def by (metis append_take_drop_id)
  then show "\<exists>r. s = r @ x" ..
next
  assume "\<exists>r. s = r @ x"
  then show "has_suffix s x" by (auto simp: has_suffix_def)
qed

lemma has_suffix_append [simp, str_simps]: "has_suffix (r @ x) x"
  by (auto simp: has_suffix_iff)

lemma trim_suffix_append [simp, str_simps]: "trim_suffix (r @ x) x = r"
  by (simp add: trim_suffix_def)

lemma trim_suffix_absent: "\<not> has_suffix s x \<Longrightarrow> trim_suffix s x = s"
  by (simp add: trim_suffix_def)

lemma trim_prefix_absent: "\<not> has_prefix s p \<Longrightarrow> trim_prefix s p = s"
  by (simp add: trim_prefix_def)

section \<open>SplitN\<close>

fun split_n :: "string \<Rightarrow> char \<Rightarrow> nat \<Rightarrow> string list" where
  "split_n s c 0 = []"
| "split_n s c (Suc 0) = [s]"
| "split_n s c (Suc (Suc n)) =
     (case dropWhile (\<lambda>x. x \<noteq> c) s of
        [] \<Rightarrow> [s]
      | _ # rest \<Rightarrow> takeWhile (\<lambda>x. x \<noteq> c) s # split_n rest c (Suc n))"

lemma split_n_absent: "c \<notin> set s \<Longrightarrow> split_n s c (Suc (Suc n)) = [s]"
proof -
  assume "c \<notin> set s"
  then have e: "dropWhile (\<lambda>x. x \<noteq> c) s = []" by (auto simp: dropWhile_eq_Nil_conv)
  show ?thesis unfolding split_n.simps e by simp
qed

lemma split_n_found:
  "c \<notin> set a \<Longrightarrow> split_n (a @ c # b) c (Suc (Suc n)) = a # split_n b c (Suc n)"
proof -
  assume "c \<notin> set a"
  then have "takeWhile (\<lambda>x. x \<noteq> c) (a @ c # b) = a" "dropWhile (\<lambda>x. x \<noteq> c) (a @ c # b) = c # b"
    by (auto intro!: takeWhile_append_all dropWhile_append_all)
  then show ?thesis by simp
qed

section \<open>Decimal integers\<close>

definition is_digit :: "char \<Rightarrow> bool" where
  "is_digit c \<longleftrightarrow> 48 \<le> (of_char c :: nat) \<and> (of_char c :: nat) \<le> 57"

definition digit :: "nat \<Rightarrow> char" where
  "digit d = char_of (48 + d)"

fun nat_digits :: "nat \<Rightarrow> string" where
  "nat_digits n = (if n < 10 then [digit n] else nat_digits (n div 10) @ [digit (n mod 10)])"

declare nat_digits.simps [simp del]

definition digits_value :: "string \<Rightarrow> nat" where
  "digits_value ds = foldl (\<lambda>a c. 10 * a + (of_char c - 48)) 0 ds"

text \<open>strconv.Itoa and the \<open>%d\<close> verb.\<close>

definition itoa :: "int \<Rightarrow> string" where
  "itoa i = (if i < 0 then CHR ''-'' # nat_digits (nat (- i)) else nat_digits (nat i))"

text \<open>strconv.ParseInt(s, 10, 64), and strconv.Atoi: a sign, then digits, within 64 bits.\<close>

definition split_sign :: "string \<Rightarrow> bool \<times> string" where
  "split_sign s = (case s of [] \<Rightarrow> (False, [])
     | c # r \<Rightarrow> if c = CHR ''-'' then (True, r) else if c = CHR ''+'' then (False, r) else (False, s))"

definition parse_int64 :: "string \<Rightarrow> int option" where
  "parse_int64 s =
     (let (neg, ds) = split_sign s; v = int (digits_value ds) in
      if ds = [] \<or> \<not> list_all is_digit ds then None
      else if neg then (if v \<le> 2 ^ 63 then Some (- v) else None)
      else if v < 2 ^ 63 then Some v else None)"

lemma of_char_digit [simp]: "d < 10 \<Longrightarrow> of_char (digit d) = 48 + (d :: nat)"
  by (simp add: digit_def)

lemma is_digit_digit [simp]: "d < 10 \<Longrightarrow> is_digit (digit d)"
  by (simp add: is_digit_def)

lemma nat_digits_nonempty [simp]: "nat_digits n \<noteq> []"
  by (subst nat_digits.simps) simp

lemma nat_digits_all_digits: "list_all is_digit (nat_digits n)"
proof (induction n rule: nat_digits.induct)
  case (1 n)
  then show ?case by (subst nat_digits.simps) simp
qed

lemma digits_value_nat_digits [simp]: "digits_value (nat_digits n) = n"
proof (induction n rule: nat_digits.induct)
  case (1 n)
  then show ?case by (subst nat_digits.simps) (auto simp: digits_value_def)
qed

lemma nat_digits_inject [simp]: "nat_digits m = nat_digits n \<longleftrightarrow> m = n"
  by (metis digits_value_nat_digits)

lemma nat_digits_chars: "c \<in> set (nat_digits n) \<Longrightarrow> is_digit c"
  using nat_digits_all_digits[of n] by (simp add: list_all_iff)

lemma not_digit [simp]: "\<not> is_digit (CHR ''-'')" "\<not> is_digit (CHR ''+'')" "\<not> is_digit (CHR ''/'')"
  "\<not> is_digit (CHR '':'')" "\<not> is_digit (CHR ''_'')" "\<not> is_digit (CHR ''v'')"
  by (simp_all add: is_digit_def)

lemma split_sign_nat_digits: "split_sign (nat_digits n) = (False, nat_digits n)"
proof -
  obtain c r where e: "nat_digits n = c # r" by (cases "nat_digits n") auto
  then have "is_digit c" using nat_digits_chars[of c n] by simp
  then have "c \<noteq> CHR ''-''" "c \<noteq> CHR ''+''" by (auto simp: is_digit_def)
  then show ?thesis by (simp add: split_sign_def e)
qed

lemma itoa_chars: "c \<in> set (itoa i) \<Longrightarrow> is_digit c \<or> c = CHR ''-''"
  by (auto simp: itoa_def dest: nat_digits_chars split: if_splits)

lemma itoa_nonempty [simp]: "itoa i \<noteq> []"
  by (simp add: itoa_def)

lemma parse_int64_itoa: "int64_ok i \<Longrightarrow> parse_int64 (itoa i) = Some i"
  by (auto simp: itoa_def parse_int64_def split_sign_nat_digits nat_digits_all_digits int64_ok_def)
    (auto simp: split_sign_def nat_digits_all_digits)

lemma itoa_inject: "itoa i = itoa j \<Longrightarrow> i = j"
proof -
  assume e: "itoa i = itoa j"
  have hd: "hd (nat_digits n) \<noteq> CHR ''-''" for n
    using nat_digits_chars[of "hd (nat_digits n)" n] by (auto simp: is_digit_def)
  show ?thesis
  proof (cases "i < 0")
    case True
    with e hd[of "nat j"] show ?thesis by (auto simp: itoa_def split: if_splits) (metis list.sel(1))
  next
    case False
    with e hd[of "nat i"] show ?thesis by (auto simp: itoa_def split: if_splits)
  qed
qed

lemma parse_int64_range: "parse_int64 s = Some i \<Longrightarrow> int64_ok i"
  by (auto simp: parse_int64_def int64_ok_def Let_def split: prod.splits if_splits)

end
