(* ===== verification/Go_Utf8.thy ===== *)
theory Go_Utf8
  imports Go_Strings
begin

text \<open>
  Go's unicode/utf8: decoding one rune with the table of accepted byte ranges, encoding a
  rune, and the fmt scan of a version tag, which skips Unicode spaces.
\<close>

section \<open>Decoding\<close>

definition byte_in :: "nat \<Rightarrow> nat \<Rightarrow> char \<Rightarrow> bool" where
  "byte_in lo hi c \<longleftrightarrow> lo \<le> of_char c \<and> of_char c \<le> hi"

definition cont :: "char \<Rightarrow> nat" where
  "cont c = of_char c - 128"

text \<open>
  utf8.DecodeRuneInString: the rune and its width, or None for the pair (RuneError, 1).
  The second byte's range depends on the first, as in the package's acceptRanges table.
\<close>

definition second_range :: "nat \<Rightarrow> nat \<times> nat" where
  "second_range b = (if b = 224 then (160, 191) else if b = 237 then (128, 159)
     else if b = 240 then (144, 191) else if b = 244 then (128, 143) else (128, 191))"

definition second_ok :: "char \<Rightarrow> char \<Rightarrow> bool" where
  "second_ok a b = byte_in (fst (second_range (of_char a))) (snd (second_range (of_char a))) b"

definition decode_rune :: "string \<Rightarrow> (nat \<times> nat) option" where
  "decode_rune s = (case s of [] \<Rightarrow> None | a # r \<Rightarrow>
     (let x = of_char a in
      if x < 128 then Some (x, 1)
      else if 194 \<le> x \<and> x \<le> 223 then
        (case r of b # _ \<Rightarrow>
           if second_ok a b then Some ((x - 192) * 64 + cont b, 2) else None | _ \<Rightarrow> None)
      else if 224 \<le> x \<and> x \<le> 239 then
        (case r of b # c # _ \<Rightarrow>
           if second_ok a b \<and> byte_in 128 191 c
           then Some ((x - 224) * 4096 + cont b * 64 + cont c, 3) else None | _ \<Rightarrow> None)
      else if 240 \<le> x \<and> x \<le> 244 then
        (case r of b # c # d # _ \<Rightarrow>
           if second_ok a b \<and> byte_in 128 191 c \<and> byte_in 128 191 d
           then Some ((x - 240) * 262144 + cont b * 4096 + cont c * 64 + cont d, 4) else None
         | _ \<Rightarrow> None)
      else None))"

definition is_ascii :: "char \<Rightarrow> bool" where
  "is_ascii c \<longleftrightarrow> (of_char c :: nat) < 128"

lemma decode_rune_ascii [simp]: "is_ascii a \<Longrightarrow> decode_rune (a # r) = Some (of_char a, 1)"
  by (simp add: decode_rune_def is_ascii_def Let_def)

lemma decode_rune_width:
  "decode_rune s = Some (r, n) \<Longrightarrow> 1 \<le> n \<and> n \<le> length s"
  by (auto simp: decode_rune_def Let_def split: list.splits if_splits)

lemma decode_rune_Cons_width: "decode_rune (a # s) = Some (r, n) \<Longrightarrow> 0 < n"
  by (auto dest: decode_rune_width)

lemma decode_rune_ascii_width:
  "decode_rune (a # s) = Some (r, n) \<Longrightarrow> is_ascii a \<Longrightarrow> n = 1"
  by simp

text \<open>Decoding looks at the rune's own bytes only.\<close>

lemma decode_rune_take:
  "decode_rune s = Some (r, n) \<Longrightarrow> decode_rune (take n s @ t) = Some (r, n)"
  by (auto simp: decode_rune_def Let_def split: list.splits if_splits)

section \<open>Valid UTF-8 and the replacement of invalid bytes\<close>

definition replacement :: string where
  "replacement = [CHR 0xEF, CHR 0xBF, CHR 0xBD]"

text \<open>The bytes of s with each byte that starts no rune replaced by U+FFFD.\<close>

function sanitize :: "string \<Rightarrow> string" where
  "sanitize [] = []"
| "sanitize (a # s) = (case decode_rune (a # s) of
     None \<Rightarrow> replacement @ sanitize s
   | Some (r, n) \<Rightarrow> take n (a # s) @ sanitize (drop n (a # s)))"
  by pat_completeness auto
termination
  by (relation "measure length") (auto dest: decode_rune_width)

declare sanitize.simps(2) [simp del]

function utf8_ok :: "string \<Rightarrow> bool" where
  "utf8_ok [] = True"
| "utf8_ok (a # s) = (case decode_rune (a # s) of
     None \<Rightarrow> False
   | Some (r, n) \<Rightarrow> utf8_ok (drop n (a # s)))"
  by pat_completeness auto
termination
  by (relation "measure length") (auto dest: decode_rune_width)

declare utf8_ok.simps(2) [simp del]

lemma utf8_ok_ascii [simp]: "is_ascii a \<Longrightarrow> utf8_ok (a # s) = utf8_ok s"
  by (simp add: utf8_ok.simps(2))

lemma utf8_ok_all_ascii: "list_all is_ascii s \<Longrightarrow> utf8_ok s"
  by (induction s) auto

lemma sanitize_id: "utf8_ok s \<Longrightarrow> sanitize s = s"
proof (induction s rule: utf8_ok.induct)
  case (2 a s)
  then show ?case by (auto simp: utf8_ok.simps(2)[of a s] sanitize.simps(2)[of a s] split: option.splits)
qed simp

lemma utf8_ok_rune:
  assumes "decode_rune s = Some (r, n)"
  shows "utf8_ok (take n s @ t) = utf8_ok t"
proof -
  from assms have n: "0 < n" "n \<le> length s" using decode_rune_width by fastforce+
  then obtain a u where e: "take n s @ t = a # u" by (cases "take n s @ t") auto
  have d: "decode_rune (a # u) = Some (r, n)" using decode_rune_take[OF assms, of t] e by simp
  have "drop n (a # u) = t" using n by (simp flip: e)
  then show ?thesis by (simp add: e utf8_ok.simps(2) d)
qed

lemma utf8_ok_replacement [simp]: "utf8_ok (replacement @ t) = utf8_ok t"
proof -
  have "decode_rune (replacement @ t) = Some (65533, 3)"
    by (simp add: replacement_def decode_rune_def Let_def second_ok_def second_range_def byte_in_def cont_def)
  from utf8_ok_rune[OF decode_rune_take[OF this, of "[]"], of t] show ?thesis
    by (simp add: replacement_def)
qed

lemma utf8_ok_sanitize: "utf8_ok (sanitize s)"
proof (induction s rule: sanitize.induct)
  case (2 a s)
  then show ?case
    by (cases "decode_rune (a # s)") (auto simp: sanitize.simps(2) utf8_ok_rune)
qed simp

lemma utf8_ok_append: "utf8_ok s \<Longrightarrow> utf8_ok (s @ t) = utf8_ok t"
proof (induction s rule: utf8_ok.induct)
  case (2 a s)
  then obtain r n where d: "decode_rune (a # s) = Some (r, n)" and u: "utf8_ok (drop n (a # s))"
    by (auto simp: utf8_ok.simps(2)[of a s] split: option.splits)
  have "utf8_ok (take n (a # s) @ (drop n (a # s) @ t)) = utf8_ok (drop n (a # s) @ t)"
    by (rule utf8_ok_rune[OF d])
  moreover have "take n (a # s) @ (drop n (a # s) @ t) = (a # s) @ t"
    by (metis append.assoc append_take_drop_id)
  ultimately show ?case using "2.IH"[OF d refl u] by simp
qed simp

section \<open>Encoding\<close>

text \<open>utf8.AppendRune; surrogates and values past U+10FFFF become U+FFFD.\<close>

definition encode_rune :: "nat \<Rightarrow> string" where
  "encode_rune r =
     (if r < 128 then [char_of r]
      else if r < 2048 then [char_of (192 + r div 64), char_of (128 + r mod 64)]
      else if 1114111 < r \<or> 55296 \<le> r \<and> r \<le> 57343 then replacement
      else if r < 65536 then
        [char_of (224 + r div 4096), char_of (128 + r div 64 mod 64), char_of (128 + r mod 64)]
      else [char_of (240 + r div 262144), char_of (128 + r div 4096 mod 64),
            char_of (128 + r div 64 mod 64), char_of (128 + r mod 64)])"

section \<open>The scan of a version tag\<close>

text \<open>
  fmt.Sscanf(s, \<open>"v%d"\<close>, \<open>&version\<close>): the letter v, then any spaces but no newline, then an
  optional sign and the longest run of digits, which must be a 64-bit integer. What follows
  is ignored. A carriage return directly before a newline is skipped with it, and the
  newline is an error.
\<close>

definition is_space_rune :: "nat \<Rightarrow> bool" where
  "is_space_rune r \<longleftrightarrow> (9 \<le> r \<and> r \<le> 13) \<or> r = 32 \<or> r = 133 \<or> r = 160 \<or> r = 5760
     \<or> (8192 \<le> r \<and> r \<le> 8202) \<or> r = 8232 \<or> r = 8233 \<or> r = 8239 \<or> r = 8287 \<or> r = 12288"

function skip_space :: "string \<Rightarrow> string option" where
  "skip_space [] = Some []"
| "skip_space (a # s) = (case decode_rune (a # s) of
     None \<Rightarrow> Some (a # s)
   | Some (r, n) \<Rightarrow> if r = 10 then None
       else if is_space_rune r then skip_space (drop n (a # s)) else Some (a # s))"
  by pat_completeness auto
termination
  by (relation "measure length") (auto dest: decode_rune_width)

declare skip_space.simps(2) [simp del]

definition sscanf_v :: "string \<Rightarrow> int option" where
  "sscanf_v s = (case s of [] \<Rightarrow> None | a # r \<Rightarrow>
     if a \<noteq> CHR ''v'' then None
     else (case skip_space r of None \<Rightarrow> None | Some t \<Rightarrow>
       let (neg, ds) = split_sign t in
       parse_int64 ((if neg then ''-'' else []) @ takeWhile is_digit ds)))"

lemma is_digit_ascii: "is_digit c \<Longrightarrow> is_ascii c"
  by (simp add: is_digit_def is_ascii_def)

lemma utf8_ok_itoa [simp]: "utf8_ok (itoa i)"
  by (rule utf8_ok_all_ascii) (auto simp: list_all_iff is_ascii_def is_digit_def dest!: itoa_chars)

lemma skip_space_nonspace:
  "is_ascii a \<Longrightarrow> 32 < (of_char a :: nat) \<Longrightarrow> skip_space (a # s) = Some (a # s)"
  by (auto simp: skip_space.simps(2) is_space_rune_def is_ascii_def)

lemma sscanf_v_itoa: "0 \<le> i \<Longrightarrow> int64_ok i \<Longrightarrow> sscanf_v (CHR ''v'' # itoa i) = Some i"
proof -
  assume i: "0 \<le> i" "int64_ok i"
  let ?ds = "nat_digits (nat i)"
  obtain c r where e: "?ds = c # r" by (cases ?ds) auto
  then have c: "is_digit c" using nat_digits_chars[of c "nat i"] by simp
  have "skip_space ?ds = Some ?ds"
    unfolding e using c by (intro skip_space_nonspace) (auto simp: is_digit_def is_ascii_def)
  moreover have d: "itoa i = ?ds" using i by (simp add: itoa_def)
  ultimately have "sscanf_v (CHR ''v'' # itoa i) = parse_int64 (takeWhile is_digit ?ds)"
    by (simp add: sscanf_v_def split_sign_nat_digits)
  also have "takeWhile is_digit ?ds = itoa i"
    using nat_digits_all_digits[of "nat i"] by (simp add: list_all_iff takeWhile_eq_all_conv d)
  also have "parse_int64 (itoa i) = Some i" by (rule parse_int64_itoa[OF i(2)])
  finally show ?thesis .
qed

end
