(* ===== verification/Go_Encoding.thy ===== *)
theory Go_Encoding
  imports Go_Utf8
begin

text \<open>
  Go's encoding/hex and encoding/base64 as the program uses them: hex in both directions,
  StdEncoding in both directions, and the encoder of RawURLEncoding (for tokens).
\<close>

section \<open>Hexadecimal\<close>

definition hex_digit :: "nat \<Rightarrow> char" where
  "hex_digit d = ''0123456789abcdef'' ! d"

definition hex_val :: "char \<Rightarrow> nat option" where
  "hex_val c = (let x = of_char c in
     if 48 \<le> x \<and> x \<le> 57 then Some (x - 48)
     else if 97 \<le> x \<and> x \<le> 102 then Some (x - 87)
     else if 65 \<le> x \<and> x \<le> 70 then Some (x - 55) else None)"

definition hex_byte :: "char \<Rightarrow> string" where
  "hex_byte c = [hex_digit (of_char c div 16), hex_digit (of_char c mod 16)]"

definition hex_encode :: "bytes \<Rightarrow> string" where
  "hex_encode bs = concat (map hex_byte bs)"

fun hex_decode :: "string \<Rightarrow> bytes option" where
  "hex_decode [] = Some []"
| "hex_decode [_] = None"
| "hex_decode (a # b # s) = (case (hex_val a, hex_val b, hex_decode s) of
     (Some x, Some y, Some bs) \<Rightarrow> Some (char_of (16 * x + y) # bs) | _ \<Rightarrow> None)"

lemma hex_val_digit: "d < 16 \<Longrightarrow> hex_val (hex_digit d) = Some d"
proof -
  have "\<forall>d\<in>set [0..<16]. hex_val (hex_digit d) = Some d" by code_simp
  then show "d < 16 \<Longrightarrow> ?thesis" by simp
qed

lemma of_char_less [simp]: "(of_char c :: nat) < 256"
  by (metis nat_of_char_less_256)

lemma of_char_bound: "(of_char c :: nat) \<le> 255"
  using of_char_less[of c] by linarith

lemma hex_decode_encode [simp]: "hex_decode (hex_encode bs) = Some bs"
proof (induction bs)
  case (Cons c bs)
  have "of_char c div 16 < (16 :: nat)"
    using of_char_bound[of c] by (simp add: less_mult_imp_div_less)
  then show ?case
    using Cons by (simp add: hex_encode_def hex_byte_def hex_val_digit)
qed (simp add: hex_encode_def)

lemma hex_encode_inject: "hex_encode a = hex_encode b \<longleftrightarrow> a = b"
  by (metis hex_decode_encode option.inject)

lemma length_hex_encode: "length (hex_encode bs) = 2 * length bs"
  by (induction bs) (auto simp: hex_encode_def hex_byte_def)

section \<open>Base64\<close>

definition b64_std :: string where
  "b64_std = ''ABCDEFGHIJKLMNOPQRSTUVWXYZabcdefghijklmnopqrstuvwxyz0123456789+/''"

definition b64_url :: string where
  "b64_url = ''ABCDEFGHIJKLMNOPQRSTUVWXYZabcdefghijklmnopqrstuvwxyz0123456789-_''"

definition pad_char :: char where
  "pad_char = CHR ''=''"

text \<open>Encoding with an alphabet, with or without padding.\<close>

fun b64_encode :: "string \<Rightarrow> bool \<Rightarrow> bytes \<Rightarrow> string" where
  "b64_encode al pad (a # b # c # s) =
     (let n = of_char a * 65536 + of_char b * 256 + of_char c in
      [al ! (n div 262144), al ! (n div 4096 mod 64), al ! (n div 64 mod 64), al ! (n mod 64)]
      @ b64_encode al pad s)"
| "b64_encode al pad [a, b] =
     (let n = of_char a * 65536 + of_char b * 256 in
      [al ! (n div 262144), al ! (n div 4096 mod 64), al ! (n div 64 mod 64)]
      @ (if pad then [pad_char] else []))"
| "b64_encode al pad [a] =
     (let n = of_char a * 65536 in
      [al ! (n div 262144), al ! (n div 4096 mod 64)] @ (if pad then [pad_char, pad_char] else []))"
| "b64_encode al pad [] = []"

fun index_of :: "'a \<Rightarrow> 'a list \<Rightarrow> nat option" where
  "index_of x [] = None"
| "index_of x (y # ys) = (if x = y then Some 0 else map_option Suc (index_of x ys))"

definition b64_val :: "char \<Rightarrow> nat option" where
  "b64_val c = index_of c b64_std"

text \<open>
  StdEncoding.DecodeString: carriage returns and newlines are skipped wherever they stand;
  the padded group is the last one; the unused low bits of a padded group are ignored.
\<close>

fun b64_groups :: "string \<Rightarrow> bytes option" where
  "b64_groups [] = Some []"
| "b64_groups (p # q # r # t # s) =
     (case (b64_val p, b64_val q) of
        (Some x, Some y) \<Rightarrow>
          (case (b64_val r, b64_val t) of
             (Some z, Some w) \<Rightarrow>
               (let n = x * 262144 + y * 4096 + z * 64 + w in
                map_option (\<lambda>bs. char_of (n div 65536) # char_of (n div 256 mod 256) # char_of (n mod 256) # bs)
                  (b64_groups s))
           | (Some z, None) \<Rightarrow>
               (if t = pad_char \<and> s = [] then
                  (let n = x * 262144 + y * 4096 + z * 64 in
                   Some [char_of (n div 65536), char_of (n div 256 mod 256)])
                else None)
           | (None, _) \<Rightarrow>
               (if r = pad_char \<and> t = pad_char \<and> s = [] then
                  Some [char_of ((x * 262144 + y * 4096) div 65536)]
                else None))
      | _ \<Rightarrow> None)"
| "b64_groups _ = None"

definition b64_decode :: "string \<Rightarrow> bytes option" where
  "b64_decode s = b64_groups (filter (\<lambda>c. c \<noteq> CHR 0x0A \<and> c \<noteq> CHR 0x0D) s)"

abbreviation std_encode :: "bytes \<Rightarrow> string" where
  "std_encode \<equiv> b64_encode b64_std True"

abbreviation raw_url_encode :: "bytes \<Rightarrow> string" where
  "raw_url_encode \<equiv> b64_encode b64_url False"

subsection \<open>Round trip\<close>

lemma b64_val_std: "n < 64 \<Longrightarrow> b64_val (b64_std ! n) = Some n"
proof -
  have "\<forall>n\<in>set [0..<64]. b64_val (b64_std ! n) = Some n" by code_simp
  then show "n < 64 \<Longrightarrow> ?thesis" by simp
qed

lemma b64_val_pad [simp]: "b64_val pad_char = None"
  by code_simp

lemma length_b64_std [simp]: "length b64_std = 64"
  by (simp add: b64_std_def)

lemma split24:
  fixes a b c :: nat
  assumes "a < 256" "b < 256" "c < 256" and n: "n = a * 65536 + b * 256 + c"
  shows "n div 262144 < 64"
    "n div 262144 * 262144 + n div 4096 mod 64 * 4096 + n div 64 mod 64 * 64 + n mod 64 = n"
    "n div 65536 = a" "char_of (n div 256) = (char_of b :: char)" "char_of n = (char_of c :: char)"
proof -
  have n24: "n < 16777216" using assms by linarith
  then show "n div 262144 < 64" by (simp add: less_mult_imp_div_less)
  have "n div 64 = n div 4096 * 64 + n div 64 mod 64"
    using div_mult_mod_eq[of "n div 64" 64] by (simp add: div_mult2_eq[symmetric])
  moreover have "n div 4096 = n div 262144 * 64 + n div 4096 mod 64"
    using div_mult_mod_eq[of "n div 4096" 64] by (simp add: div_mult2_eq[symmetric])
  moreover have "n = n div 64 * 64 + n mod 64" by simp
  ultimately show "n div 262144 * 262144 + n div 4096 mod 64 * 4096 + n div 64 mod 64 * 64 + n mod 64 = n"
    by linarith
  show "n div 65536 = a" by (intro div_nat_eqI) (use assms in simp_all)
  have "n div 256 = a * 256 + b" by (intro div_nat_eqI) (use assms in simp_all)
  then have "(n div 256) mod 256 = b mod 256" by simp
  then show "char_of (n div 256) = (char_of b :: char)" by (metis char_of_mod_256)
  have "n mod 256 = c mod 256" using n by (simp add: mod_add_eq[symmetric])
  then show "char_of n = (char_of c :: char)" by (metis char_of_mod_256)
qed

lemma low_sextets:
  fixes x y :: nat
  shows "(x * 65536 + y * 256) mod 64 = 0" "x * 65536 mod 64 = 0" "x * 65536 div 64 mod 64 = 0"
proof -
  have "x * 65536 + y * 256 = (x * 1024 + y * 4) * 64" "x * 65536 = x * 1024 * 64" by simp_all
  then show "(x * 65536 + y * 256) mod 64 = 0" "x * 65536 mod 64 = 0"
    by (metis mod_mult_self2_is_0)+
  have "x * 65536 div 64 = x * 16 * 64" by simp
  then show "x * 65536 div 64 mod 64 = 0" by (metis mod_mult_self2_is_0)
qed

lemma b64_groups_encode: "b64_groups (std_encode bs) = Some bs"
proof (induction b64_std True bs rule: b64_encode.induct)
  case (1 a b c s)
  note d = split24[of "of_char a" "of_char b" "of_char c", OF _ _ _ refl, simplified]
  show ?case using d 1 by (simp add: Let_def b64_val_std)
next
  case (2 a b)
  note d = split24[of "of_char a" "of_char b" 0 "of_char a * 65536 + of_char b * 256", simplified]
  show ?case using d by (simp add: Let_def b64_val_std low_sextets)
next
  case (3 a)
  note d = split24[of "of_char a" 0 0 "of_char a * 65536", simplified]
  show ?case using d(1-3) low_sextets(3)[of "of_char a"] by (simp add: Let_def b64_val_std low_sextets)
qed simp

lemma nth_in_set_mod: "length al = 64 \<Longrightarrow> al ! (n mod 64) \<in> set al"
  by simp

lemma b64_encode_chars:
  "length al = 64 \<Longrightarrow> set (b64_encode al pad bs) \<subseteq> set al \<union> {pad_char}"
proof (induction al pad bs rule: b64_encode.induct)
  case (1 al pad a b c s)
  note d = split24[of "of_char a" "of_char b" "of_char c", OF _ _ _ refl, simplified]
  show ?case using 1 d(1) by (auto simp: Let_def)
next
  case (2 al pad a b)
  note d = split24[of "of_char a" "of_char b" 0 "of_char a * 65536 + of_char b * 256", simplified]
  show ?case using 2 d(1) by (auto simp: Let_def)
next
  case (3 al pad a)
  note d = split24[of "of_char a" 0 0 "of_char a * 65536", simplified]
  show ?case using 3 d(1) by (auto simp: Let_def)
qed simp

lemma std_encode_chars: "set (std_encode bs) \<subseteq> set (pad_char # b64_std)"
  using b64_encode_chars[of b64_std True bs] by auto

lemma list_all_subset: "list_all P ys \<Longrightarrow> set xs \<subseteq> set ys \<Longrightarrow> list_all P xs"
  by (auto simp: list_all_iff)

lemma b64_decode_std_encode [simp]: "b64_decode (std_encode bs) = Some bs"
proof -
  let ?P = "\<lambda>c. c \<noteq> CHR 0x0A \<and> c \<noteq> CHR 0x0D"
  have "list_all ?P (pad_char # b64_std)" by code_simp
  then have "list_all ?P (std_encode bs)" using std_encode_chars by (rule list_all_subset)
  then have "filter ?P (std_encode bs) = std_encode bs"
    unfolding list_all_iff by (rule filter_True)
  then show ?thesis by (simp only: b64_decode_def b64_groups_encode)
qed

lemma std_encode_ascii: "list_all is_ascii (std_encode bs)"
proof -
  have "list_all is_ascii (pad_char # b64_std)" by code_simp
  then show ?thesis using std_encode_chars by (rule list_all_subset)
qed

lemma raw_url_ascii: "list_all is_ascii (raw_url_encode bs)"
proof -
  have a: "list_all is_ascii (pad_char # b64_url)" and l: "length b64_url = 64" by code_simp+
  have "set (raw_url_encode bs) \<subseteq> set (pad_char # b64_url)"
    using b64_encode_chars[OF l, of False bs] by auto
  with a show ?thesis by (rule list_all_subset)
qed

lemma utf8_ok_std_encode [simp]: "utf8_ok (std_encode bs)"
  by (rule utf8_ok_all_ascii[OF std_encode_ascii])

lemma utf8_ok_raw_url [simp]: "utf8_ok (raw_url_encode bs)"
  by (rule utf8_ok_all_ascii[OF raw_url_ascii])

lemma std_encode_empty [simp]: "std_encode bs = [] \<longleftrightarrow> bs = []"
  by (metis b64_decode_std_encode b64_encode.simps(4) option.inject)

lemma hex_encode_ascii: "list_all is_ascii (hex_encode bs)"
proof (induction bs)
  case (Cons c bs)
  have h: "\<forall>d\<in>set [0..<16]. is_ascii (hex_digit d)" by code_simp
  have "of_char c div 16 < (16 :: nat)"
    using of_char_bound[of c] by (simp add: less_mult_imp_div_less)
  then show ?case using Cons h by (simp add: hex_encode_def hex_byte_def)
qed (simp add: hex_encode_def)

lemma utf8_ok_hex [simp]: "utf8_ok (hex_encode bs)"
  by (rule utf8_ok_all_ascii[OF hex_encode_ascii])

end
