(* ===== verification/Go_Json.thy ===== *)
theory Go_Json
  imports Go_Encoding
begin

text \<open>
  Go's encoding/json: the text of a JSON value as Marshal writes it (compact, strings escaped
  with HTML escaping, invalid UTF-8 replaced), the parser behind Unmarshal and
  Decoder.Decode, and the filling of a struct from the members of an object. The round trip
  \<open>json_parse_print\<close> is what the stores rest on.
\<close>

datatype json =
    JNull
  | JBool bool
  | JNum string
  | JStr string
  | JArr "json list"
  | JObj "(string \<times> json) list"

section \<open>Strings\<close>

text \<open>The escape of one ASCII byte by appendString with escapeHTML set.\<close>

definition html_unsafe :: "char \<Rightarrow> bool" where
  "html_unsafe c \<longleftrightarrow> (of_char c :: nat) < 32 \<or> c = CHR ''<'' \<or> c = CHR ''>'' \<or> c = CHR ''&''"

definition backslash :: char where
  "backslash = CHR 0x5C"

definition dquote :: char where
  "dquote = CHR 0x22"

definition esc_ascii :: "char \<Rightarrow> string" where
  "esc_ascii c =
     (if c = backslash \<or> c = dquote then [backslash, c]
      else if c = CHR 0x08 then [backslash, CHR ''b'']
      else if c = CHR 0x0C then [backslash, CHR ''f'']
      else if c = CHR 0x0A then [backslash, CHR ''n'']
      else if c = CHR 0x0D then [backslash, CHR ''r'']
      else if c = CHR 0x09 then [backslash, CHR ''t'']
      else if html_unsafe c then backslash # ''u00'' @ hex_byte c
      else [c])"

function quote_body :: "string \<Rightarrow> string" where
  "quote_body [] = []"
| "quote_body (a # s) = (case decode_rune (a # s) of
     None \<Rightarrow> backslash # ''ufffd'' @ quote_body s
   | Some (r, n) \<Rightarrow>
       (if r < 128 then esc_ascii a
        else if r = 8232 then backslash # ''u2028''
        else if r = 8233 then backslash # ''u2029''
        else take n (a # s)) @ quote_body (drop n (a # s)))"
  by pat_completeness auto
termination
  by (relation "measure length") (auto dest: decode_rune_width)

declare quote_body.simps(2) [simp del]

definition quote :: "string \<Rightarrow> string" where
  "quote s = dquote # quote_body s @ [dquote]"

text \<open>
  The content of a string literal after its opening quote, and what follows its closing
  quote. A \<open>\u\<close> escape of a high surrogate joins with a following low one; a lone surrogate
  becomes U+FFFD, as does a byte that is not UTF-8.
\<close>

definition hex4 :: "string \<Rightarrow> nat option" where
  "hex4 s = (case s of a # b # c # d # _ \<Rightarrow>
     (case (hex_val a, hex_val b, hex_val c, hex_val d) of
        (Some w, Some x, Some y, Some z) \<Rightarrow> Some (w * 4096 + x * 256 + y * 16 + z) | _ \<Rightarrow> None)
     | _ \<Rightarrow> None)"

definition is_surrogate :: "nat \<Rightarrow> bool" where
  "is_surrogate r \<longleftrightarrow> 55296 \<le> r \<and> r \<le> 57343"

text \<open>The low surrogate escape that starts s, if r is a high surrogate.\<close>

definition low_surrogate :: "nat \<Rightarrow> string \<Rightarrow> nat option" where
  "low_surrogate r s = (case s of a # b # t \<Rightarrow>
     if r \<le> 56319 \<and> a = backslash \<and> b = CHR ''u'' then
       (case hex4 t of Some l \<Rightarrow> if 56320 \<le> l \<and> l \<le> 57343 then Some l else None | None \<Rightarrow> None)
     else None | _ \<Rightarrow> None)"

definition simple_escape :: "char \<Rightarrow> char option" where
  "simple_escape e =
     (if e = dquote \<or> e = backslash \<or> e = CHR ''/'' then Some e
      else if e = CHR ''b'' then Some (CHR 0x08)
      else if e = CHR ''f'' then Some (CHR 0x0C)
      else if e = CHR ''n'' then Some (CHR 0x0A)
      else if e = CHR ''r'' then Some (CHR 0x0D)
      else if e = CHR ''t'' then Some (CHR 0x09) else None)"

definition prepend :: "string \<Rightarrow> (string \<times> string) option \<Rightarrow> (string \<times> string) option" where
  "prepend x r = map_option (\<lambda>(t, rest). (x @ t, rest)) r"

function unquote :: "string \<Rightarrow> (string \<times> string) option" where
  "unquote [] = None"
| "unquote (a # s) =
     (if a = dquote then Some ([], s)
      else if a = backslash then
        (case s of [] \<Rightarrow> None
         | e # u \<Rightarrow>
           if e = CHR ''u'' then
             (case hex4 u of None \<Rightarrow> None
              | Some r \<Rightarrow>
                if is_surrogate r then
                  (case low_surrogate r (drop 4 u) of
                     Some l \<Rightarrow> prepend (encode_rune ((r - 55296) * 1024 + (l - 56320) + 65536))
                                 (unquote (drop 10 u))
                   | None \<Rightarrow> prepend replacement (unquote (drop 4 u)))
                else prepend (encode_rune r) (unquote (drop 4 u)))
           else (case simple_escape e of None \<Rightarrow> None | Some c \<Rightarrow> prepend [c] (unquote u)))
      else if (of_char a :: nat) < 32 then None
      else (case decode_rune (a # s) of
              None \<Rightarrow> prepend replacement (unquote s)
            | Some (r, n) \<Rightarrow> prepend (take n (a # s)) (unquote (drop n (a # s)))))"
  by pat_completeness auto
termination
  by (relation "measure length") (auto dest: decode_rune_width)

declare unquote.simps(2) [simp del]

lemma prepend_Some [simp]: "prepend x (Some (t, r)) = Some (x @ t, r)"
  by (simp add: prepend_def)

lemma encode_rune_ascii: "is_ascii c \<Longrightarrow> encode_rune (of_char c) = [c]"
  by (simp add: encode_rune_def is_ascii_def)

lemma hex4_byte: "hex4 (CHR ''0'' # CHR ''0'' # hex_byte c @ t) = Some (of_char c)"
proof -
  have "of_char c div 16 < (16 :: nat)"
    using of_char_bound[of c] by (simp add: less_mult_imp_div_less)
  moreover have "hex_val (CHR ''0'') = Some 0" by code_simp
  ultimately show ?thesis by (simp add: hex4_def hex_byte_def hex_val_digit)
qed

lemma escape_marks [simp]: "backslash \<noteq> dquote" "CHR ''u'' \<noteq> dquote" "CHR ''u'' \<noteq> backslash"
  by code_simp+

lemma unquote_dquote [simp]: "unquote (dquote # s) = Some ([], s)"
  by (simp add: unquote.simps(2))

lemma unquote_simple:
  "simple_escape e = Some c \<Longrightarrow> unquote (backslash # e # t) = prepend [c] (unquote t)"
  by (auto simp: unquote.simps(2)[of backslash] simple_escape_def split: if_splits)

lemma unquote_hex:
  "is_ascii c \<Longrightarrow> unquote (backslash # ''u00'' @ hex_byte c @ t) = prepend [c] (unquote t)"
  by (simp add: unquote.simps(2)[of backslash] hex4_byte encode_rune_ascii is_surrogate_def is_ascii_def)
    (simp add: hex_byte_def)

lemma unquote_plain:
  "is_ascii c \<Longrightarrow> c \<noteq> dquote \<Longrightarrow> c \<noteq> backslash \<Longrightarrow> 32 \<le> (of_char c :: nat) \<Longrightarrow>
   unquote (c # t) = prepend [c] (unquote t)"
  by (simp add: unquote.simps(2)[of c])

lemma simple_escapes:
  "simple_escape dquote = Some dquote" "simple_escape backslash = Some backslash"
  "simple_escape (CHR ''b'') = Some (CHR 0x08)" "simple_escape (CHR ''f'') = Some (CHR 0x0C)"
  "simple_escape (CHR ''n'') = Some (CHR 0x0A)" "simple_escape (CHR ''r'') = Some (CHR 0x0D)"
  "simple_escape (CHR ''t'') = Some (CHR 0x09)"
  by code_simp+

lemma unquote_esc_ascii:
  assumes "is_ascii c"
  shows "unquote (esc_ascii c @ t) = prepend [c] (unquote t)"
proof (cases "c = backslash \<or> c = dquote \<or> c \<in> {CHR 0x08, CHR 0x0C, CHR 0x0A, CHR 0x0D, CHR 0x09}")
  case True
  then show ?thesis
    by (elim disjE insertE) (simp_all add: esc_ascii_def backslash_def dquote_def
        unquote_simple[unfolded backslash_def] simple_escapes[unfolded backslash_def dquote_def])
next
  case False
  then show ?thesis
    using assms unquote_hex[OF assms] unquote_plain[OF assms]
    by (cases "html_unsafe c") (auto simp: esc_ascii_def html_unsafe_def)
qed

lemma decode_rune_small:
  "decode_rune (a # s) = Some (r, n) \<Longrightarrow> r < 128 \<Longrightarrow> is_ascii a \<and> n = 1"
  by (auto simp: decode_rune_def is_ascii_def Let_def byte_in_def cont_def second_ok_def
      second_range_def split: list.splits if_splits)

lemma decode_rune_large:
  "decode_rune (a # s) = Some (r, n) \<Longrightarrow> \<not> r < 128 \<Longrightarrow> \<not> is_ascii a"
  by (auto simp: is_ascii_def)

text \<open>The two separators that JSON escapes for JavaScript's sake.\<close>

lemma decode_separator:
  assumes "decode_rune (a # s) = Some (r, n)" "r = 8232 \<or> r = 8233"
  shows "n = 3 \<and> take 3 (a # s) = encode_rune r"
proof -
  obtain x y z where b: "x = (of_char a :: nat)" "224 \<le> x" "x \<le> 239" "n = 3"
      "r = (x - 224) * 4096 + (y - 128) * 64 + (z - 128)" "128 \<le> y" "y \<le> 191" "128 \<le> z" "z \<le> 191"
      and t: "take 3 (a # s) = [a, char_of y, char_of z]"
    using assms
    by (auto simp: decode_rune_def Let_def byte_in_def cont_def second_ok_def second_range_def
        numeral_3_eq_3 split: list.splits if_splits)
  have "2 \<le> x - 224" "x - 224 \<le> 2" using b assms(2) by linarith+
  then have x: "x - 224 = 2" by simp
  with b assms(2) have "y - 128 = 0" by linarith
  with x b have xyz: "x = 226 \<and> y = 128 \<and> z = r - 8192 + 128" by linarith
  have "a = char_of x" using b(1) by simp
  then show ?thesis
    using b(4) t xyz assms(2) by (auto simp: encode_rune_def)
qed

lemma unquote_rune:
  assumes "decode_rune s = Some (r, n)" "\<not> r < 128"
  shows "unquote (take n s @ t) = prepend (take n s) (unquote t)"
proof -
  from assms(1) have n: "0 < n" "n \<le> length s" using decode_rune_width by fastforce+
  then obtain a u where e: "take n s @ t = a # u" by (cases "take n s @ t") auto
  have d: "decode_rune (a # u) = Some (r, n)" using decode_rune_take[OF assms(1), of t] e by simp
  with assms(2) have na: "\<not> is_ascii a" by (auto dest: decode_rune_large)
  then have "a \<noteq> dquote" "a \<noteq> backslash" "\<not> (of_char a :: nat) < 32"
    by (auto simp: is_ascii_def dquote_def backslash_def)
  moreover have "take n (a # u) = take n s" "drop n (a # u) = t" using n by (simp_all flip: e)
  ultimately show ?thesis by (simp add: e unquote.simps(2) d)
qed

lemma unquote_u4:
  "hex4 u = Some r \<Longrightarrow> \<not> is_surrogate r \<Longrightarrow>
   unquote (backslash # CHR ''u'' # u) = prepend (encode_rune r) (unquote (drop 4 u))"
  by (simp add: unquote.simps(2)[of backslash])

lemma hex4_values:
  "hex4 (''fffd'' @ t) = Some 65533" "hex4 (''2028'' @ t) = Some 8232" "hex4 (''2029'' @ t) = Some 8233"
proof -
  have "hex_val (CHR ''f'') = Some 15" "hex_val (CHR ''d'') = Some 13" "hex_val (CHR ''2'') = Some 2"
    "hex_val (CHR ''0'') = Some 0" "hex_val (CHR ''8'') = Some 8" "hex_val (CHR ''9'') = Some 9"
    by code_simp+
  then show "hex4 (''fffd'' @ t) = Some 65533" "hex4 (''2028'' @ t) = Some 8232"
    "hex4 (''2029'' @ t) = Some 8233" by (simp_all add: hex4_def)
qed

lemma encode_replacement: "encode_rune 65533 = replacement"
  by (simp add: encode_rune_def replacement_def char_of_def bit_0)

lemma prepend_prepend [simp]: "prepend x (prepend y r) = prepend (x @ y) r"
  by (cases r) (auto simp: prepend_def)

lemma unquote_quote_body: "unquote (quote_body s @ dquote # t) = Some (sanitize s, t)"
proof (induction s rule: sanitize.induct)
  case (2 a s)
  show ?case
  proof (cases "decode_rune (a # s)")
    case None
    have "unquote (backslash # ''ufffd'' @ quote_body s @ dquote # t)
        = prepend replacement (unquote (quote_body s @ dquote # t))"
      using unquote_u4[OF hex4_values(1), of "quote_body s @ dquote # t"]
      by (simp add: is_surrogate_def encode_replacement)
    then show ?thesis
      using None "2.IH"(1)[OF None] by (simp add: quote_body.simps(2) sanitize.simps(2))
  next
    case (Some rn)
    obtain r n where d: "decode_rune (a # s) = Some (r, n)" using Some by (cases rn) auto
    let ?rest = "quote_body (drop n (a # s)) @ dquote # t"
    have IH: "unquote ?rest = Some (sanitize (drop n (a # s)), t)" using "2.IH"(2)[OF d refl] .
    consider "r < 128" | "r = 8232" | "r = 8233" | "\<not> r < 128" "r \<noteq> 8232" "r \<noteq> 8233" by blast
    then show ?thesis
    proof cases
      case 1
      with decode_rune_small[OF d] IH d show ?thesis
        by (simp add: quote_body.simps(2) sanitize.simps(2) unquote_esc_ascii)
    next
      case 2
      have "unquote (backslash # ''u2028'' @ ?rest) = prepend (encode_rune 8232) (unquote ?rest)"
        using unquote_u4[OF hex4_values(2), of ?rest] by (simp add: is_surrogate_def)
      with 2 decode_separator[OF d] IH d show ?thesis
        by (simp add: quote_body.simps(2) sanitize.simps(2))
    next
      case 3
      have "unquote (backslash # ''u2029'' @ ?rest) = prepend (encode_rune 8233) (unquote ?rest)"
        using unquote_u4[OF hex4_values(3), of ?rest] by (simp add: is_surrogate_def)
      with 3 decode_separator[OF d] IH d show ?thesis
        by (simp add: quote_body.simps(2) sanitize.simps(2))
    next
      case 4
      with unquote_rune[OF d, of ?rest] IH d show ?thesis
        by (simp add: quote_body.simps(2) sanitize.simps(2))
    qed
  qed
qed simp

section \<open>Numbers\<close>

definition num_char :: "char \<Rightarrow> bool" where
  "num_char c \<longleftrightarrow> is_digit c \<or> c \<in> {CHR ''-'', CHR ''+'', CHR ''.'', CHR ''e'', CHR ''E''}"

text \<open>
  The scanner's number states: an optional minus, an integer part with no leading zero, an
  optional fraction and an optional exponent. The literal and the text after it, or None
  when the text stops in the middle of a part.
\<close>

definition scan_digits :: "string \<Rightarrow> (string \<times> string) option" where
  "scan_digits s = (let ds = takeWhile is_digit s in
     if ds = [] then None else Some (ds, dropWhile is_digit s))"

definition scan_int :: "string \<Rightarrow> (string \<times> string) option" where
  "scan_int s = (case s of [] \<Rightarrow> None
     | c # r \<Rightarrow> if c = CHR ''0'' then Some ([c], r) else scan_digits s)"

definition scan_frac :: "string \<Rightarrow> (string \<times> string) option" where
  "scan_frac s = (case s of [] \<Rightarrow> Some ([], [])
     | c # r \<Rightarrow> if c = CHR ''.'' then prepend [c] (scan_digits r) else Some ([], s))"

definition scan_exp :: "string \<Rightarrow> (string \<times> string) option" where
  "scan_exp s = (case s of [] \<Rightarrow> Some ([], [])
     | c # r \<Rightarrow> if c = CHR ''e'' \<or> c = CHR ''E'' then
         (case r of [] \<Rightarrow> None
          | d # t \<Rightarrow> if d = CHR ''+'' \<or> d = CHR ''-'' then prepend [c, d] (scan_digits t)
                     else prepend [c] (scan_digits r))
       else Some ([], s))"

definition scan_unsigned :: "string \<Rightarrow> (string \<times> string) option" where
  "scan_unsigned s = (case scan_int s of None \<Rightarrow> None
     | Some (a, r) \<Rightarrow> (case scan_frac r of None \<Rightarrow> None
       | Some (b, t) \<Rightarrow> prepend (a @ b) (scan_exp t)))"

definition scan_number :: "string \<Rightarrow> (string \<times> string) option" where
  "scan_number s = (if has_prefix s ''-'' then prepend ''-'' (scan_unsigned (tl s)) else scan_unsigned s)"

definition num_ok :: "string \<Rightarrow> bool" where
  "num_ok s \<longleftrightarrow> scan_number s = Some (s, [])"

definition num_end :: "string \<Rightarrow> bool" where
  "num_end rest \<longleftrightarrow> rest = [] \<or> \<not> num_char (hd rest)"

lemma takeWhile_stop:
  "rest = [] \<or> \<not> P (hd rest) \<Longrightarrow> takeWhile P (s @ rest) = takeWhile P s"
  "rest = [] \<or> \<not> P (hd rest) \<Longrightarrow> dropWhile P (s @ rest) = dropWhile P s @ rest"
  by (induction s) (cases rest, auto)+

lemma num_end_digit: "num_end rest \<Longrightarrow> rest = [] \<or> \<not> is_digit (hd rest)"
  by (auto simp: num_end_def num_char_def)

lemma digits_stop:
  "num_end rest \<Longrightarrow> takeWhile is_digit (s @ rest) = takeWhile is_digit s"
  "num_end rest \<Longrightarrow> dropWhile is_digit (s @ rest) = dropWhile is_digit s @ rest"
  using takeWhile_stop[of rest is_digit s] num_end_digit[of rest] by blast+

lemma scan_digits_append:
  "num_end rest \<Longrightarrow> scan_digits s = Some (a, b) \<Longrightarrow> scan_digits (s @ rest) = Some (a, b @ rest)"
  by (auto simp: scan_digits_def Let_def digits_stop split: if_splits)

lemma prepend_SomeD: "prepend x r = Some (a, b) \<Longrightarrow> \<exists>t. r = Some (t, b) \<and> a = x @ t"
  by (auto simp: prepend_def)

lemma scan_int_append:
  "num_end rest \<Longrightarrow> scan_int s = Some (a, b) \<Longrightarrow> scan_int (s @ rest) = Some (a, b @ rest)"
  using scan_digits_append[of rest s a b]
  by (auto simp: scan_int_def split: list.splits if_splits)

lemma scan_frac_append:
  "num_end rest \<Longrightarrow> scan_frac s = Some (a, b) \<Longrightarrow> scan_frac (s @ rest) = Some (a, b @ rest)"
  by (cases s; cases rest)
    (auto simp: scan_frac_def num_end_def num_char_def scan_digits_append split: if_splits dest!: prepend_SomeD)

lemma scan_exp_append:
  "num_end rest \<Longrightarrow> scan_exp s = Some (a, b) \<Longrightarrow> scan_exp (s @ rest) = Some (a, b @ rest)"
  by (cases s; cases rest)
    (auto simp: scan_exp_def num_end_def num_char_def scan_digits_append[simplified]
      scan_digits_append[of _ "_ # _", simplified]
      split: if_splits list.splits dest!: prepend_SomeD)

lemma scan_number_append:
  assumes "num_end rest" "num_ok s"
  shows "scan_number (s @ rest) = Some (s, rest)"
proof -
  have u: "scan_unsigned (s @ rest) = Some (a, b @ rest)" if "scan_unsigned s = Some (a, b)" for s a b
    using that assms(1)
    by (auto simp: scan_unsigned_def scan_int_append scan_frac_append scan_exp_append
        split: option.splits dest!: prepend_SomeD)
  have "has_prefix (s @ rest) ''-'' = has_prefix s ''-''" "s \<noteq> []"
    using assms
    by (cases s; auto simp: has_prefix_def num_ok_def scan_number_def scan_unsigned_def scan_int_def)+
  then show ?thesis
    using assms(2) u[of "tl s"] u[of s "s" "[]"]
    by (auto simp: num_ok_def scan_number_def split: if_splits dest!: prepend_SomeD)
qed

lemma hd_nat_digits_pos: "0 < n \<Longrightarrow> hd (nat_digits n) \<noteq> CHR ''0''"
proof (induction n rule: nat_digits.induct)
  case (1 n)
  show ?case
  proof (cases "n < 10")
    case True
    have "\<forall>d\<in>set [1..<10]. digit d \<noteq> CHR ''0''" by code_simp
    with True 1 show ?thesis by (subst nat_digits.simps) simp
  next
    case False
    with 1 show ?thesis by (subst nat_digits.simps) simp
  qed
qed

lemma nat_digits_0: "nat_digits 0 = ''0''"
  by code_simp

lemma scan_int_nat_digits: "scan_int (nat_digits n) = Some (nat_digits n, [])"
proof (cases "n = 0")
  case False
  then have "hd (nat_digits n) \<noteq> CHR ''0''" by (simp add: hd_nat_digits_pos)
  moreover have "takeWhile is_digit (nat_digits n) = nat_digits n" "dropWhile is_digit (nat_digits n) = []"
    using nat_digits_chars[of _ n] by (auto simp: takeWhile_eq_all_conv dropWhile_eq_Nil_conv)
  ultimately show ?thesis
    by (cases "nat_digits n") (auto simp: scan_int_def scan_digits_def Let_def)
qed (simp add: nat_digits_0 scan_int_def)

lemma num_ok_itoa [simp]: "num_ok (itoa i)"
proof -
  have u: "scan_unsigned (nat_digits n) = Some (nat_digits n, [])" for n
    by (simp add: scan_unsigned_def scan_int_nat_digits scan_frac_def scan_exp_def)
  have "hd (nat_digits n) \<noteq> CHR ''-''" for n
    using nat_digits_chars[of "hd (nat_digits n)" n] by (auto simp: is_digit_def)
  then have "\<not> has_prefix (nat_digits n) ''-''" for n
    by (cases "nat_digits n") (auto simp: has_prefix_def, metis list.sel(1))
  with u show ?thesis by (simp add: num_ok_def itoa_def scan_number_def has_prefix_Cons)
qed

section \<open>Values: printing\<close>

fun json_print :: "json \<Rightarrow> string"
  and print_elems :: "json list \<Rightarrow> string"
  and print_members :: "(string \<times> json) list \<Rightarrow> string" where
  "json_print JNull = ''null''"
| "json_print (JBool b) = (if b then ''true'' else ''false'')"
| "json_print (JNum s) = s"
| "json_print (JStr s) = quote s"
| "json_print (JArr js) = CHR ''['' # print_elems js @ '']''"
| "json_print (JObj ms) = CHR ''{'' # print_members ms @ ''}''"
| "print_elems [] = []"
| "print_elems (j # js) = json_print j @ (if js = [] then [] else CHR '','' # print_elems js)"
| "print_members [] = []"
| "print_members ((k, j) # ms) =
     quote k @ CHR '':'' # json_print j @ (if ms = [] then [] else CHR '','' # print_members ms)"

text \<open>The value read back: the strings with invalid bytes replaced.\<close>

fun json_sanitize :: "json \<Rightarrow> json" where
  "json_sanitize (JStr s) = JStr (sanitize s)"
| "json_sanitize (JArr js) = JArr (map json_sanitize js)"
| "json_sanitize (JObj ms) = JObj (map (\<lambda>(k, j). (sanitize k, json_sanitize j)) ms)"
| "json_sanitize j = j"

text \<open>Every number literal is well-formed, and every string is UTF-8.\<close>

fun json_nums_ok :: "json \<Rightarrow> bool" where
  "json_nums_ok (JNum s) = num_ok s"
| "json_nums_ok (JArr js) = list_all json_nums_ok js"
| "json_nums_ok (JObj ms) = list_all (\<lambda>(k, j). json_nums_ok j) ms"
| "json_nums_ok _ = True"

fun json_utf8 :: "json \<Rightarrow> bool" where
  "json_utf8 (JStr s) = utf8_ok s"
| "json_utf8 (JArr js) = list_all json_utf8 js"
| "json_utf8 (JObj ms) = list_all (\<lambda>(k, j). utf8_ok k \<and> json_utf8 j) ms"
| "json_utf8 _ = True"

text \<open>The nesting depth, which the scanner limits to 10000.\<close>

fun json_depth :: "json \<Rightarrow> nat" where
  "json_depth (JArr js) = Suc (fold max (map json_depth js) 0)"
| "json_depth (JObj ms) = Suc (fold max (map (\<lambda>(k, j). json_depth j) ms) 0)"
| "json_depth _ = 0"

definition max_depth :: nat where
  "max_depth = 10000"

section \<open>Values: parsing\<close>

definition is_ws :: "char \<Rightarrow> bool" where
  "is_ws c \<longleftrightarrow> c \<in> {CHR '' '', CHR 0x09, CHR 0x0A, CHR 0x0D}"

definition skip_ws :: "string \<Rightarrow> string" where
  "skip_ws s = dropWhile is_ws s"

text \<open>
  Recursive descent. The fuel bounds the recursion; \<open>json_parse\<close> gives twice the length of
  the text, which is enough for whatever \<open>json_print\<close> writes (\<open>parse_value_print\<close>).
\<close>

fun parse_value :: "nat \<Rightarrow> string \<Rightarrow> (json \<times> string) option"
  and parse_elems :: "nat \<Rightarrow> string \<Rightarrow> (json list \<times> string) option"
  and parse_members :: "nat \<Rightarrow> string \<Rightarrow> ((string \<times> json) list \<times> string) option" where
  "parse_value 0 s = None"
| "parse_value (Suc n) s = (case skip_ws s of [] \<Rightarrow> None
     | c # r \<Rightarrow>
        if c = CHR ''{'' then
          (case skip_ws r of [] \<Rightarrow> None
           | d # t \<Rightarrow> if d = CHR ''}'' then Some (JObj [], t)
               else (case parse_members n r of None \<Rightarrow> None | Some (ms, t) \<Rightarrow> Some (JObj ms, t)))
        else if c = CHR ''['' then
          (case skip_ws r of [] \<Rightarrow> None
           | d # t \<Rightarrow> if d = CHR '']'' then Some (JArr [], t)
               else (case parse_elems n r of None \<Rightarrow> None | Some (js, t) \<Rightarrow> Some (JArr js, t)))
        else if c = dquote then
          (case unquote r of None \<Rightarrow> None | Some (x, t) \<Rightarrow> Some (JStr x, t))
        else if has_prefix (c # r) ''null'' then Some (JNull, drop 4 (c # r))
        else if has_prefix (c # r) ''true'' then Some (JBool True, drop 4 (c # r))
        else if has_prefix (c # r) ''false'' then Some (JBool False, drop 5 (c # r))
        else (case scan_number (c # r) of None \<Rightarrow> None | Some (lit, t) \<Rightarrow> Some (JNum lit, t)))"
| "parse_elems 0 s = None"
| "parse_elems (Suc n) s = (case parse_value n s of None \<Rightarrow> None
     | Some (j, r) \<Rightarrow> (case skip_ws r of [] \<Rightarrow> None
        | d # t \<Rightarrow> if d = CHR '']'' then Some ([j], t)
            else if d = CHR '','' then
              (case parse_elems n t of None \<Rightarrow> None | Some (js, u) \<Rightarrow> Some (j # js, u))
            else None))"
| "parse_members 0 s = None"
| "parse_members (Suc n) s = (case skip_ws s of [] \<Rightarrow> None
     | q # r \<Rightarrow> if q \<noteq> dquote then None else
       (case unquote r of None \<Rightarrow> None
        | Some (k, r1) \<Rightarrow> (case skip_ws r1 of [] \<Rightarrow> None
          | e # r2 \<Rightarrow> if e \<noteq> CHR '':'' then None else
            (case parse_value n r2 of None \<Rightarrow> None
             | Some (j, r3) \<Rightarrow> (case skip_ws r3 of [] \<Rightarrow> None
               | d # t \<Rightarrow> if d = CHR ''}'' then Some ([(k, j)], t)
                   else if d = CHR '','' then
                     (case parse_members n t of None \<Rightarrow> None
                      | Some (ms, u) \<Rightarrow> Some ((k, j) # ms, u))
                   else None)))))"

text \<open>json.Unmarshal reads one value and nothing but space after it.\<close>

definition json_parse :: "string \<Rightarrow> json option" where
  "json_parse s = (case parse_value (2 * length s + 2) s of None \<Rightarrow> None
     | Some (j, r) \<Rightarrow> if skip_ws r = [] \<and> json_depth j \<le> max_depth then Some j else None)"

text \<open>
  Decoder.Decode reads the first value of a stream and leaves the rest unread.
\<close>

definition json_decode :: "string \<Rightarrow> json option" where
  "json_decode s = (case parse_value (2 * length s + 2) s of None \<Rightarrow> None
     | Some (j, r) \<Rightarrow> if json_depth j \<le> max_depth then Some j else None)"

section \<open>Round trip\<close>

lemma num_ok_head: "num_ok s \<Longrightarrow> \<exists>c r. s = c # r \<and> (is_digit c \<or> c = CHR ''-'')"
proof -
  assume n: "num_ok s"
  have d: "is_digit c" if "takeWhile is_digit (c # r) \<noteq> []" for c r
    using that by (simp split: if_splits)
  have i: "\<exists>c r. s = c # r \<and> is_digit c" if "scan_int s = Some x" for x
    using that d by (auto simp: scan_int_def scan_digits_def Let_def is_digit_def split: list.splits if_splits)
  show ?thesis
  proof (cases "has_prefix s ''-''")
    case True
    then show ?thesis by (auto simp: has_prefix_iff)
  next
    case False
    with n i show ?thesis
      by (auto simp: num_ok_def scan_number_def scan_unsigned_def split: option.splits)
  qed
qed

definition starts_value :: "string \<Rightarrow> bool" where
  "starts_value s \<longleftrightarrow> (\<exists>c r. s = c # r \<and> \<not> is_ws c \<and> c \<noteq> CHR '']'' \<and> c \<noteq> CHR ''}'')"

lemma json_print_head: "json_nums_ok j \<Longrightarrow> starts_value (json_print j @ rest)"
  using num_ok_head
  by (cases j) (fastforce simp: starts_value_def is_ws_def quote_def dquote_def is_digit_def)+

lemma skip_ws_value: "starts_value s \<Longrightarrow> skip_ws s = s"
  by (auto simp: starts_value_def skip_ws_def)

lemma skip_ws_Cons [simp]: "\<not> is_ws c \<Longrightarrow> skip_ws (c # r) = c # r"
  by (simp add: skip_ws_def)

lemma marks_not_ws [simp]:
  "\<not> is_ws (CHR ''['')" "\<not> is_ws (CHR '']'')" "\<not> is_ws (CHR ''{'')" "\<not> is_ws (CHR ''}'')"
  "\<not> is_ws (CHR '','')" "\<not> is_ws (CHR '':'')" "\<not> is_ws dquote" "\<not> is_ws (CHR ''n'')"
  "\<not> is_ws (CHR ''t'')" "\<not> is_ws (CHR ''f'')"
  by (simp_all add: is_ws_def dquote_def)

lemma dquote_not_mark [simp]: "dquote \<noteq> CHR ''{''" "dquote \<noteq> CHR ''[''" "CHR ''{'' \<noteq> dquote"
  "CHR ''['' \<noteq> dquote" "CHR ''n'' \<noteq> dquote" "CHR ''t'' \<noteq> dquote" "CHR ''f'' \<noteq> dquote"
  "dquote \<noteq> CHR ''}''"
  by (simp_all add: dquote_def)

lemma unquote_quote: "quote s @ rest = dquote # t \<Longrightarrow> unquote t = Some (sanitize s, rest)"
  using unquote_quote_body[of s rest] by (auto simp: quote_def)

lemma num_end_marks [simp]: "num_end (CHR '','' # r)" "num_end (CHR '']'' # r)" "num_end (CHR ''}'' # r)"
  "num_end []"
  by (auto simp: num_end_def num_char_def is_digit_def)

lemma length_pos_value: "json_nums_ok j \<Longrightarrow> 0 < length (json_print j)"
  using json_print_head[of j "[]"] by (auto simp: starts_value_def)

lemma parse_number_value:
  assumes "num_ok s" "num_end rest"
  shows "parse_value (Suc n) (s @ rest) = Some (JNum s, rest)"
proof -
  obtain c r where s: "s = c # r" and c: "is_digit c \<or> c = CHR ''-''"
    using num_ok_head[OF assms(1)] by blast
  have w: "skip_ws (s @ rest) = s @ rest"
    using json_print_head[of "JNum s" rest] assms(1) by (simp add: skip_ws_value)
  from c have nc: "c \<noteq> CHR ''{''" "c \<noteq> CHR ''[''" "c \<noteq> dquote" "c \<noteq> CHR ''n''" "c \<noteq> CHR ''t''" "c \<noteq> CHR ''f''"
    by (auto simp: is_digit_def dquote_def)
  have "parse_value (Suc n) (s @ rest) =
      (case scan_number (s @ rest) of None \<Rightarrow> None | Some (lit, t) \<Rightarrow> Some (JNum lit, t))"
    unfolding parse_value.simps w using nc by (simp add: s has_prefix_Cons)
  also have "\<dots> = Some (JNum s, rest)" by (simp add: scan_number_append[OF assms(2,1)])
  finally show ?thesis .
qed

lemma parse_value_print:
  shows "json_nums_ok j \<Longrightarrow> num_end rest \<Longrightarrow> 2 * length (json_print j) < n \<Longrightarrow>
      parse_value n (json_print j @ rest) = Some (json_sanitize j, rest)"
    and "list_all json_nums_ok js \<Longrightarrow> js \<noteq> [] \<Longrightarrow> 2 * length (print_elems js) + 1 < n \<Longrightarrow>
      parse_elems n (print_elems js @ CHR '']'' # rest) = Some (map json_sanitize js, rest)"
    and "list_all (\<lambda>(k, j). json_nums_ok j) ms \<Longrightarrow> ms \<noteq> [] \<Longrightarrow>
      2 * length (print_members ms) + 1 < n \<Longrightarrow>
      parse_members n (print_members ms @ CHR ''}'' # rest)
        = Some (map (\<lambda>(k, j). (sanitize k, json_sanitize j)) ms, rest)"
proof (induction j and js and ms arbitrary: n rest and n rest and n rest
    rule: json_print_print_elems_print_members.induct)
  case 1
  then show ?case by (cases n) (auto simp: has_prefix_Cons)
next
  case (2 b)
  then show ?case by (cases n) (auto simp: has_prefix_Cons)
next
  case (3 s)
  then show ?case using parse_number_value[of s rest "n - 1"] by (cases n) auto
next
  case (4 s)
  then show ?case using unquote_quote_body[of s rest] by (cases n) (auto simp: quote_def)
next
  case (5 js)
  obtain m where n: "n = Suc m" using 5 by (cases n) auto
  show ?case
  proof (cases "js = []")
    case True
    with n show ?thesis by simp
  next
    case False
    then obtain j js' where js: "js = j # js'" by (cases js) auto
    have h: "starts_value (print_elems js @ CHR '']'' # rest)"
      using json_print_head[of j] 5 js by (simp add: append_assoc)
    then obtain c r where cr: "print_elems js @ CHR '']'' # rest = c # r" "\<not> is_ws c" "c \<noteq> CHR '']''"
      by (auto simp: starts_value_def)
    have "parse_elems m (print_elems js @ CHR '']'' # rest) = Some (map json_sanitize js, rest)"
      using 5 False n by simp
    with n cr show ?thesis by simp
  qed
next
  case (6 ms)
  obtain m where n: "n = Suc m" using 6 by (cases n) auto
  show ?case
  proof (cases "ms = []")
    case True
    with n show ?thesis by simp
  next
    case False
    then obtain k j ms' where ms: "ms = (k, j) # ms'" by (cases ms) auto
    then obtain r where cr: "print_members ms @ CHR ''}'' # rest = dquote # r"
      by (simp add: quote_def)
    have "parse_members m (print_members ms @ CHR ''}'' # rest)
        = Some (map (\<lambda>(k, j). (sanitize k, json_sanitize j)) ms, rest)"
      using 6 False n by simp
    with n cr show ?thesis by simp
  qed
next
  case (8 j js)
  obtain m where n: "n = Suc m" using 8 by (cases n) auto
  show ?case
  proof (cases "js = []")
    case True
    with 8 n show ?thesis by simp
  next
    case False
    then have "parse_value m (json_print j @ CHR '','' # print_elems js @ CHR '']'' # rest)
        = Some (json_sanitize j, CHR '','' # print_elems js @ CHR '']'' # rest)"
      using 8 n by simp
    moreover have "parse_elems m (print_elems js @ CHR '']'' # rest) = Some (map json_sanitize js, rest)"
      using 8 n False length_pos_value[of j] by simp
    ultimately show ?thesis using n False by simp
  qed
next
  case (10 k j ms)
  obtain m where n: "n = Suc m" using 10 by (cases n) auto
  let ?tail = "if ms = [] then CHR ''}'' # rest else CHR '','' # print_members ms @ CHR ''}'' # rest"
  have u: "unquote (quote_body k @ dquote # CHR '':'' # json_print j @ ?tail)
      = Some (sanitize k, CHR '':'' # json_print j @ ?tail)"
    by (rule unquote_quote_body)
  have v: "parse_value m (json_print j @ ?tail) = Some (json_sanitize j, ?tail)"
    using 10 n by (simp add: quote_def split: if_splits)
  have w: "ms \<noteq> [] \<Longrightarrow> parse_members m (print_members ms @ CHR ''}'' # rest)
      = Some (map (\<lambda>(k, j). (sanitize k, json_sanitize j)) ms, rest)"
    using 10 n by (simp add: quote_def)
  show ?case using u v w n by (cases "ms = []") (simp_all add: quote_def)
qed auto

lemma json_sanitize_id: "json_utf8 j \<Longrightarrow> json_sanitize j = j"
proof (induction j)
  case (JArr js)
  then show ?case by (simp add: list_all_iff map_idI)
next
  case (JObj ms)
  then show ?case by (auto simp: list_all_iff sanitize_id intro!: map_idI)
qed (auto simp: sanitize_id)

lemma json_depth_sanitize: "json_depth (json_sanitize j) = json_depth j"
proof (induction j)
  case (JObj ms)
  then have "map (\<lambda>x. json_depth (json_sanitize (snd x))) ms = map (\<lambda>x. json_depth (snd x)) ms"
    by (intro map_cong) auto
  from arg_cong[OF this, of "\<lambda>l. fold max l 0"] show ?case by (simp add: comp_def case_prod_unfold)
qed (auto simp: comp_def cong: map_cong)

lemma json_nums_sanitize: "json_nums_ok (json_sanitize j) = json_nums_ok j"
  by (induction j) (auto simp: list_all_iff)

text \<open>Whatever the strings are, the text reads back as the value with their invalid bytes replaced.\<close>

lemma json_parse_sanitized:
  "json_nums_ok j \<Longrightarrow> json_depth j \<le> max_depth \<Longrightarrow> json_parse (json_print j) = Some (json_sanitize j)"
  using parse_value_print(1)[of j "[]" "2 * length (json_print j) + 2"]
  by (simp add: json_parse_def skip_ws_def json_depth_sanitize del: parse_value.simps)

definition json_ok :: "json \<Rightarrow> bool" where
  "json_ok j \<longleftrightarrow> json_nums_ok j \<and> json_utf8 j \<and> json_depth j \<le> max_depth"

lemma json_parse_print: "json_ok j \<Longrightarrow> json_parse (json_print j) = Some j"
  using parse_value_print(1)[of j "[]" "2 * length (json_print j) + 2"]
  by (simp add: json_ok_def json_parse_def json_sanitize_id skip_ws_def)

lemma json_decode_print: "json_ok j \<Longrightarrow> json_decode (json_print j) = Some j"
  using parse_value_print(1)[of j "[]" "2 * length (json_print j) + 2"]
  by (simp add: json_ok_def json_decode_def json_sanitize_id)

section \<open>Structs\<close>

text \<open>
  Filling a struct from an object: the members are taken in order, a member belongs to the
  field whose name it equals up to case folding (the Kelvin sign and the long s fold to
  ASCII letters), a null member changes nothing, the last one wins, and a value of the wrong
  type is an error. Members with other names are ignored.
\<close>

definition lower_ascii :: "char \<Rightarrow> char" where
  "lower_ascii c = (let x = (of_char c :: nat) in
     if 65 \<le> x \<and> x \<le> 90 then char_of (x + 32) else c)"

fun fold_key :: "string \<Rightarrow> string" where
  "fold_key (a # b # c # s) =
     (if a = CHR 0xE2 \<and> b = CHR 0x84 \<and> c = CHR 0xAA then CHR ''k'' # fold_key s
      else if a = CHR 0xC5 \<and> b = CHR 0xBF then CHR ''s'' # fold_key (c # s)
      else lower_ascii a # fold_key (b # c # s))"
| "fold_key [a, b] = (if a = CHR 0xC5 \<and> b = CHR 0xBF then ''s'' else [lower_ascii a, lower_ascii b])"
| "fold_key [a] = [lower_ascii a]"
| "fold_key [] = []"

fun obj_get :: "string \<Rightarrow> (json \<Rightarrow> 'a \<Rightarrow> 'a option) \<Rightarrow> 'a \<Rightarrow> (string \<times> json) list \<Rightarrow> 'a option" where
  "obj_get f d z [] = Some z"
| "obj_get f d z ((k, j) # ms) =
     (if fold_key k = fold_key f
      then (case d j z of None \<Rightarrow> None | Some z' \<Rightarrow> obj_get f d z' ms)
      else obj_get f d z ms)"

text \<open>
  The members a struct is filled from: those of an object, none for null (which leaves the
  struct zero), and an error for any other value.
\<close>

definition members :: "json \<Rightarrow> (string \<times> json) list option" where
  "members j = (case j of JObj ms \<Rightarrow> Some ms | JNull \<Rightarrow> Some [] | _ \<Rightarrow> None)"

definition dec_str :: "json \<Rightarrow> string \<Rightarrow> string option" where
  "dec_str j z = (case j of JStr s \<Rightarrow> Some s | JNull \<Rightarrow> Some z | _ \<Rightarrow> None)"

definition dec_int :: "json \<Rightarrow> int \<Rightarrow> int option" where
  "dec_int j z = (case j of JNum s \<Rightarrow> parse_int64 s | JNull \<Rightarrow> Some z | _ \<Rightarrow> None)"

definition dec_uint32 :: "json \<Rightarrow> 32 word \<Rightarrow> 32 word option" where
  "dec_uint32 j z = (case j of
     JNum s \<Rightarrow> if s \<noteq> [] \<and> list_all is_digit s \<and> digits_value s < 2 ^ 32
               then Some (of_nat (digits_value s)) else None
   | JNull \<Rightarrow> Some z | _ \<Rightarrow> None)"

definition dec_bool :: "json \<Rightarrow> bool \<Rightarrow> bool option" where
  "dec_bool j z = (case j of JBool b \<Rightarrow> Some b | JNull \<Rightarrow> Some z | _ \<Rightarrow> None)"

text \<open>A byte slice travels as padded base64; nil, written null, is the empty slice here.\<close>

definition dec_bytes :: "json \<Rightarrow> bytes \<Rightarrow> bytes option" where
  "dec_bytes j z = (case j of JStr s \<Rightarrow> b64_decode s | JNull \<Rightarrow> Some [] | _ \<Rightarrow> None)"

definition enc_bytes :: "bytes \<Rightarrow> json" where
  "enc_bytes bs = (if bs = [] then JNull else JStr (std_encode bs))"

definition enc_int :: "int \<Rightarrow> json" where
  "enc_int i = JNum (itoa i)"

text \<open>A json.RawMessage takes the value as it is.\<close>

definition dec_raw :: "json \<Rightarrow> json \<Rightarrow> json option" where
  "dec_raw j z = Some j"

text \<open>Field names in lower case fold to themselves.\<close>

definition plain_char :: "char \<Rightarrow> bool" where
  "plain_char c \<longleftrightarrow> (of_char c :: nat) < 128 \<and> \<not> (65 \<le> (of_char c :: nat) \<and> (of_char c :: nat) \<le> 90)"

lemma plain_char_simps: "plain_char c \<Longrightarrow> lower_ascii c = c \<and> c \<noteq> CHR 0xE2 \<and> c \<noteq> CHR 0xC5"
  by (auto simp: plain_char_def lower_ascii_def)

lemma fold_key_plain [simp]: "list_all plain_char s \<Longrightarrow> fold_key s = s"
  by (induction s rule: fold_key.induct) (auto simp: plain_char_simps)

declare fold_key.simps [simp del] plain_char_def [simp]

lemma dec_str_JStr [simp]: "dec_str (JStr s) z = Some s"
  by (simp add: dec_str_def)

lemma dec_bool_JBool [simp]: "dec_bool (JBool b) z = Some b"
  by (simp add: dec_bool_def)

lemma dec_int_enc [simp]: "int64_ok i \<Longrightarrow> dec_int (enc_int i) z = Some i"
  by (simp add: dec_int_def enc_int_def parse_int64_itoa)

lemma dec_bytes_enc [simp]: "dec_bytes (enc_bytes bs) z = Some bs"
  by (simp add: dec_bytes_def enc_bytes_def)

lemma dec_raw_id [simp]: "dec_raw j z = Some j"
  by (simp add: dec_raw_def)

lemma enc_bytes_ok [simp]:
  "json_nums_ok (enc_bytes bs)" "json_utf8 (enc_bytes bs)" "json_depth (enc_bytes bs) = 0"
  by (simp_all add: enc_bytes_def)

lemma enc_int_ok [simp]:
  "json_nums_ok (enc_int i)" "json_utf8 (enc_int i)" "json_depth (enc_int i) = 0"
  by (simp_all add: enc_int_def)

lemma members_JObj [simp]: "members (JObj ms) = Some ms"
  by (simp add: members_def)

end
