(* ===== verification/Externals.thy ===== *)
theory Externals
  imports Go_Json
begin

text \<open>
  Code outside the repository, as parameters of the model. \<open>prims\<close> gathers the cryptographic
  primitives (golang.org/x/crypto and the standard crypto packages) and the RFC 3339 text of a
  time; \<open>badger\<close> gathers the transactions on a Badger database of state \<open>'s\<close>. The locales
  \<open>prims_laws\<close> and \<open>badger_laws\<close> state the documented behaviour that the program relies on.
  Nothing is assumed of their strength: no theorem needs a hash to be injective or a cipher
  to hide its plaintext.
\<close>

section \<open>Primitives\<close>

text \<open>
  \<open>argon2_idkey\<close> is argon2.IDKey with the program's fixed cost parameters and key length 32.
  \<open>hkdf_sha256\<close> reads 32 bytes of the HKDF stream for a secret and an info string, without
  salt. \<open>gcm_seal\<close> and \<open>gcm_open\<close> are AES-GCM under a key and a nonce of the right lengths.
\<close>

record prims =
  argon2_idkey :: "bytes \<Rightarrow> bytes \<Rightarrow> bytes"
  hkdf_sha256 :: "bytes \<Rightarrow> string \<Rightarrow> bytes option"
  gcm_seal :: "bytes \<Rightarrow> bytes \<Rightarrow> bytes \<Rightarrow> bytes"
  gcm_open :: "bytes \<Rightarrow> bytes \<Rightarrow> bytes \<Rightarrow> bytes option"
  sha256 :: "bytes \<Rightarrow> bytes"
  hmac_sha1 :: "bytes \<Rightarrow> bytes \<Rightarrow> bytes"
  ed25519_verify :: "bytes \<Rightarrow> bytes \<Rightarrow> bytes \<Rightarrow> bool"
  time_format :: "time \<Rightarrow> string"
  time_parse :: "string \<Rightarrow> time option"

locale prims_laws =
  fixes P :: prims
  assumes argon2_length: "length (argon2_idkey P pw salt) = 32"
    and hkdf_total: "\<exists>k. hkdf_sha256 P mk info = Some k \<and> length k = 32"
    and gcm_round_trip: "length key = 32 \<Longrightarrow> length nonce = 12 \<Longrightarrow>
        gcm_open P key nonce (gcm_seal P key nonce pt) = Some pt"
    and hmac_length: "length (hmac_sha1 P key msg) = 20"
    and time_round_trip: "time_ok t \<Longrightarrow> time_parse P (time_format P t) = Some t"
    and time_text: "utf8_ok (time_format P t)"

section \<open>Badger\<close>

datatype bdg_err = KeyNotFound | BdgErr string

text \<open>
  One operation per transaction of the program: \<open>bdg_get\<close> is View with Get and ValueCopy,
  \<open>bdg_set\<close>, \<open>bdg_set_ttl\<close> and \<open>bdg_delete\<close> are Update with Set, SetEntry (WithTTL) and Delete,
  and \<open>bdg_iter\<close> lists the items of an iterator in key order with the result of copying each
  value. The time decides which entries have expired. A failed update leaves the state.
\<close>

record 's badger =
  bdg_get :: "'s \<Rightarrow> time \<Rightarrow> bytes \<Rightarrow> bdg_err + bytes"
  bdg_set :: "'s \<Rightarrow> time \<Rightarrow> bytes \<Rightarrow> bytes \<Rightarrow> bdg_err + 's"
  bdg_set_ttl :: "'s \<Rightarrow> time \<Rightarrow> bytes \<Rightarrow> bytes \<Rightarrow> duration \<Rightarrow> bdg_err + 's"
  bdg_delete :: "'s \<Rightarrow> time \<Rightarrow> bytes \<Rightarrow> bdg_err + 's"
  bdg_iter :: "'s \<Rightarrow> time \<Rightarrow> bdg_err + (bytes \<times> (bdg_err + bytes)) list"

text \<open>
  The contents of a database: per key a value and, for an entry with a TTL, its expiry.
  \<open>visible\<close> is what a transaction at a given time sees.
\<close>

type_synonym contents = "string \<Rightarrow> (bytes \<times> time option) option"

definition visible :: "contents \<Rightarrow> time \<Rightarrow> string \<Rightarrow> bytes option" where
  "visible c t k = (case c k of None \<Rightarrow> None
     | Some (v, None) \<Rightarrow> Some v
     | Some (v, Some e) \<Rightarrow> if t < e then Some v else None)"

text \<open>
  Reads of an open database succeed, an update may fail. An entry set with a TTL expires at
  the full second in which its TTL ends, so up to one second early and never late.
\<close>

locale badger_laws =
  fixes B :: "'s badger" and E :: "'s \<Rightarrow> contents"
  assumes bdg_get: "k \<noteq> [] \<Longrightarrow> bdg_get B s t k =
      (case visible (E s) t k of None \<Rightarrow> Inl KeyNotFound | Some v \<Rightarrow> Inr v)"
    and bdg_set: "bdg_set B s t k v = Inr s' \<Longrightarrow> E s' = (E s)(k \<mapsto> (v, None))"
    and bdg_set_ttl: "bdg_set_ttl B s t k v d = Inr s' \<Longrightarrow>
        \<exists>e. t + d - second < e \<and> e \<le> t + d \<and> E s' = (E s)(k \<mapsto> (v, Some e))"
    and bdg_delete: "bdg_delete B s t k = Inr s' \<Longrightarrow> E s' = (E s)(k := None)"
    and bdg_iter: "\<exists>items. bdg_iter B s t = Inr items \<and> sorted_wrt (<) (map fst items) \<and>
        (\<forall>k. map_of items k = map_option Inr (visible (E s) t k))"

lemma visible_upd_same [simp]: "visible (c(k \<mapsto> (v, None))) t k = Some v"
  by (simp add: visible_def)

lemma visible_upd_other [simp]: "k' \<noteq> k \<Longrightarrow> visible (c(k := x)) t k' = visible c t k'"
  by (simp add: visible_def)

lemma visible_del [simp]: "visible (c(k := None)) t k = None"
  by (simp add: visible_def)

lemma visible_expires:
  "visible c t k = Some v \<longleftrightarrow> (\<exists>e. c k = Some (v, e) \<and> (\<forall>x. e = Some x \<longrightarrow> t < x))"
  by (auto simp: visible_def split: option.splits)

text \<open>Entries without a TTL look the same at every time.\<close>

definition untimed :: "contents \<Rightarrow> string \<Rightarrow> bool" where
  "untimed c p \<longleftrightarrow> (\<forall>k v e. has_prefix k p \<longrightarrow> c k = Some (v, e) \<longrightarrow> e = None)"

lemma untimedD: "untimed c p \<Longrightarrow> has_prefix k p \<Longrightarrow> c k = Some (v, e) \<Longrightarrow> e = None"
  unfolding untimed_def by blast

lemma untimed_visible:
  "untimed c p \<Longrightarrow> has_prefix k p \<Longrightarrow> visible c t k = visible c t' k"
  unfolding visible_def by (cases "c k") (auto split: option.splits dest: untimedD)

lemma untimed_set [simp]: "untimed c p \<Longrightarrow> untimed (c(k \<mapsto> (v, None))) p"
  by (auto simp: untimed_def)

lemma untimed_del [simp]: "untimed c p \<Longrightarrow> untimed (c(k := None)) p"
  by (auto simp: untimed_def)

lemma untimed_other: "\<not> has_prefix k p \<Longrightarrow> untimed c p \<Longrightarrow> untimed (c(k := x)) p"
  by (auto simp: untimed_def)

lemma untimed_mono: "untimed c p \<Longrightarrow> has_prefix q p \<Longrightarrow> untimed c q"
  unfolding untimed_def using has_prefix_trans by blast

section \<open>Codecs\<close>

text \<open>
  json.Marshal of a struct is its value's text; it fails on a time out of range. Unmarshal
  parses the text and fills the struct.
\<close>

definition json_marshal :: "('d \<Rightarrow> json option) \<Rightarrow> 'd \<Rightarrow> err + bytes" where
  "json_marshal enc d = (case enc d of None \<Rightarrow> Inl ErrMarshal | Some j \<Rightarrow> Inr (json_print j))"

definition json_unmarshal :: "(json \<Rightarrow> 'd option) \<Rightarrow> bytes \<Rightarrow> err + 'd" where
  "json_unmarshal dec data = (case json_parse data of None \<Rightarrow> Inl ErrUnmarshal
     | Some j \<Rightarrow> (case dec j of None \<Rightarrow> Inl ErrUnmarshal | Some d \<Rightarrow> Inr d))"

definition enc_time :: "prims \<Rightarrow> time \<Rightarrow> json option" where
  "enc_time P t = (if time_ok t then Some (JStr (time_format P t)) else None)"

definition dec_time :: "prims \<Rightarrow> json \<Rightarrow> time \<Rightarrow> time option" where
  "dec_time P j z = (case j of JStr s \<Rightarrow> time_parse P s | JNull \<Rightarrow> Some z | _ \<Rightarrow> None)"

definition dec_time_ptr :: "prims \<Rightarrow> json \<Rightarrow> time option \<Rightarrow> time option option" where
  "dec_time_ptr P j z = (case j of JNull \<Rightarrow> Some None
     | _ \<Rightarrow> map_option Some (dec_time P j zero_time))"

text \<open>What a store needs of the encoding of its records: what is written is read back.\<close>

locale codec =
  fixes enc :: "'d \<Rightarrow> json option" and dec :: "json \<Rightarrow> 'd option" and ok :: "'d \<Rightarrow> bool"
  assumes enc_ok: "ok d \<Longrightarrow> \<exists>j. enc d = Some j \<and> json_ok j \<and> dec j = Some d"
begin

lemma marshal_ok: "ok d \<Longrightarrow> \<exists>data. json_marshal enc d = Inr data \<and> json_unmarshal dec data = Inr d"
  using enc_ok[of d] by (auto simp: json_marshal_def json_unmarshal_def json_parse_print)

lemma unmarshal_marshal:
  "ok d \<Longrightarrow> json_marshal enc d = Inr data \<Longrightarrow> json_unmarshal dec data = Inr d"
  using marshal_ok[of d] by auto

text \<open>A document with bytes that are not UTF-8 in its strings reads back as the one with them replaced.\<close>

lemma unmarshal_sanitized:
  assumes "ok d'" "enc d = Some j" "enc d' = Some (json_sanitize j)" "json_marshal enc d = Inr data"
  shows "json_unmarshal dec data = Inr d'"
proof -
  have "json_ok (json_sanitize j)" "dec (json_sanitize j) = Some d'" using enc_ok[OF assms(1)] assms(3) by auto
  then show ?thesis using json_parse_sanitized[of j] assms(2,4)
    by (auto simp: json_ok_def json_nums_sanitize json_depth_sanitize json_unmarshal_def json_marshal_def)
qed

end

end
