(* ===== verification/Storage_DB.thy ===== *)
theory Storage_DB
  imports Externals
begin

text \<open>
  internal/storage/badger.go: the key-value store over Badger. Badger's error for a missing
  key becomes ErrNotFound; List and Scan walk an iterator from the first key that is not
  below the prefix while the prefix matches; ListDirect cuts the keys of List to one level.
\<close>

section \<open>Operations\<close>

definition db_get :: "'s badger \<Rightarrow> 's \<Rightarrow> time \<Rightarrow> string \<Rightarrow> err + bytes" where
  "db_get B s t key = (case bdg_get B s t key of
     Inl KeyNotFound \<Rightarrow> Inl ErrNotFound
   | Inl (BdgErr m) \<Rightarrow> Inl (ErrBadger m)
   | Inr v \<Rightarrow> Inr v)"

fun bdg_error :: "bdg_err \<Rightarrow> err" where
  "bdg_error KeyNotFound = ErrBadger ''Key not found''"
| "bdg_error (BdgErr m) = ErrBadger m"

definition lift_bdg :: "bdg_err + 'a \<Rightarrow> err + 'a" where
  "lift_bdg r = (case r of Inl e \<Rightarrow> Inl (bdg_error e) | Inr x \<Rightarrow> Inr x)"

definition db_set :: "'s badger \<Rightarrow> 's \<Rightarrow> time \<Rightarrow> string \<Rightarrow> bytes \<Rightarrow> err + 's" where
  "db_set B s t key value = lift_bdg (bdg_set B s t key value)"

definition db_set_with_ttl ::
  "'s badger \<Rightarrow> 's \<Rightarrow> time \<Rightarrow> string \<Rightarrow> bytes \<Rightarrow> duration \<Rightarrow> err + 's" where
  "db_set_with_ttl B s t key value ttl = lift_bdg (bdg_set_ttl B s t key value ttl)"

definition db_delete :: "'s badger \<Rightarrow> 's \<Rightarrow> time \<Rightarrow> string \<Rightarrow> err + 's" where
  "db_delete B s t key = lift_bdg (bdg_delete B s t key)"

text \<open>Iterator.Seek, and the loop that runs while ValidForPrefix.\<close>

fun seek :: "string \<Rightarrow> (string \<times> 'v) list \<Rightarrow> (string \<times> 'v) list" where
  "seek p [] = []"
| "seek p ((k, v) # items) = (if k < p then seek p items else (k, v) # items)"

fun while_prefix :: "string \<Rightarrow> (string \<times> 'v) list \<Rightarrow> (string \<times> 'v) list" where
  "while_prefix p [] = []"
| "while_prefix p ((k, v) # items) =
     (if has_prefix k p then (k, v) # while_prefix p items else [])"

definition db_list :: "'s badger \<Rightarrow> 's \<Rightarrow> time \<Rightarrow> string \<Rightarrow> err + string list" where
  "db_list B s t prefix = (case lift_bdg (bdg_iter B s t) of
     Inl e \<Rightarrow> Inl e
   | Inr items \<Rightarrow> Inr (map fst (while_prefix prefix (seek prefix items))))"

text \<open>Scan stops at the first value it cannot copy.\<close>

fun copy_values :: "(string \<times> (bdg_err + bytes)) list \<Rightarrow> bdg_err + (string \<times> bytes) list" where
  "copy_values [] = Inr []"
| "copy_values ((k, r) # items) = (case r of Inl e \<Rightarrow> Inl e
     | Inr v \<Rightarrow> (case copy_values items of Inl e \<Rightarrow> Inl e | Inr kvs \<Rightarrow> Inr ((k, v) # kvs)))"

definition db_scan :: "'s badger \<Rightarrow> 's \<Rightarrow> time \<Rightarrow> string \<Rightarrow> err + (string \<times> bytes) list" where
  "db_scan B s t prefix = (case lift_bdg (bdg_iter B s t) of
     Inl e \<Rightarrow> Inl e
   | Inr items \<Rightarrow> lift_bdg (copy_values (while_prefix prefix (seek prefix items))))"

fun direct_loop :: "string \<Rightarrow> (string \<Rightarrow> bool) \<Rightarrow> string list \<Rightarrow> string list" where
  "direct_loop prefix seen [] = []"
| "direct_loop prefix seen (k # ks) =
     (let rest = trim_prefix k prefix;
          parts = split_n rest (CHR ''/'') 2;
          child = prefix @ hd parts @ (if 1 < length parts then ''/'' else []) in
      if seen child then direct_loop prefix seen ks
      else child # direct_loop prefix (seen(child := True)) ks)"

definition db_list_direct :: "'s badger \<Rightarrow> 's \<Rightarrow> time \<Rightarrow> string \<Rightarrow> err + string list" where
  "db_list_direct B s t prefix =
     (let prefix = (if has_suffix prefix ''/'' then prefix else prefix @ ''/'') in
      case db_list B s t prefix of
        Inl e \<Rightarrow> Inl e
      | Inr keys \<Rightarrow> Inr (direct_loop prefix (\<lambda>_. False) keys))"

section \<open>The contract of the store\<close>

text \<open>
  What the secret stores and the authenticators are written against: reads see the contents,
  a successful update changes one key, an error leaves the store as it was (the caller keeps
  the old state), and List enumerates the visible keys under a prefix in order.
\<close>

locale kvdb =
  fixes get :: "'s \<Rightarrow> time \<Rightarrow> string \<Rightarrow> err + bytes"
    and set_key :: "'s \<Rightarrow> time \<Rightarrow> string \<Rightarrow> bytes \<Rightarrow> err + 's"
    and set_ttl :: "'s \<Rightarrow> time \<Rightarrow> string \<Rightarrow> bytes \<Rightarrow> duration \<Rightarrow> err + 's"
    and del :: "'s \<Rightarrow> time \<Rightarrow> string \<Rightarrow> err + 's"
    and list_keys :: "'s \<Rightarrow> time \<Rightarrow> string \<Rightarrow> err + string list"
    and E :: "'s \<Rightarrow> contents"
  assumes get_visible: "k \<noteq> [] \<Longrightarrow> get s t k =
      (case visible (E s) t k of None \<Rightarrow> Inl ErrNotFound | Some v \<Rightarrow> Inr v)"
    and set_key_E: "set_key s t k v = Inr s' \<Longrightarrow> E s' = (E s)(k \<mapsto> (v, None))"
    and set_ttl_E: "set_ttl s t k v d = Inr s' \<Longrightarrow>
        \<exists>e. t + d - second < e \<and> e \<le> t + d \<and> E s' = (E s)(k \<mapsto> (v, Some e))"
    and del_E: "del s t k = Inr s' \<Longrightarrow> E s' = (E s)(k := None)"
    and list_keys_E: "\<exists>ks. list_keys s t p = Inr ks \<and> sorted_wrt (<) ks \<and>
        set ks = {k. has_prefix k p \<and> visible (E s) t k \<noteq> None}"
begin

lemma get_after_set: "k \<noteq> [] \<Longrightarrow> set_key s t k v = Inr s' \<Longrightarrow> get s' t' k = Inr v"
  by (simp add: get_visible set_key_E)

lemma get_after_other:
  assumes "k' \<noteq> []" "k' \<noteq> k" "E s' = (E s)(k := x)"
  shows "get s' t k' = get s t k'"
  using assms by (simp add: get_visible)

lemma get_after_set_other:
  "k' \<noteq> [] \<Longrightarrow> k' \<noteq> k \<Longrightarrow> set_key s t k v = Inr s' \<Longrightarrow> get s' t' k' = get s t' k'"
  using get_after_other set_key_E by blast

lemma get_after_del: "k \<noteq> [] \<Longrightarrow> del s t k = Inr s' \<Longrightarrow> get s' t' k = Inl ErrNotFound"
  by (simp add: get_visible del_E)

lemma get_after_del_other:
  "k' \<noteq> [] \<Longrightarrow> k' \<noteq> k \<Longrightarrow> del s t k = Inr s' \<Longrightarrow> get s' t' k' = get s t' k'"
  using get_after_other del_E by blast

lemma get_after_ttl_other:
  "k' \<noteq> [] \<Longrightarrow> k' \<noteq> k \<Longrightarrow> set_ttl s t k v d = Inr s' \<Longrightarrow> get s' t' k' = get s t' k'"
  using get_after_other set_ttl_E by metis

lemma get_within_ttl:
  assumes "k \<noteq> []" "set_ttl s t k v d = Inr s'" "t' + second \<le> t + d"
  shows "get s' t' k = Inr v"
proof -
  obtain e where "t + d - second < e" "E s' = (E s)(k \<mapsto> (v, Some e))"
    using set_ttl_E[OF assms(2)] by blast
  with assms show ?thesis by (simp add: get_visible visible_def)
qed

lemma get_past_ttl:
  assumes "k \<noteq> []" "set_ttl s t k v d = Inr s'" "t + d \<le> t'"
  shows "get s' t' k = Inl ErrNotFound"
proof -
  obtain e where "e \<le> t + d" "E s' = (E s)(k \<mapsto> (v, Some e))"
    using set_ttl_E[OF assms(2)] by blast
  with assms show ?thesis by (simp add: get_visible visible_def)
qed

lemma get_untimed:
  "k \<noteq> [] \<Longrightarrow> untimed (E s) p \<Longrightarrow> has_prefix k p \<Longrightarrow> get s t k = get s t' k"
  by (simp add: get_visible untimed_visible[of _ p k t t'])

lemma get_error: "k \<noteq> [] \<Longrightarrow> get s t k = Inl e \<Longrightarrow> e = ErrNotFound"
  by (auto simp: get_visible split: option.splits)

lemma list_keys_get:
  assumes "list_keys s t p = Inr ks" "p \<noteq> []"
  shows "k \<in> set ks \<longleftrightarrow> has_prefix k p \<and> (\<exists>v. get s t k = Inr v)"
proof -
  have "has_prefix k p \<Longrightarrow> k \<noteq> []" using assms(2) by (auto simp: has_prefix_iff)
  with assms list_keys_E[of s t p] show ?thesis
    by (auto simp: get_visible split: option.splits)
qed

end

section \<open>The store meets its contract\<close>

lemma le_prefix_block:
  "p \<le> k \<Longrightarrow> k \<le> k' \<Longrightarrow> has_prefix k' p \<Longrightarrow> has_prefix k (p :: string)"
proof (induction p arbitrary: k k')
  case (Cons a p)
  obtain r where k': "k' = a # p @ r" using Cons.prems(3) by (auto simp: has_prefix_iff)
  obtain b ks where k: "k = b # ks" using Cons.prems(1) by (cases k) auto
  have "a = b" and "p \<le> ks" and "ks \<le> p @ r"
    using Cons.prems(1,2) k k' by (auto simp: Cons_le_Cons)
  with Cons.IH[of ks "p @ r"] k show ?case by (simp add: has_prefix_Cons)
qed simp

lemma has_prefix_le: "has_prefix k p \<Longrightarrow> p \<le> (k :: string)"
proof (induction p arbitrary: k)
  case (Cons a p)
  then show ?case by (cases k) (auto simp: has_prefix_Cons Cons_le_Cons)
qed simp

lemma while_prefix_sorted:
  assumes "sorted_wrt (<) (map fst items)" "\<forall>k\<in>set (map fst items). p \<le> k"
  shows "while_prefix p items = filter (\<lambda>(k, v). has_prefix k p) items"
  using assms
proof (induction items)
  case (Cons kv items)
  obtain k v where kv: "kv = (k, v)" by (cases kv)
  show ?case
  proof (cases "has_prefix k p")
    case True
    with Cons kv show ?thesis by simp
  next
    case False
    have "\<not> has_prefix k' p" if "(k', v') \<in> set items" for k' v'
      using that False Cons.prems kv le_prefix_block[of p k k'] by fastforce
    then have "filter (\<lambda>(k, v). has_prefix k p) items = []" by (auto simp: filter_empty_conv)
    then show ?thesis using False kv by simp
  qed
qed simp

lemma seek_sorted:
  assumes "sorted_wrt (<) (map fst items)"
  shows "while_prefix p (seek p items) = filter (\<lambda>(k, v). has_prefix k p) items"
  using assms
proof (induction items)
  case (Cons kv items)
  obtain k v where kv: "kv = (k, v)" by (cases kv)
  show ?case
  proof (cases "k < p")
    case True
    then have "\<not> has_prefix k p" using has_prefix_le by fastforce
    with True Cons kv show ?thesis by simp
  next
    case False
    then have "\<forall>x\<in>set (map fst (kv # items)). p \<le> x" using Cons.prems kv by fastforce
    with False while_prefix_sorted[OF Cons.prems] kv show ?thesis by simp
  qed
qed simp

context badger_laws
begin

lemma db_get_visible: "k \<noteq> [] \<Longrightarrow> db_get B s t k =
    (case visible (E s) t k of None \<Rightarrow> Inl ErrNotFound | Some v \<Rightarrow> Inr v)"
  by (auto simp: db_get_def bdg_get split: option.splits)

lemma db_list_prefix:
  "\<exists>ks. db_list B s t p = Inr ks \<and> sorted_wrt (<) ks \<and>
     set ks = {k. has_prefix k p \<and> visible (E s) t k \<noteq> None}"
proof -
  obtain items where i: "bdg_iter B s t = Inr items" "sorted_wrt (<) (map fst items)"
      "\<And>k. map_of items k = map_option Inr (visible (E s) t k)"
    using bdg_iter by blast
  let ?ks = "map fst (filter (\<lambda>(k, v). has_prefix k p) items)"
  have "db_list B s t p = Inr ?ks"
    by (simp add: db_list_def lift_bdg_def i(1) seek_sorted[OF i(2)])
  moreover have "sorted_wrt (<) ?ks" using i(2) by (simp add: sorted_wrt_map sorted_wrt_filter)
  moreover have v: "k \<in> fst ` set items \<longleftrightarrow> visible (E s) t k \<noteq> None" for k
    using i(3)[of k] by (metis map_of_eq_None_iff option.map_disc_iff)
  have "set ?ks = {k \<in> fst ` set items. has_prefix k p}" by force
  then have "set ?ks = {k. has_prefix k p \<and> visible (E s) t k \<noteq> None}"
    by (simp only: v conj_commute)
  ultimately show ?thesis by blast
qed

end

sublocale badger_laws \<subseteq> db: kvdb "db_get B" "db_set B" "db_set_with_ttl B" "db_delete B" "db_list B" E
proof
  show "k \<noteq> [] \<Longrightarrow> db_get B s t k = (case visible (E s) t k of None \<Rightarrow> Inl ErrNotFound | Some v \<Rightarrow> Inr v)"
    for s t k by (rule db_get_visible)
  show "db_set B s t k v = Inr s' \<Longrightarrow> E s' = (E s)(k \<mapsto> (v, None))" for s t k v s'
    using bdg_set by (auto simp: db_set_def lift_bdg_def split: sum.splits)
  show "db_set_with_ttl B s t k v d = Inr s' \<Longrightarrow>
      \<exists>e. t + d - second < e \<and> e \<le> t + d \<and> E s' = (E s)(k \<mapsto> (v, Some e))" for s t k v d s'
    using bdg_set_ttl by (auto simp: db_set_with_ttl_def lift_bdg_def split: sum.splits)
  show "db_delete B s t k = Inr s' \<Longrightarrow> E s' = (E s)(k := None)" for s t k s'
    using bdg_delete by (auto simp: db_delete_def lift_bdg_def split: sum.splits)
  show "\<exists>ks. db_list B s t p = Inr ks \<and> sorted_wrt (<) ks \<and>
      set ks = {k. has_prefix k p \<and> visible (E s) t k \<noteq> None}" for s t p
    by (rule db_list_prefix)
qed

end
