(* ===== verification/Demo_Externals.thy ===== *)
theory Demo_Externals
  imports Storage_DB
begin

text \<open>
  A concrete database and concrete primitives that meet the laws of \<open>Externals\<close>, for the
  witnesses: the hypotheses of the theorems can hold together, and the models of the
  operations compute on them. The database is an association list, the cipher appends a tag
  made of the key, the hashes cut their input to length.
\<close>

section \<open>An association list as a database\<close>

type_synonym mem = "(string \<times> (bytes \<times> time option)) list"

definition mem_keys :: "mem \<Rightarrow> string list" where
  "mem_keys s = sort (remdups (map fst s))"

definition mem_iter :: "mem \<Rightarrow> time \<Rightarrow> (bytes \<times> (bdg_err + bytes)) list" where
  "mem_iter s t = concat (map (\<lambda>k. case visible (map_of s) t k of None \<Rightarrow> []
     | Some v \<Rightarrow> [(k, Inr v)]) (mem_keys s))"

definition mem_badger :: "mem badger" where
  "mem_badger = \<lparr>
     bdg_get = (\<lambda>s t k. case visible (map_of s) t k of None \<Rightarrow> Inl KeyNotFound | Some v \<Rightarrow> Inr v),
     bdg_set = (\<lambda>s t k v. if k = [] then Inl (BdgErr ''Key cannot be empty'')
                           else Inr ((k, (v, None)) # s)),
     bdg_set_ttl = (\<lambda>s t k v d. Inr ((k, (v, Some (t + d))) # s)),
     bdg_delete = (\<lambda>s t k. Inr (filter (\<lambda>(k', _). k' \<noteq> k) s)),
     bdg_iter = (\<lambda>s t. Inr (mem_iter s t))\<rparr>"

lemma mem_iter_keys:
  "map fst (mem_iter s t) = filter (\<lambda>k. visible (map_of s) t k \<noteq> None) (mem_keys s)"
proof -
  have "map fst (concat (map (\<lambda>k. case f k of None \<Rightarrow> [] | Some v \<Rightarrow> [(k, Inr v)]) ks))
      = filter (\<lambda>k. f k \<noteq> None) ks" for f :: "string \<Rightarrow> bytes option" and ks
    by (induction ks) (auto split: option.splits)
  then show ?thesis by (simp add: mem_iter_def)
qed

lemma map_of_mem_iter: "map_of (mem_iter s t) k = map_option Inr (visible (map_of s) t k)"
proof -
  have m: "map_of (concat (map (\<lambda>k. case f k of None \<Rightarrow> [] | Some v \<Rightarrow> [(k, Inr v)]) ks)) k
      = (if k \<in> set ks then map_option Inr (f k) else None)" for f :: "string \<Rightarrow> bytes option" and ks
    by (induction ks) (auto split: option.splits)
  have "k \<notin> set (mem_keys s) \<Longrightarrow> visible (map_of s) t k = None"
    by (auto simp: mem_keys_def visible_def map_of_eq_None_iff[THEN iffD2])
  then show ?thesis by (simp add: mem_iter_def m)
qed

lemma sorted_mem_iter: "sorted_wrt (<) (map fst (mem_iter s t))"
proof -
  have "sorted_wrt (<) (mem_keys s)"
    by (simp add: mem_keys_def strict_sorted_iff)
  then show ?thesis by (simp add: mem_iter_keys sorted_wrt_filter)
qed

lemma map_of_filter_neq: "map_of (filter (\<lambda>(k', _). k' \<noteq> k) s) = (map_of s)(k := None)"
  by (induction s) auto

interpretation mem: badger_laws mem_badger map_of
proof
  show "bdg_delete mem_badger s t k = Inr s' \<Longrightarrow> map_of s' = (map_of s)(k := None)" for s t k s'
    by (auto simp: mem_badger_def map_of_filter_neq)
  show "\<exists>items. bdg_iter mem_badger s t = Inr items \<and> sorted_wrt (<) (map fst items) \<and>
      (\<forall>k. map_of items k = map_option Inr (visible (map_of s) t k))" for s t
    by (simp add: mem_badger_def sorted_mem_iter map_of_mem_iter)
  show "bdg_set_ttl mem_badger s t k v d = Inr s' \<Longrightarrow>
      \<exists>e. t + d - second < e \<and> e \<le> t + d \<and> map_of s' = (map_of s)(k \<mapsto> (v, Some e))" for s t k v d s'
    by (intro exI[of _ "t + d"]) (auto simp: mem_badger_def second_def)
qed (auto simp: mem_badger_def split: if_splits)

lemmas mem_laws = mem.badger_laws_axioms

section \<open>Primitives\<close>

definition demo_open :: "bytes \<Rightarrow> bytes \<Rightarrow> bytes \<Rightarrow> bytes option" where
  "demo_open key nonce ct =
     (if 16 \<le> length ct \<and> drop (length ct - 16) ct = fill 16 key
      then Some (take (length ct - 16) ct) else None)"

definition demo_time_parse :: "string \<Rightarrow> time option" where
  "demo_time_parse s = (let (neg, ds) = split_sign s; v = int (digits_value ds) in
     Some (if neg then - v else v))"

definition demo_prims :: prims where
  "demo_prims = \<lparr>
     argon2_idkey = (\<lambda>pw salt. fill 32 (pw @ salt)),
     hkdf_sha256 = (\<lambda>mk info. Some (fill 32 (mk @ info))),
     gcm_seal = (\<lambda>key nonce pt. pt @ fill 16 key),
     gcm_open = demo_open,
     sha256 = fill 32,
     hmac_sha1 = (\<lambda>key msg. fill 20 (key @ msg)),
     ed25519_verify = (\<lambda>pk msg sig. sig = fill 64 (pk @ msg)),
     time_format = itoa,
     time_parse = demo_time_parse\<rparr>"

lemma demo_time_parse_itoa [simp]: "demo_time_parse (itoa t) = Some t"
  by (auto simp: demo_time_parse_def itoa_def split_sign_nat_digits) (simp add: split_sign_def)

interpretation demo: prims_laws demo_prims
  by unfold_locales (simp_all add: demo_prims_def demo_open_def)

lemmas demo_laws = demo.prims_laws_axioms

text \<open>A tape that draws constant bytes.\<close>

definition demo_rng :: rng where
  "demo_rng = (\<lambda>i. Some [char_of (65 + i)])"

end
