(* ===== verification/Storage_Crypto.thy ===== *)
theory Storage_Crypto
  imports Demo_Externals
begin

unbundle bit_operations_syntax

text \<open>
  internal/storage/crypto.go: AES-GCM records under keys derived per path, the Argon2id
  hashes of passwords and tokens, the constant-time comparison, and the master key file.
\<close>

section \<open>AES-GCM\<close>

definition nonce_len :: nat where
  "nonce_len = 12"

definition salt_len :: nat where
  "salt_len = 32"

definition master_key_len :: nat where
  "master_key_len = 32"

text \<open>aes.NewCipher takes keys of 16, 24 or 32 bytes; GCM's Open panics on another nonce size.\<close>

definition aes_key_ok :: "bytes \<Rightarrow> bool" where
  "aes_key_ok key \<longleftrightarrow> length key = 16 \<or> length key = 24 \<or> length key = 32"

definition aesgcm_encrypt :: "prims \<Rightarrow> rng \<Rightarrow> nat \<Rightarrow> bytes \<Rightarrow> bytes \<Rightarrow> err + bytes \<times> bytes" where
  "aesgcm_encrypt P rng i key plaintext =
     (if \<not> aes_key_ok key then Inl ErrCipherKey
      else (case rand_read rng i nonce_len of
        Inl e \<Rightarrow> Inl e
      | Inr nonce \<Rightarrow> Inr (gcm_seal P key nonce plaintext, nonce)))"

definition aesgcm_decrypt :: "prims \<Rightarrow> bytes \<Rightarrow> bytes \<Rightarrow> bytes \<Rightarrow> (err + bytes) outcome" where
  "aesgcm_decrypt P key ciphertext nonce =
     (if \<not> aes_key_ok key then Done (Inl ErrCipherKey)
      else if length nonce \<noteq> nonce_len then Panic ''crypto/cipher: incorrect nonce length given to GCM''
      else Done (case gcm_open P key nonce ciphertext of
        None \<Rightarrow> Inl ErrCipherOpen | Some pt \<Rightarrow> Inr pt))"

section \<open>Records under derived keys\<close>

record crypto =
  masterKey :: bytes

definition generate_master_key :: "rng \<Rightarrow> nat \<Rightarrow> err + bytes" where
  "generate_master_key rng i = rand_read rng i master_key_len"

definition derive_key :: "prims \<Rightarrow> crypto \<Rightarrow> string \<Rightarrow> err + bytes" where
  "derive_key P c path = (case hkdf_sha256 P (masterKey c) path of
     None \<Rightarrow> Inl ErrHkdf | Some key \<Rightarrow> Inr key)"

text \<open>The output is the nonce and then the sealed text.\<close>

definition crypto_encrypt :: "prims \<Rightarrow> crypto \<Rightarrow> rng \<Rightarrow> nat \<Rightarrow> string \<Rightarrow> bytes \<Rightarrow> err + bytes" where
  "crypto_encrypt P c rng i path plaintext = (case derive_key P c path of
     Inl e \<Rightarrow> Inl e
   | Inr key \<Rightarrow> (case aesgcm_encrypt P rng i key plaintext of
        Inl e \<Rightarrow> Inl e
      | Inr (ciphertext, nonce) \<Rightarrow> Inr (nonce @ ciphertext)))"

text \<open>
  The nonce handed to Open is the first 12 bytes of data that is at least that long, so the
  panic of Open is out of reach here (\<open>decrypt_nonce_ok\<close>); \<open>no_panic\<close> drops that case.
\<close>

definition no_panic :: "(err + 'a) outcome \<Rightarrow> err + 'a" where
  "no_panic r = (case r of Done x \<Rightarrow> x | Panic _ \<Rightarrow> Inl ErrCipherOpen)"

definition crypto_decrypt :: "prims \<Rightarrow> crypto \<Rightarrow> string \<Rightarrow> bytes \<Rightarrow> err + bytes" where
  "crypto_decrypt P c path data =
     (if length data < nonce_len then Inl ErrCiphertextTooShort
      else (case derive_key P c path of
        Inl e \<Rightarrow> Inl e
      | Inr key \<Rightarrow> no_panic (aesgcm_decrypt P key (drop nonce_len data) (take nonce_len data))))"

lemma decrypt_nonce_ok:
  "\<not> length data < nonce_len \<Longrightarrow>
   \<exists>r. aesgcm_decrypt P key (drop nonce_len data) (take nonce_len data) = Done r"
  by (simp add: aesgcm_decrypt_def)

text \<open>The contract of a record cipher: what was encrypted for a path decrypts for that path.\<close>

locale cipher =
  fixes enc :: "rng \<Rightarrow> nat \<Rightarrow> string \<Rightarrow> bytes \<Rightarrow> err + bytes"
    and dec :: "string \<Rightarrow> bytes \<Rightarrow> err + bytes"
  assumes dec_enc: "enc rng i path pt = Inr data \<Longrightarrow> dec path data = Inr pt"
    and enc_errors: "enc rng i path pt = Inl e \<Longrightarrow> rng i = None \<and> e = ErrRand"
begin

lemma enc_total: "rng i = Some bs \<Longrightarrow> \<exists>data. enc rng i path pt = Inr data"
  using enc_errors[of rng i path pt] by (cases "enc rng i path pt") auto

end

locale keyed = prims_laws P for P :: prims +
  fixes c :: crypto
begin

lemma derive_key_length: "\<exists>key. derive_key P c path = Inr key \<and> length key = 32"
  using hkdf_total[of "masterKey c" path] by (auto simp: derive_key_def)

end

sublocale keyed \<subseteq> cr: cipher "crypto_encrypt P c" "crypto_decrypt P c"
proof
  fix rng i path pt data
  obtain key where k: "derive_key P c path = Inr key" "length key = 32"
    using derive_key_length by blast
  show "crypto_encrypt P c rng i path pt = Inr data \<Longrightarrow> crypto_decrypt P c path data = Inr pt"
    using k gcm_round_trip[of key] rand_read_length[of rng i nonce_len]
    by (auto simp: crypto_encrypt_def crypto_decrypt_def aesgcm_encrypt_def aesgcm_decrypt_def
        no_panic_def nonce_len_def split: sum.splits if_splits)
  show "crypto_encrypt P c rng i path pt = Inl e \<Longrightarrow> rng i = None \<and> e = ErrRand" for e
    using k
    by (auto simp: crypto_encrypt_def aesgcm_encrypt_def aes_key_ok_def rand_read_def
        split: sum.splits if_splits option.splits)
qed

context keyed
begin

lemma crypto_round_trip:
  "crypto_encrypt P c rng i path pt = Inr data \<Longrightarrow> crypto_decrypt P c path data = Inr pt"
  by (rule cr.dec_enc)

lemma crypto_encrypt_errors: "crypto_encrypt P c rng i path pt = Inl e \<Longrightarrow> e = ErrRand"
  using cr.enc_errors by blast

end

interpretation demo_keyed: keyed demo_prims "\<lparr>masterKey = ''master''\<rparr>"
  by unfold_locales

section \<open>Constant-time comparison\<close>

fun xor_diff :: "byte \<Rightarrow> bytes \<Rightarrow> bytes \<Rightarrow> byte" where
  "xor_diff diff (a # as) (b # bs) = xor_diff (diff OR (of_char a XOR of_char b)) as bs"
| "xor_diff diff _ _ = diff"

definition subtle32_equal :: "bytes \<Rightarrow> bytes \<Rightarrow> bool" where
  "subtle32_equal a b = (if length a \<noteq> length b then False else xor_diff 0 a b = 0)"

lemma of_char_word_inject: "(of_char a :: byte) = of_char b \<longleftrightarrow> a = b"
proof
  assume "(of_char a :: byte) = of_char b"
  then have "(of_nat (of_char a) :: byte) = of_nat (of_char b)" by (simp only: of_nat_of_char)
  then have "(of_char a :: nat) mod 256 = of_char b mod 256"
    by (simp add: word_of_nat_eq_iff take_bit_eq_mod)
  then show "a = b" by simp
qed simp

lemma xor_diff_zero:
  "length as = length bs \<Longrightarrow> xor_diff d as bs = 0 \<longleftrightarrow> d = 0 \<and> as = bs"
proof (induction as bs arbitrary: d rule: list_induct2)
  case (Cons a as b bs)
  have "d OR (of_char a XOR of_char b) = 0 \<longleftrightarrow> d = 0 \<and> (of_char a :: byte) = of_char b"
    by (metis or_eq_0_iff xor_self_eq bit.xor_left_self or.left_neutral xor.right_neutral)
  with Cons show ?case by (auto simp: of_char_word_inject)
qed simp

lemma subtle32_equal_eq: "subtle32_equal a b \<longleftrightarrow> a = b"
  by (auto simp: subtle32_equal_def xor_diff_zero)

text \<open>ZeroBytes overwrites every byte of a buffer.\<close>

definition zero_bytes :: "bytes \<Rightarrow> bytes" where
  "zero_bytes b = map (\<lambda>_. CHR 0x00) b"

section \<open>Argon2id hashes\<close>

text \<open>A stored hash is the salt and then the hash.\<close>

definition hash_argon2id :: "prims \<Rightarrow> rng \<Rightarrow> nat \<Rightarrow> bytes \<Rightarrow> err + bytes" where
  "hash_argon2id P rng i password = (case rand_read rng i salt_len of
     Inl e \<Rightarrow> Inl e
   | Inr salt \<Rightarrow> Inr (salt @ fill master_key_len (argon2_idkey P password salt)))"

definition verify_argon2id :: "prims \<Rightarrow> bytes \<Rightarrow> bytes \<Rightarrow> bool" where
  "verify_argon2id P password stored =
     (if length stored < salt_len + master_key_len then False
      else subtle32_equal (argon2_idkey P password (take salt_len stored)) (drop salt_len stored))"

section \<open>The master key file\<close>

record master_key_file =
  mkf_salt :: bytes
  mkf_nonce :: bytes
  mkf_ciphertext :: bytes

definition enc_mkf :: "master_key_file \<Rightarrow> json option" where
  "enc_mkf f = Some (JObj [(''salt'', enc_bytes (mkf_salt f)), (''nonce'', enc_bytes (mkf_nonce f)),
     (''ciphertext'', enc_bytes (mkf_ciphertext f))])"

definition dec_mkf :: "json \<Rightarrow> master_key_file option" where
  "dec_mkf j = (case members j of None \<Rightarrow> None | Some ms \<Rightarrow>
     (case (obj_get ''salt'' dec_bytes [] ms, obj_get ''nonce'' dec_bytes [] ms,
            obj_get ''ciphertext'' dec_bytes [] ms) of
        (Some salt, Some nonce, Some ct) \<Rightarrow>
          Some \<lparr>mkf_salt = salt, mkf_nonce = nonce, mkf_ciphertext = ct\<rparr>
      | _ \<Rightarrow> None))"

text \<open>SaveMasterKey: the bytes it hands to os.WriteFile (draw i is the salt, i+1 the nonce).\<close>

definition save_master_key :: "prims \<Rightarrow> rng \<Rightarrow> nat \<Rightarrow> bytes \<Rightarrow> bytes \<Rightarrow> err + bytes" where
  "save_master_key P rng i master passphrase = (case rand_read rng i salt_len of
     Inl e \<Rightarrow> Inl e
   | Inr salt \<Rightarrow>
      (let derived = argon2_idkey P passphrase salt in
       case aesgcm_encrypt P rng (i + 1) derived master of
         Inl e \<Rightarrow> Inl e
       | Inr (ciphertext, nonce) \<Rightarrow>
           json_marshal enc_mkf \<lparr>mkf_salt = salt, mkf_nonce = nonce, mkf_ciphertext = ciphertext\<rparr>))"

text \<open>LoadMasterKey: the file's bytes, or None when os.ReadFile fails.\<close>

definition load_master_key :: "prims \<Rightarrow> bytes option \<Rightarrow> bytes \<Rightarrow> (err + bytes) outcome" where
  "load_master_key P content passphrase = (case content of
     None \<Rightarrow> Done (Inl (ErrFile ''read master key file''))
   | Some data \<Rightarrow> (case json_unmarshal dec_mkf data of
        Inl e \<Rightarrow> Done (Inl (Wrapped ''parse master key file'' e))
      | Inr mkf \<Rightarrow>
         (let derived = argon2_idkey P passphrase (mkf_salt mkf) in
          case aesgcm_decrypt P derived (mkf_ciphertext mkf) (mkf_nonce mkf) of
            Panic m \<Rightarrow> Panic m
          | Done (Inl e) \<Rightarrow> Done (Inl ErrMasterKey)
          | Done (Inr key) \<Rightarrow> Done (Inr key))))"

interpretation mkf: codec enc_mkf dec_mkf "\<lambda>_. True"
  by unfold_locales
    (auto simp: enc_mkf_def dec_mkf_def json_ok_def utf8_ok_all_ascii is_ascii_def max_depth_def)

section \<open>Properties\<close>

lemma keyed_iff: "keyed P \<longleftrightarrow> prims_laws P"
  by (simp add: keyed_def)

lemma hash_argon2id_parts:
  assumes "prims_laws P" "hash_argon2id P rng i password = Inr h"
  shows "length h = salt_len + master_key_len"
    and "drop salt_len h = argon2_idkey P password (take salt_len h)"
  using assms prims_laws.argon2_length[OF assms(1)]
  by (auto simp: hash_argon2id_def salt_len_def master_key_len_def fill_def
      dest: rand_read_length split: sum.splits)

text \<open>
  A record encrypted for a path decrypts for that path to what was encrypted, whatever
  nonce was drawn, and the stored data is never shorter than a nonce.
\<close>

theorem encrypt_decrypt:
  assumes "prims_laws P" and "crypto_encrypt P c rng i path plaintext = Inr data"
  shows "crypto_decrypt P c path data = Inr plaintext \<and> nonce_len \<le> length data"
proof
  show d: "crypto_decrypt P c path data = Inr plaintext"
    using keyed.crypto_round_trip[OF keyed_iff[THEN iffD2, OF assms(1)] assms(2)] .
  show "nonce_len \<le> length data"
    using d by (auto simp: crypto_decrypt_def split: if_splits)
qed

theorem encrypt_decrypt_witness:
  "crypto_encrypt demo_prims \<lparr>masterKey = ''mk''\<rparr> demo_rng 0 ''secrets/kv/a/v1'' ''x'' = Inr (fill 12 ''A'' @ ''x'' @ fill 16 ''mksecrets/kv/a/v1'')
   \<and> crypto_decrypt demo_prims \<lparr>masterKey = ''mk''\<rparr> ''secrets/kv/a/v1''
       (fill 12 ''A'' @ ''x'' @ fill 16 ''mksecrets/kv/a/v1'') = Inr ''x''"
proof -
  have "crypto_encrypt demo_prims \<lparr>masterKey = ''mk''\<rparr> demo_rng 0 ''secrets/kv/a/v1'' ''x''
      = Inr (fill 12 ''A'' @ ''x'' @ fill 16 ''mksecrets/kv/a/v1'')" by code_simp
  with encrypt_decrypt[OF demo_laws this] show ?thesis by blast
qed

text \<open>
  A master key file written by SaveMasterKey loads with the same passphrase and gives the
  same key.
\<close>

theorem save_load_master_key:
  assumes "prims_laws P" and "save_master_key P rng i master passphrase = Inr data"
  shows "load_master_key P (Some data) passphrase = Done (Inr master)"
proof -
  obtain salt ct nonce where
      m: "json_marshal enc_mkf \<lparr>mkf_salt = salt, mkf_nonce = nonce, mkf_ciphertext = ct\<rparr> = Inr data"
    and e: "aesgcm_encrypt P rng (i + 1) (argon2_idkey P passphrase salt) master = Inr (ct, nonce)"
    using assms(2) by (auto simp: save_master_key_def Let_def split: sum.splits)
  have n: "length nonce = 12"
    and ct: "ct = gcm_seal P (argon2_idkey P passphrase salt) nonce master"
    using e by (auto simp: aesgcm_encrypt_def nonce_len_def dest: rand_read_length split: sum.splits if_splits)
  have "gcm_open P (argon2_idkey P passphrase salt) nonce ct = Some master"
    using prims_laws.gcm_round_trip[OF assms(1)] prims_laws.argon2_length[OF assms(1)] n ct by simp
  then show ?thesis
    using mkf.unmarshal_marshal[OF _ m] n prims_laws.argon2_length[OF assms(1)]
    by (simp add: load_master_key_def Let_def aesgcm_decrypt_def aes_key_ok_def nonce_len_def)
qed

theorem save_load_master_key_witness:
  "\<exists>data. save_master_key demo_prims demo_rng 0 ''key'' ''pass'' = Inr data
     \<and> load_master_key demo_prims (Some data) ''pass'' = Done (Inr ''key'')"
proof -
  obtain data where f: "save_master_key demo_prims demo_rng 0 ''key'' ''pass'' = Inr data"
    by (auto simp: save_master_key_def demo_rng_def rand_read_def aesgcm_encrypt_def aes_key_ok_def
        demo_prims_def enc_mkf_def json_marshal_def Let_def)
  with save_load_master_key[OF demo_laws f] show ?thesis by blast
qed

text \<open>
  A stored hash accepts a password exactly when Argon2id maps it, under the stored salt, to
  the same 32 bytes as the password the hash was made from; in particular it accepts that
  password, and anything shorter than salt and hash accepts nothing.
\<close>

theorem verify_argon2id_iff:
  assumes "prims_laws P" and "hash_argon2id P rng i password = Inr h"
  shows "(verify_argon2id P attempt h \<longleftrightarrow>
      argon2_idkey P attempt (take salt_len h) = argon2_idkey P password (take salt_len h))
    \<and> verify_argon2id P password h
    \<and> (n < salt_len + master_key_len \<longrightarrow> \<not> verify_argon2id P attempt (take n h))"
  using hash_argon2id_parts[OF assms]
  by (auto simp: verify_argon2id_def subtle32_equal_eq)

theorem verify_argon2id_iff_witness:
  "\<exists>h. hash_argon2id demo_prims demo_rng 0 ''hunter2'' = Inr h
     \<and> verify_argon2id demo_prims ''hunter2'' h \<and> \<not> verify_argon2id demo_prims ''letmein'' h"
proof -
  let ?h = "fill 32 ''A'' @ fill 32 (''hunter2'' @ fill 32 ''A'')"
  have h: "hash_argon2id demo_prims demo_rng 0 ''hunter2'' = Inr ?h" by code_simp
  have n: "argon2_idkey demo_prims ''letmein'' (take salt_len ?h)
      \<noteq> argon2_idkey demo_prims ''hunter2'' (take salt_len ?h)" by code_simp
  show ?thesis using verify_argon2id_iff[OF demo_laws h, of "''letmein''"] h n by blast
qed

text \<open>
  The comparison that folds the XOR of all bytes into one decides equality, for buffers of
  any lengths.
\<close>

theorem subtle32_equal_iff: "subtle32_equal a b \<longleftrightarrow> a = b"
  by (rule subtle32_equal_eq)

text \<open>
  A key file whose nonce does not have 12 bytes makes LoadMasterKey panic, although the
  function reports every other corruption of the file as an error value: whatever the salt
  and the ciphertext are, a file that encodes such a record panics.
\<close>

theorem load_master_key_nonce_panic:
  assumes "prims_laws P" and "json_marshal enc_mkf f = Inr data" and "length (mkf_nonce f) \<noteq> 12"
  shows "\<exists>m. load_master_key P (Some data) passphrase = Panic m"
  using mkf.unmarshal_marshal[OF _ assms(2)] assms(3) prims_laws.argon2_length[OF assms(1)]
  by (simp add: load_master_key_def Let_def aesgcm_decrypt_def aes_key_ok_def nonce_len_def)

theorem load_master_key_nonce_panic_witness:
  "\<exists>data m. json_marshal enc_mkf \<lparr>mkf_salt = ''s'', mkf_nonce = ''n'', mkf_ciphertext = ''c''\<rparr> = Inr data
     \<and> load_master_key demo_prims (Some data) ''pass'' = Panic m"
proof -
  obtain data where "json_marshal enc_mkf \<lparr>mkf_salt = ''s'', mkf_nonce = ''n'', mkf_ciphertext = ''c''\<rparr> = Inr data"
    by (simp add: json_marshal_def enc_mkf_def)
  with load_master_key_nonce_panic[OF demo_laws this, of "''pass''"] show ?thesis by auto
qed

end
