(* ===== verification/Storage_Props.thy ===== *)
theory Storage_Props
  imports Storage_Crypto
begin

text \<open>
  The properties of the store as statements over any database that meets the laws of
  \<open>Externals\<close>: reads after updates, expiry, and the two listings.
\<close>

section \<open>One level of a listing\<close>

text \<open>
  The child of a prefix on the way to a key: the next segment, with a slash when the key goes
  on below it.
\<close>

definition child_of :: "string \<Rightarrow> string \<Rightarrow> string" where
  "child_of p k = (let rest = drop (length p) k in
     p @ takeWhile (\<lambda>x. x \<noteq> CHR ''/'') rest @ (if CHR ''/'' \<in> set rest then ''/'' else []))"

definition slashed :: "string \<Rightarrow> string" where
  "slashed p = (if has_suffix p ''/'' then p else p @ ''/'')"

lemma split_n_two:
  "split_n s c 2 = (if c \<in> set s
     then [takeWhile (\<lambda>x. x \<noteq> c) s, tl (dropWhile (\<lambda>x. x \<noteq> c) s)] else [s])"
proof (cases "c \<in> set s")
  case True
  then have "dropWhile (\<lambda>x. x \<noteq> c) s \<noteq> []" by (auto simp: dropWhile_eq_Nil_conv)
  then obtain d r where "dropWhile (\<lambda>x. x \<noteq> c) s = d # r" by (cases "dropWhile (\<lambda>x. x \<noteq> c) s") auto
  with True show ?thesis by (simp add: numeral_2_eq_2)
next
  case False
  then show ?thesis by (simp add: numeral_2_eq_2 split_n_absent del: split_n.simps)
qed

lemma takeWhile_absent: "c \<notin> set s \<Longrightarrow> takeWhile (\<lambda>x. x \<noteq> c) s = s"
  by (auto simp: takeWhile_eq_all_conv)

lemma direct_loop_child:
  assumes "has_prefix k p"
  shows "(let rest = trim_prefix k p; parts = split_n rest (CHR ''/'') 2
          in p @ hd parts @ (if 1 < length parts then ''/'' else [])) = child_of p k"
  using assms by (auto simp: Let_def split_n_two child_of_def takeWhile_absent has_prefix_iff)

lemma direct_loop_Cons:
  "has_prefix k p \<Longrightarrow> direct_loop p seen (k # ks) =
     (if seen (child_of p k) then direct_loop p seen ks
      else child_of p k # direct_loop p (seen(child_of p k := True)) ks)"
  using direct_loop_child[of k p] by (simp add: Let_def del: split_n.simps)

lemma direct_loop_spec:
  assumes "\<forall>k\<in>set ks. has_prefix k p"
  shows "distinct (direct_loop p seen ks) \<and>
     set (direct_loop p seen ks) = {c \<in> child_of p ` set ks. \<not> seen c}"
  using assms
proof (induction ks arbitrary: seen)
  case (Cons k ks)
  define seen' where "seen' = seen(child_of p k := True)"
  have s: "seen' c \<longleftrightarrow> seen c \<or> c = child_of p k" for c by (simp add: seen'_def)
  have l: "direct_loop p seen (k # ks) = (if seen (child_of p k) then direct_loop p seen ks
      else child_of p k # direct_loop p seen' ks)"
    unfolding seen'_def using Cons.prems by (intro direct_loop_Cons) simp
  define xs where "xs = direct_loop p seen ks"
  define ys where "ys = direct_loop p seen' ks"
  have ps: "\<forall>k\<in>set ks. has_prefix k p" using Cons.prems by simp
  have xs: "distinct xs" "set xs = {c \<in> child_of p ` set ks. \<not> seen c}"
    using Cons.IH[OF ps, of seen] unfolding xs_def by blast+
  have ys: "distinct ys" "set ys = {c \<in> child_of p ` set ks. \<not> seen' c}"
    using Cons.IH[OF ps, of seen'] unfolding ys_def by blast+
  show ?case unfolding l xs_def[symmetric] ys_def[symmetric] using xs ys by (auto simp: s)
qed simp

section \<open>Lemmas of the store\<close>

context badger_laws
begin

lemma read_after_write:
  assumes "k \<noteq> []" "k' \<noteq> []" "k' \<noteq> k"
  shows "(\<forall>s'. db_set B s t k v = Inr s' \<longrightarrow>
        db_get B s' t' k = Inr v \<and> db_get B s' t' k' = db_get B s t' k')
    \<and> (\<forall>s'. db_delete B s t k = Inr s' \<longrightarrow>
        db_get B s' t' k = Inl ErrNotFound \<and> db_get B s' t' k' = db_get B s t' k')"
  using db.get_after_set[OF assms(1)] db.get_after_set_other[OF assms(2,3)]
    db.get_after_del[OF assms(1)] db.get_after_del_other[OF assms(2,3)]
  by (intro conjI allI impI)

lemma read_after_ttl:
  assumes "k \<noteq> []" "db_set_with_ttl B s t k v ttl = Inr s'"
  shows "(t' + second \<le> t + ttl \<longrightarrow> db_get B s' t' k = Inr v)
    \<and> (t + ttl \<le> t' \<longrightarrow> db_get B s' t' k = Inl ErrNotFound)"
  using db.get_within_ttl[OF assms] db.get_past_ttl[OF assms] by (intro conjI impI)

lemma list_direct_children:
  "\<exists>ks. db_list_direct B s t p = Inr ks \<and> distinct ks \<and>
     set ks = child_of (slashed p) ` {k. has_prefix k (slashed p) \<and> visible (E s) t k \<noteq> None}"
proof -
  obtain ks where ks: "db_list B s t (slashed p) = Inr ks"
      "set ks = {k. has_prefix k (slashed p) \<and> visible (E s) t k \<noteq> None}"
    using db_list_prefix by blast
  have "\<forall>k\<in>set ks. has_prefix k (slashed p)" using ks(2) by blast
  then show ?thesis
    using ks direct_loop_spec[of ks "slashed p" "\<lambda>_. False"]
    by (auto simp: db_list_direct_def slashed_def Let_def)
qed

lemma copy_values_ok:
  "\<forall>(k, r)\<in>set items. \<exists>v. r = Inr v \<Longrightarrow>
   \<exists>kvs. copy_values items = Inr kvs \<and> items = map (\<lambda>(k, v). (k, Inr v)) kvs"
proof (induction items)
  case (Cons kr items)
  then obtain kvs where "copy_values items = Inr kvs" "items = map (\<lambda>(k, v). (k, Inr v)) kvs" by auto
  moreover obtain k v where "kr = (k, Inr v)" using Cons.prems by (cases kr) auto
  ultimately show ?case by (auto intro!: exI[of _ "(k, v) # kvs"])
qed simp

lemma scan_pairs:
  "\<exists>kvs. db_scan B s t p = Inr kvs \<and>
     map_of kvs = (\<lambda>k. if has_prefix k p then visible (E s) t k else None)"
proof -
  obtain items where i: "bdg_iter B s t = Inr items" "sorted_wrt (<) (map fst items)"
      "\<And>k. map_of items k = map_option Inr (visible (E s) t k)"
    using bdg_iter by blast
  let ?f = "filter (\<lambda>(k, v). has_prefix k p) items"
  have dist: "distinct (map fst items)" using i(2) by (simp add: strict_sorted_iff)
  have "\<exists>v. r = Inr v" if "(k, r) \<in> set ?f" for k r
    using that i(3)[of k] map_of_is_SomeI[OF dist, of k r] by (cases "visible (E s) t k") auto
  then obtain kvs where c: "copy_values ?f = Inr kvs" "?f = map (\<lambda>(k, v). (k, Inr v)) kvs"
    using copy_values_ok[of ?f] by auto
  have m: "map_of (map (\<lambda>(k, v). (k, Inr v :: bdg_err + bytes)) kvs) k = map_option Inr (map_of kvs k)"
    for k and kvs :: "(string \<times> bytes) list" by (induction kvs) auto
  have f: "map_of (filter (\<lambda>(k, v). Q k) xs) k = (if Q k then map_of xs k else None)"
    for Q k and xs :: "(string \<times> (bdg_err + bytes)) list" by (induction xs) auto
  have "map_of kvs k = (if has_prefix k p then visible (E s) t k else None)" for k
    using m[of kvs k] f[of "\<lambda>k. has_prefix k p" items k] i(3)[of k]
    by (cases "visible (E s) t k"; cases "map_of kvs k") (simp_all add: c(2)[symmetric] split: if_splits)
  moreover have "db_scan B s t p = Inr kvs"
    by (simp add: db_scan_def lift_bdg_def i(1) seek_sorted[OF i(2)] c(1))
  ultimately show ?thesis by blast
qed

end

section \<open>Properties\<close>

text \<open>
  A value that Set has stored is what Get returns at any later time; Delete makes Get
  answer the not-found sentinel; and neither changes what Get answers for another key.
\<close>

theorem db_read_after_write:
  assumes "badger_laws B E" and "k \<noteq> []" and "k' \<noteq> []" and "k' \<noteq> k"
  shows "(\<forall>s'. db_set B s t k v = Inr s' \<longrightarrow>
        db_get B s' t' k = Inr v \<and> db_get B s' t' k' = db_get B s t' k')
    \<and> (\<forall>s'. db_delete B s t k = Inr s' \<longrightarrow>
        db_get B s' t' k = Inl ErrNotFound \<and> db_get B s' t' k' = db_get B s t' k')"
  by (rule badger_laws.read_after_write[OF assms])

theorem db_read_after_write_witness:
  "\<exists>s'. db_set mem_badger [] 0 ''a'' ''x'' = Inr s' \<and> db_get mem_badger s' 5 ''a'' = Inr ''x''"
proof -
  have "db_set mem_badger [] 0 ''a'' ''x'' = Inr [(''a'', ''x'', None)]" by code_simp
  with db_read_after_write[OF mem_laws, of "''a''" "''b''" "[]" 0 "''x''" 5] show ?thesis by simp
qed

text \<open>
  An entry stored with a TTL is readable until one second before its TTL ends and gone
  from the moment it ends.
\<close>

theorem db_ttl:
  assumes "badger_laws B E" and "k \<noteq> []" and "db_set_with_ttl B s t k v ttl = Inr s'"
  shows "(t' + second \<le> t + ttl \<longrightarrow> db_get B s' t' k = Inr v)
    \<and> (t + ttl \<le> t' \<longrightarrow> db_get B s' t' k = Inl ErrNotFound)"
  by (rule badger_laws.read_after_ttl[OF assms])

theorem db_ttl_witness:
  "\<exists>s'. db_set_with_ttl mem_badger [] 0 ''a'' ''x'' hour = Inr s'
     \<and> db_get mem_badger s' minute ''a'' = Inr ''x'' \<and> db_get mem_badger s' hour ''a'' = Inl ErrNotFound"
proof -
  have s: "db_set_with_ttl mem_badger [] 0 ''a'' ''x'' hour = Inr [(''a'', ''x'', Some hour)]" by code_simp
  show ?thesis using db_ttl[OF mem_laws _ s, of minute] db_ttl[OF mem_laws _ s, of hour] s
    by (simp add: minute_def hour_def second_def)
qed

text \<open>
  ListDirect lists, without repetition and whether or not the prefix came with its slash,
  exactly the next path segments on the way to the visible keys below the prefix, a segment
  ending in a slash when it leads on to a deeper key.
\<close>

theorem db_list_direct_children:
  assumes "badger_laws B E"
  shows "\<exists>ks. db_list_direct B s t p = Inr ks \<and> distinct ks \<and>
     set ks = child_of (slashed p) ` {k. has_prefix k (slashed p) \<and> visible (E s) t k \<noteq> None}"
  by (rule badger_laws.list_direct_children[OF assms])

theorem db_list_direct_children_witness:
  "\<exists>ks. db_list_direct mem_badger [(''a/b/c'', ''1'', None), (''a/b/d'', ''2'', None), (''a/e'', ''3'', None)] 0 ''a'' = Inr ks
     \<and> distinct ks \<and> ks = [''a/b/'', ''a/e'']"
proof -
  let ?s = "[(''a/b/c'', ''1'', None), (''a/b/d'', ''2'', None), (''a/e'', ''3'', None)]"
  have "db_list_direct mem_badger ?s 0 ''a'' = Inr [''a/b/'', ''a/e'']" by code_simp
  with db_list_direct_children[OF mem_laws, of ?s 0 "''a''"] show ?thesis by simp
qed

text \<open>
  List and Scan cover exactly the visible keys with the given prefix: List in increasing
  byte order and Scan as the map of their values; neither reports an error.
\<close>

theorem db_list_scan:
  assumes "badger_laws B E"
  shows "(\<exists>ks. db_list B s t p = Inr ks \<and> sorted_wrt (<) ks \<and>
       set ks = {k. has_prefix k p \<and> visible (E s) t k \<noteq> None})
    \<and> (\<exists>kvs. db_scan B s t p = Inr kvs \<and>
       map_of kvs = (\<lambda>k. if has_prefix k p then visible (E s) t k else None))"
  by (intro conjI badger_laws.db_list_prefix[OF assms] badger_laws.scan_pairs[OF assms])

theorem db_list_scan_witness:
  "\<exists>ks. db_list mem_badger [(''b'', ''1'', None), (''a2'', ''2'', None), (''a1'', ''3'', Some 7)] 5 ''a'' = Inr ks
     \<and> sorted_wrt (<) ks \<and> ks = [''a1'', ''a2'']"
proof -
  let ?s = "[(''b'', ''1'', None), (''a2'', ''2'', None), (''a1'', ''3'', Some 7)]"
  have "db_list mem_badger ?s 5 ''a'' = Inr [''a1'', ''a2'']" by code_simp
  with db_list_scan[OF mem_laws, of ?s 5 "''a''"] show ?thesis by simp
qed

end
