(* ===== verification/Records.thy ===== *)
theory Records
  imports Storage_Props
begin

text \<open>
  The way every store of the program keeps a record: the value is marshalled to JSON, sealed
  under the key derived from the record's own database key, and set; it is read back by the
  same steps in reverse. \<open>load_doc\<close> and \<open>save_doc\<close> are those steps, shared by the models of
  the stores; the locale \<open>doc_store\<close> is what the stores rely on.
\<close>

section \<open>Loading and saving\<close>

definition load_doc ::
  "'s badger \<Rightarrow> prims \<Rightarrow> crypto \<Rightarrow> (json \<Rightarrow> 'd option) \<Rightarrow> 's \<Rightarrow> time \<Rightarrow> string \<Rightarrow> err + 'd" where
  "load_doc B P c dec s t key = (case db_get B s t key of
     Inl e \<Rightarrow> Inl e
   | Inr data \<Rightarrow> (case crypto_decrypt P c key data of
        Inl e \<Rightarrow> Inl e
      | Inr plain \<Rightarrow> json_unmarshal dec plain))"

definition seal_doc ::
  "prims \<Rightarrow> crypto \<Rightarrow> ('d \<Rightarrow> json option) \<Rightarrow> rng \<Rightarrow> nat \<Rightarrow> string \<Rightarrow> 'd \<Rightarrow> err + bytes" where
  "seal_doc P c enc rng i key d = (case json_marshal enc d of
     Inl e \<Rightarrow> Inl e
   | Inr data \<Rightarrow> crypto_encrypt P c rng i key data)"

definition save_doc ::
  "'s badger \<Rightarrow> prims \<Rightarrow> crypto \<Rightarrow> ('d \<Rightarrow> json option) \<Rightarrow> 's \<Rightarrow> time \<Rightarrow> rng \<Rightarrow> nat \<Rightarrow> string \<Rightarrow> 'd \<Rightarrow> err + 's" where
  "save_doc B P c enc s t rng i key d = (case seal_doc P c enc rng i key d of
     Inl e \<Rightarrow> Inl e
   | Inr sealed \<Rightarrow> db_set B s t key sealed)"

section \<open>The contract\<close>

locale doc_store =
  fixes load :: "'s \<Rightarrow> time \<Rightarrow> string \<Rightarrow> err + 'd"
    and save :: "'s \<Rightarrow> time \<Rightarrow> rng \<Rightarrow> nat \<Rightarrow> string \<Rightarrow> 'd \<Rightarrow> err + 's"
    and ok :: "'d \<Rightarrow> bool"
    and E :: "'s \<Rightarrow> contents"
  assumes load_save: "key \<noteq> [] \<Longrightarrow> ok d \<Longrightarrow> save s t r i key d = Inr s' \<Longrightarrow> load s' t' key = Inr d"
    and save_E: "save s t r i key d = Inr s' \<Longrightarrow> \<exists>x. E s' = (E s)(key \<mapsto> (x, None))"
    and load_visible: "key \<noteq> [] \<Longrightarrow> visible (E s) t key = visible (E s') t' key \<Longrightarrow>
        load s t key = load s' t' key"
    and load_absent: "key \<noteq> [] \<Longrightarrow> load s t key = Inl ErrNotFound \<longleftrightarrow> visible (E s) t key = None"
begin

lemma load_frame:
  "key' \<noteq> [] \<Longrightarrow> key' \<noteq> key \<Longrightarrow> E s' = (E s)(key := x) \<Longrightarrow> load s' t key' = load s t key'"
  by (rule load_visible) simp_all

lemma load_save_other:
  "key' \<noteq> [] \<Longrightarrow> key' \<noteq> key \<Longrightarrow> save s t r i key d = Inr s' \<Longrightarrow> load s' t' key' = load s t' key'"
  using save_E load_frame by blast

lemma load_deleted: "key \<noteq> [] \<Longrightarrow> E s' = (E s)(key := None) \<Longrightarrow> load s' t key = Inl ErrNotFound"
  by (simp add: load_absent)

lemma load_any_time:
  "key \<noteq> [] \<Longrightarrow> untimed (E s) p \<Longrightarrow> has_prefix key p \<Longrightarrow> load s t key = load s t' key"
  by (rule load_visible) (auto intro: untimed_visible)

lemma save_untimed: "save s t r i key d = Inr s' \<Longrightarrow> untimed (E s) p \<Longrightarrow> untimed (E s') p"
  using save_E by fastforce

end

text \<open>A database with the laws of Badger, and a cipher with the laws of AES-GCM.\<close>

locale vault = badger_laws B E + keyed P c
  for B :: "'s badger" and E :: "'s \<Rightarrow> contents" and P :: prims and c :: crypto
begin

lemma seal_open:
  assumes "codec enc dec ok" "ok d" "seal_doc P c enc rng i key d = Inr sealed"
  shows "\<exists>plain. crypto_decrypt P c key sealed = Inr plain \<and> json_unmarshal dec plain = Inr d"
  using assms crypto_round_trip codec.unmarshal_marshal[OF assms(1,2)]
  by (auto simp: seal_doc_def split: sum.splits)

lemma save_doc_E:
  "save_doc B P c enc s t r i key d = Inr s' \<longleftrightarrow>
   (\<exists>sealed. seal_doc P c enc r i key d = Inr sealed \<and> db_set B s t key sealed = Inr s')"
  by (auto simp: save_doc_def split: sum.splits)

lemma load_doc_absent:
  assumes "key \<noteq> []"
  shows "load_doc B P c dec s t key = Inl ErrNotFound \<longleftrightarrow> visible (E s) t key = None"
proof (cases "visible (E s) t key")
  case None
  then show ?thesis using assms by (simp add: load_doc_def db_get_visible)
next
  case (Some data)
  have "crypto_decrypt P c key data \<noteq> Inl ErrNotFound"
    using derive_key_length[of key]
    by (auto simp: crypto_decrypt_def aesgcm_decrypt_def no_panic_def split: sum.splits option.splits if_splits)
  moreover have "json_unmarshal dec plain \<noteq> Inl ErrNotFound" for plain
    by (auto simp: json_unmarshal_def split: option.splits)
  ultimately show ?thesis using Some assms
    by (auto simp: load_doc_def db_get_visible split: sum.splits)
qed

lemma doc_store_codec:
  assumes "codec enc dec ok"
  shows "doc_store (load_doc B P c dec) (save_doc B P c enc) ok E"
proof
  fix key d s t r i s' t'
  assume k: "key \<noteq> []" and "ok d" "save_doc B P c enc s t r i key d = Inr s'"
  then obtain sealed where s: "seal_doc P c enc r i key d = Inr sealed" "db_set B s t key sealed = Inr s'"
    by (auto simp: save_doc_E)
  obtain plain where "crypto_decrypt P c key sealed = Inr plain" "json_unmarshal dec plain = Inr d"
    using seal_open[OF assms \<open>ok d\<close> s(1)] by blast
  then show "load_doc B P c dec s' t' key = Inr d"
    using db.get_after_set[OF k s(2)] by (simp add: load_doc_def)
next
  show "save_doc B P c enc s t r i key d = Inr s' \<Longrightarrow> \<exists>x. E s' = (E s)(key \<mapsto> (x, None))" for s t r i key d s'
    using db.set_key_E by (auto simp: save_doc_E)
  show "key \<noteq> [] \<Longrightarrow> visible (E s) t key = visible (E s') t' key \<Longrightarrow>
      load_doc B P c dec s t key = load_doc B P c dec s' t' key" for key s t s' t'
    by (simp add: load_doc_def db_get_visible)
  show "key \<noteq> [] \<Longrightarrow> load_doc B P c dec s t key = Inl ErrNotFound \<longleftrightarrow> visible (E s) t key = None" for key s t
    by (rule load_doc_absent)
qed

end

definition demo_crypto :: crypto where
  "demo_crypto = \<lparr>masterKey = ''master''\<rparr>"

interpretation demo_vault: vault mem_badger map_of demo_prims demo_crypto
  by unfold_locales

lemma vault_iff: "vault B E P \<longleftrightarrow> badger_laws B E \<and> prims_laws P"
  by (auto simp: vault_def keyed_def)

lemmas vaultI = vault_iff[THEN iffD2, OF conjI]

section \<open>Encoding helpers\<close>

text \<open>A pointer to a time with omitempty: left out when nil.\<close>

definition enc_time_opt :: "prims \<Rightarrow> string \<Rightarrow> time option \<Rightarrow> (string \<times> json) list option" where
  "enc_time_opt P name x = (case x of None \<Rightarrow> Some []
     | Some t \<Rightarrow> map_option (\<lambda>j. [(name, j)]) (enc_time P t))"

definition time_opt_ok :: "time option \<Rightarrow> bool" where
  "time_opt_ok x \<longleftrightarrow> (\<forall>t. x = Some t \<longrightarrow> time_ok t)"

lemma time_opt_ok_simps [simp]: "time_opt_ok None" "time_opt_ok (Some t) = time_ok t"
  by (auto simp: time_opt_ok_def)

context prims_laws
begin

lemma enc_time_ok: "time_ok t \<Longrightarrow> enc_time P t = Some (JStr (time_format P t))"
  by (simp add: enc_time_def)

lemma dec_time_enc [simp]: "time_ok t \<Longrightarrow> dec_time P (JStr (time_format P t)) z = Some t"
  by (simp add: dec_time_def time_round_trip)

lemma dec_time_ptr_enc [simp]:
  "time_ok t \<Longrightarrow> dec_time_ptr P (JStr (time_format P t)) z = Some (Some t)"
  by (simp add: dec_time_ptr_def)

end

lemma enc_time_SomeD: "enc_time P t = Some j \<Longrightarrow> time_ok t"
  by (auto simp: enc_time_def split: if_splits)

end
