(* ===== verification/KV.thy ===== *)
theory KV
  imports Records
begin

text \<open>
  internal/secrets/kv.go: the versioned key-value engine. A secret is a metadata record under
  \<open>secrets/kv/<path>/__meta\<close> and one record per version under \<open>secrets/kv/<path>/v<n>\<close>. A value
  (json.RawMessage) is the JSON value it denotes; nil and the value null are one.
\<close>

section \<open>Records\<close>

definition maxVersions :: int where
  "maxVersions = 10"

definition softDeleteTTL :: duration where
  "softDeleteTTL = 30 * 24 * hour"

record kv_entry =
  kv_path :: string
  kv_version :: int
  kv_value :: json
  kv_created :: time
  kv_deleted :: "time option"

record kv_meta =
  meta_path :: string
  meta_current :: int
  meta_deleted :: "time option"

definition enc_entry :: "prims \<Rightarrow> kv_entry \<Rightarrow> json option" where
  "enc_entry P e = (case enc_time P (kv_created e) of None \<Rightarrow> None | Some created \<Rightarrow>
     (case enc_time_opt P ''deleted_at'' (kv_deleted e) of None \<Rightarrow> None | Some deleted \<Rightarrow>
        Some (JObj ([(''path'', JStr (kv_path e)), (''version'', enc_int (kv_version e)),
          (''value'', kv_value e), (''created_at'', created)] @ deleted))))"

definition dec_entry :: "prims \<Rightarrow> json \<Rightarrow> kv_entry option" where
  "dec_entry P j = (case members j of None \<Rightarrow> None | Some ms \<Rightarrow>
     (case (obj_get ''path'' dec_str [] ms, obj_get ''version'' dec_int 0 ms,
            obj_get ''value'' dec_raw JNull ms, obj_get ''created_at'' (dec_time P) zero_time ms,
            obj_get ''deleted_at'' (dec_time_ptr P) None ms) of
        (Some path, Some version, Some v, Some created, Some deleted) \<Rightarrow>
          Some \<lparr>kv_path = path, kv_version = version, kv_value = v, kv_created = created,
            kv_deleted = deleted\<rparr>
      | _ \<Rightarrow> None))"

definition enc_meta :: "prims \<Rightarrow> kv_meta \<Rightarrow> json option" where
  "enc_meta P m = (case enc_time_opt P ''deleted_at'' (meta_deleted m) of None \<Rightarrow> None | Some deleted \<Rightarrow>
     Some (JObj ([(''path'', JStr (meta_path m)), (''current_version'', enc_int (meta_current m))] @ deleted)))"

definition dec_meta :: "prims \<Rightarrow> json \<Rightarrow> kv_meta option" where
  "dec_meta P j = (case members j of None \<Rightarrow> None | Some ms \<Rightarrow>
     (case (obj_get ''path'' dec_str [] ms, obj_get ''current_version'' dec_int 0 ms,
            obj_get ''deleted_at'' (dec_time_ptr P) None ms) of
        (Some path, Some current, Some deleted) \<Rightarrow>
          Some \<lparr>meta_path = path, meta_current = current, meta_deleted = deleted\<rparr>
      | _ \<Rightarrow> None))"

definition kv_meta_key :: "string \<Rightarrow> string" where
  "kv_meta_key path = ''secrets/kv/'' @ path @ ''/__meta''"

definition kv_version_key :: "string \<Rightarrow> int \<Rightarrow> string" where
  "kv_version_key path version = ''secrets/kv/'' @ path @ ''/v'' @ itoa version"

section \<open>Reading and writing the records\<close>

definition get_meta :: "'s badger \<Rightarrow> prims \<Rightarrow> crypto \<Rightarrow> 's \<Rightarrow> time \<Rightarrow> string \<Rightarrow> err + kv_meta" where
  "get_meta B P c s t path = load_doc B P c (dec_meta P) s t (kv_meta_key path)"

definition write_meta ::
  "'s badger \<Rightarrow> prims \<Rightarrow> crypto \<Rightarrow> 's \<Rightarrow> time \<Rightarrow> rng \<Rightarrow> nat \<Rightarrow> kv_meta \<Rightarrow> err + 's" where
  "write_meta B P c s t rng i meta =
     save_doc B P c (enc_meta P) s t rng i (kv_meta_key (meta_path meta)) meta"

definition get_version ::
  "'s badger \<Rightarrow> prims \<Rightarrow> crypto \<Rightarrow> 's \<Rightarrow> time \<Rightarrow> string \<Rightarrow> int \<Rightarrow> err + kv_entry" where
  "get_version B P c s t path version =
     load_doc B P c (dec_entry P) s t (kv_version_key path version)"

definition write_version ::
  "'s badger \<Rightarrow> prims \<Rightarrow> crypto \<Rightarrow> 's \<Rightarrow> time \<Rightarrow> rng \<Rightarrow> nat \<Rightarrow> kv_entry \<Rightarrow> err + 's" where
  "write_version B P c s t rng i entry =
     save_doc B P c (enc_entry P) s t rng i (kv_version_key (kv_path entry) (kv_version entry)) entry"

definition delete_version :: "'s badger \<Rightarrow> 's \<Rightarrow> time \<Rightarrow> string \<Rightarrow> int \<Rightarrow> err + 's" where
  "delete_version B s t path version = db_delete B s t (kv_version_key path version)"

section \<open>Operations\<close>

text \<open>
  An operation that writes returns the state it leaves beside its result, since a Set whose
  metadata cannot be written has already written its version.
\<close>

definition kv_get ::
  "'s badger \<Rightarrow> prims \<Rightarrow> crypto \<Rightarrow> 's \<Rightarrow> time \<Rightarrow> string \<Rightarrow> int \<Rightarrow> err + kv_entry" where
  "kv_get B P c s t path version = (case get_meta B P c s t path of
     Inl e \<Rightarrow> Inl e
   | Inr meta \<Rightarrow>
      if meta_deleted meta \<noteq> None then Inl (ErrSecretDeleted path)
      else
        (let version = (if version = 0 then meta_current meta else version) in
         if version < 1 \<or> version > meta_current meta then Inl (ErrVersionNotFound version path)
         else get_version B P c s t path version))"

text \<open>The part of Set after the metadata of the secret (or of a new one) is at hand.\<close>

definition kv_put ::
  "'s badger \<Rightarrow> prims \<Rightarrow> crypto \<Rightarrow> 's \<Rightarrow> time \<Rightarrow> rng \<Rightarrow> string \<Rightarrow> json \<Rightarrow> kv_meta \<Rightarrow> 's \<times> (err + kv_entry)" where
  "kv_put B P c s t rng path v m =
     (let meta = m\<lparr>meta_deleted := None, meta_current := wrap64 (meta_current m + 1)\<rparr>;
          entry = \<lparr>kv_path = path, kv_version = meta_current meta, kv_value = v,
            kv_created = t, kv_deleted = None\<rparr>
      in case write_version B P c s t rng 0 entry of
           Inl e \<Rightarrow> (s, Inl e)
         | Inr s1 \<Rightarrow> (case write_meta B P c s1 t rng 1 meta of
              Inl e \<Rightarrow> (s1, Inl e)
            | Inr s2 \<Rightarrow>
               (if meta_current meta > maxVersions
                then (case delete_version B s2 t path (meta_current meta - maxVersions) of
                        Inl _ \<Rightarrow> s2 | Inr s3 \<Rightarrow> s3)
                else s2, Inr entry)))"

definition kv_set ::
  "'s badger \<Rightarrow> prims \<Rightarrow> crypto \<Rightarrow> 's \<Rightarrow> time \<Rightarrow> rng \<Rightarrow> string \<Rightarrow> json \<Rightarrow> 's \<times> (err + kv_entry)" where
  "kv_set B P c s t rng path v = (case get_meta B P c s t path of
     Inl e \<Rightarrow> if is_not_found e
        then kv_put B P c s t rng path v \<lparr>meta_path = path, meta_current = 0, meta_deleted = None\<rparr>
        else (s, Inl e)
   | Inr m \<Rightarrow> kv_put B P c s t rng path v m)"

definition kv_delete ::
  "'s badger \<Rightarrow> prims \<Rightarrow> crypto \<Rightarrow> 's \<Rightarrow> time \<Rightarrow> rng \<Rightarrow> string \<Rightarrow> err + 's" where
  "kv_delete B P c s t rng path = (case get_meta B P c s t path of
     Inl e \<Rightarrow> Inl e
   | Inr meta \<Rightarrow> write_meta B P c s t rng 0 (meta\<lparr>meta_deleted := Some t\<rparr>))"

text \<open>
  The loop of Versions. It ends at the current version; at the largest int the loop variable
  of the code would wrap, which takes as many writes as there are integers.
\<close>

function versions_loop ::
  "'s badger \<Rightarrow> prims \<Rightarrow> crypto \<Rightarrow> 's \<Rightarrow> time \<Rightarrow> string \<Rightarrow> int \<Rightarrow> int \<Rightarrow> kv_entry list" where
  "versions_loop B P c s t path v current =
     (if v \<le> current then
        (case get_version B P c s t path v of
           Inl _ \<Rightarrow> versions_loop B P c s t path (v + 1) current
         | Inr entry \<Rightarrow> entry\<lparr>kv_value := JNull\<rparr> # versions_loop B P c s t path (v + 1) current)
      else [])"
  by pat_completeness auto
termination
  by (relation "measure (\<lambda>(_, _, _, _, _, _, v, current). nat (current - v + 1))") auto

declare versions_loop.simps [simp del]

definition kv_versions ::
  "'s badger \<Rightarrow> prims \<Rightarrow> crypto \<Rightarrow> 's \<Rightarrow> time \<Rightarrow> string \<Rightarrow> err + kv_entry list" where
  "kv_versions B P c s t path = (case get_meta B P c s t path of
     Inl e \<Rightarrow> Inl e
   | Inr meta \<Rightarrow>
      (let oldest = wrap64 (meta_current meta - maxVersions + 1);
           oldest = (if oldest < 1 then 1 else oldest)
       in Inr (versions_loop B P c s t path oldest (meta_current meta))))"

definition kv_rollback ::
  "'s badger \<Rightarrow> prims \<Rightarrow> crypto \<Rightarrow> 's \<Rightarrow> time \<Rightarrow> rng \<Rightarrow> string \<Rightarrow> int \<Rightarrow> 's \<times> (err + kv_entry)" where
  "kv_rollback B P c s t rng path version = (case kv_get B P c s t path version of
     Inl e \<Rightarrow> (s, Inl (Wrapped ''rollback'' e))
   | Inr old \<Rightarrow> kv_set B P c s t rng path (kv_value old))"

definition kv_list :: "'s badger \<Rightarrow> 's \<Rightarrow> time \<Rightarrow> string \<Rightarrow> err + string list" where
  "kv_list B s t prefix = db_list_direct B s t (''secrets/kv/'' @ prefix)"

section \<open>Keys\<close>

lemma last_segment:
  assumes "c \<notin> set a" "c \<notin> set b"
  shows "p @ c # a = q @ c # b \<longleftrightarrow> p = q \<and> a = (b :: 'a list)"
proof
  assume "p @ c # a = q @ c # b"
  then have r: "rev a @ c # rev p = rev b @ c # rev q"
    by (metis rev_append rev.simps(2) append_assoc append_Cons append_Nil)
  have s: "takeWhile (\<lambda>x. x \<noteq> c) (rev x @ c # y) = rev x" "dropWhile (\<lambda>x. x \<noteq> c) (rev x @ c # y) = c # y"
    if "c \<notin> set x" for x y
    using that by (auto intro!: takeWhile_append_all dropWhile_append_all)
  show "p = q \<and> a = b" using s[OF assms(1), of "rev p"] s[OF assms(2), of "rev q"] r by simp
qed simp

lemma itoa_no_slash: "CHR ''/'' \<notin> set (itoa i)"
  using itoa_chars[of "CHR ''/''" i] by auto

lemma kv_meta_key_eq [simp]: "kv_meta_key p = kv_meta_key q \<longleftrightarrow> p = q"
  by (simp add: kv_meta_key_def)

lemma kv_version_key_eq [simp]: "kv_version_key p v = kv_version_key q w \<longleftrightarrow> p = q \<and> v = w"
  using last_segment[of "CHR ''/''" "CHR ''v'' # itoa v" "CHR ''v'' # itoa w" p q] itoa_no_slash
  by (auto simp: kv_version_key_def dest: itoa_inject)

lemma kv_keys_differ [simp]:
  "kv_meta_key p \<noteq> kv_version_key q v" "kv_version_key q v \<noteq> kv_meta_key p"
  using last_segment[of "CHR ''/''" "''__meta''" "CHR ''v'' # itoa v" p q] itoa_no_slash[of v]
  by (auto simp: kv_version_key_def kv_meta_key_def)

lemma kv_keys_nonempty [simp]: "kv_meta_key p \<noteq> []" "kv_version_key p v \<noteq> []"
  by (simp_all add: kv_version_key_def kv_meta_key_def)

lemma kv_keys_prefix [simp]:
  "has_prefix (kv_meta_key p) ''secrets/kv/''" "has_prefix (kv_version_key p v) ''secrets/kv/''"
  by (simp_all add: kv_version_key_def kv_meta_key_def has_prefix_def)

section \<open>Codecs\<close>

definition value_ok :: "json \<Rightarrow> bool" where
  "value_ok v \<longleftrightarrow> json_ok v \<and> json_depth v < max_depth"

definition entry_ok :: "kv_entry \<Rightarrow> bool" where
  "entry_ok e \<longleftrightarrow> utf8_ok (kv_path e) \<and> int64_ok (kv_version e) \<and> value_ok (kv_value e)
     \<and> time_ok (kv_created e) \<and> time_opt_ok (kv_deleted e)"

definition meta_ok :: "kv_meta \<Rightarrow> bool" where
  "meta_ok m \<longleftrightarrow> utf8_ok (meta_path m) \<and> int64_ok (meta_current m) \<and> time_opt_ok (meta_deleted m)"

lemma kv_field_names [simp]:
  "utf8_ok ''path''" "utf8_ok ''version''" "utf8_ok ''value''" "utf8_ok ''created_at''"
  "utf8_ok ''deleted_at''" "utf8_ok ''current_version''"
  by (simp_all add: utf8_ok_all_ascii is_ascii_def)

sublocale prims_laws \<subseteq> entry: codec "enc_entry P" "dec_entry P" entry_ok
proof
  fix e assume "entry_ok e"
  then show "\<exists>j. enc_entry P e = Some j \<and> json_ok j \<and> dec_entry P j = Some e"
    by (cases "kv_deleted e")
      (auto simp: entry_ok_def value_ok_def enc_entry_def dec_entry_def enc_time_opt_def enc_time_ok
        json_ok_def time_text max_depth_def)
qed

sublocale prims_laws \<subseteq> meta: codec "enc_meta P" "dec_meta P" meta_ok
proof
  fix m assume "meta_ok m"
  then show "\<exists>j. enc_meta P m = Some j \<and> json_ok j \<and> dec_meta P j = Some m"
    by (cases "meta_deleted m")
      (auto simp: meta_ok_def enc_meta_def dec_meta_def enc_time_opt_def enc_time_ok
        json_ok_def time_text max_depth_def)
qed

sublocale vault \<subseteq> ev: doc_store "load_doc B P c (dec_entry P)" "save_doc B P c (enc_entry P)" entry_ok E
  by (rule doc_store_codec) (rule entry.codec_axioms)

sublocale vault \<subseteq> mv: doc_store "load_doc B P c (dec_meta P)" "save_doc B P c (enc_meta P)" meta_ok E
  by (rule doc_store_codec) (rule meta.codec_axioms)

section \<open>The abstract secret\<close>

text \<open>
  What a secret is to its users: the sequence of values ever set, with their times, and the time
  of its deletion if it is deleted now. The store keeps the last ten values; of an older one
  the record is gone, or still there when the database refused to delete it.
\<close>

record secret =
  history :: "(json \<times> time) list"
  removed :: "time option"

definition count :: "secret option \<Rightarrow> int" where
  "count x = (case x of None \<Rightarrow> 0 | Some h \<Rightarrow> int (length (history h)))"

definition in_window :: "int \<Rightarrow> int \<Rightarrow> bool" where
  "in_window n v \<longleftrightarrow> 1 \<le> v \<and> n - maxVersions < v \<and> v \<le> n"

definition abs_entry :: "string \<Rightarrow> secret \<Rightarrow> int \<Rightarrow> kv_entry" where
  "abs_entry path h v = (let (x, t) = history h ! nat (v - 1) in
     \<lparr>kv_path = path, kv_version = v, kv_value = x, kv_created = t, kv_deleted = None\<rparr>)"

definition abs_set :: "secret option \<Rightarrow> json \<Rightarrow> time \<Rightarrow> secret" where
  "abs_set x v t = \<lparr>history = (case x of None \<Rightarrow> [] | Some h \<Rightarrow> history h) @ [(v, t)], removed = None\<rparr>"

definition values_ok :: "secret option \<Rightarrow> bool" where
  "values_ok x \<longleftrightarrow> (\<forall>h. x = Some h \<longrightarrow> list_all (\<lambda>(v, t). value_ok v) (history h))"

definition kv_rep ::
  "'s badger \<Rightarrow> prims \<Rightarrow> crypto \<Rightarrow> 's \<Rightarrow> string \<Rightarrow> secret option \<Rightarrow> bool" where
  "kv_rep B P c s path x \<longleftrightarrow> int64_ok (count x) \<and> values_ok x \<and>
     (case x of
        None \<Rightarrow> \<forall>t. get_meta B P c s t path = Inl ErrNotFound
      | Some h \<Rightarrow>
         (\<forall>t. get_meta B P c s t path =
            Inr \<lparr>meta_path = path, meta_current = count x, meta_deleted = removed h\<rparr>) \<and>
         (\<forall>t v. 1 \<le> v \<longrightarrow> v \<le> count x \<longrightarrow> get_version B P c s t path v = Inr (abs_entry path h v)
            \<or> v \<le> count x - maxVersions \<and> get_version B P c s t path v = Inl ErrNotFound))"

lemma count_simps [simp]:
  "count None = 0" "count (Some h) = int (length (history h))" "0 \<le> count x"
  by (auto simp: count_def split: option.splits)

lemma count_abs_set [simp]: "int (length (history (abs_set x v t))) = count x + 1"
    "removed (abs_set x v t) = None"
  by (auto simp: abs_set_def split: option.splits)

lemma abs_entry_new: "abs_entry path (abs_set x v t) (count x + 1) =
    \<lparr>kv_path = path, kv_version = count x + 1, kv_value = v, kv_created = t, kv_deleted = None\<rparr>"
  by (cases x) (simp_all add: abs_entry_def abs_set_def nth_append)

lemma abs_entry_old:
  "x = Some h \<Longrightarrow> 1 \<le> v \<Longrightarrow> v \<le> count x \<Longrightarrow> abs_entry path (abs_set x w t) v = abs_entry path h v"
  by (auto simp: abs_entry_def abs_set_def nth_append)

lemma in_window_Suc: "in_window (n + 1) v \<Longrightarrow> v = n + 1 \<or> in_window n v"
  by (auto simp: in_window_def maxVersions_def)

lemma kv_repD:
  assumes "kv_rep B P c s path (Some h)"
  shows "get_meta B P c s t path =
      Inr \<lparr>meta_path = path, meta_current = int (length (history h)), meta_deleted = removed h\<rparr>"
    and "in_window (int (length (history h))) v \<Longrightarrow> get_version B P c s t path v = Inr (abs_entry path h v)"
    and "int64_ok (int (length (history h)))"
    and "values_ok (Some h)"
    and "1 \<le> v \<Longrightarrow> v \<le> int (length (history h)) \<Longrightarrow> get_version B P c s t path v = Inr (abs_entry path h v)
      \<or> v \<le> int (length (history h)) - maxVersions \<and> get_version B P c s t path v = Inl ErrNotFound"
proof -
  show old: "1 \<le> v \<Longrightarrow> v \<le> int (length (history h)) \<Longrightarrow> get_version B P c s t path v = Inr (abs_entry path h v)
      \<or> v \<le> int (length (history h)) - maxVersions \<and> get_version B P c s t path v = Inl ErrNotFound"
    using assms by (simp add: kv_rep_def)
  then show "in_window (int (length (history h))) v \<Longrightarrow> get_version B P c s t path v = Inr (abs_entry path h v)"
    by (auto simp: in_window_def)
qed (use assms in \<open>simp_all add: kv_rep_def\<close>)

lemma value_ok_nth:
  assumes "values_ok (Some h)" "1 \<le> v" "v \<le> int (length (history h))"
  shows "value_ok (kv_value (abs_entry path h v))"
proof -
  have "history h ! nat (v - 1) \<in> set (history h)" using assms(2,3) by (intro nth_mem) linarith
  then show ?thesis using assms(1) by (auto simp: values_ok_def list_all_iff abs_entry_def split: prod.splits)
qed

section \<open>The operations keep the representation\<close>

text \<open>Set on a represented secret: the metadata it starts from, and its course.\<close>

definition set_from ::
  "'s badger \<Rightarrow> prims \<Rightarrow> crypto \<Rightarrow> 's \<Rightarrow> time \<Rightarrow> rng \<Rightarrow> string \<Rightarrow> json \<Rightarrow> int \<Rightarrow> 's \<times> (err + kv_entry)" where
  "set_from B P c s t rng path v n =
     (let entry = \<lparr>kv_path = path, kv_version = n, kv_value = v, kv_created = t, kv_deleted = None\<rparr> in
      case write_version B P c s t rng 0 entry of
        Inl e \<Rightarrow> (s, Inl e)
      | Inr s1 \<Rightarrow> (case write_meta B P c s1 t rng 1
              \<lparr>meta_path = path, meta_current = n, meta_deleted = None\<rparr> of
           Inl e \<Rightarrow> (s1, Inl e)
         | Inr s2 \<Rightarrow> (if n > maxVersions
              then (case delete_version B s2 t path (n - maxVersions) of Inl _ \<Rightarrow> s2 | Inr s3 \<Rightarrow> s3)
              else s2, Inr entry)))"

lemma kv_put_from:
  assumes "int64_ok (n + 1)"
  shows "kv_put B P c s t rng path v \<lparr>meta_path = path, meta_current = n, meta_deleted = d\<rparr> =
    set_from B P c s t rng path v (n + 1)"
  unfolding kv_put_def set_from_def Let_def kv_meta.simps wrap64_id[OF assms] ..

lemma kv_set_from:
  assumes "kv_rep B P c s path x" "int64_ok (count x + 1)"
  shows "kv_set B P c s t rng path v = set_from B P c s t rng path v (count x + 1)"
proof (cases x)
  case None
  then have "get_meta B P c s t path = Inl ErrNotFound" using assms(1) by (simp add: kv_rep_def)
  with None assms(2) kv_put_from[of 0] show ?thesis by (simp add: kv_set_def)
next
  case (Some h)
  show ?thesis
    using kv_repD(1)[OF assms(1)[unfolded Some], of t] assms(2) kv_put_from[of "count x"] Some
    by (simp add: kv_set_def)
qed

context vault
begin

lemma get_meta_frame:
  "E s' = (E s)(k := y) \<Longrightarrow> k \<noteq> kv_meta_key path \<Longrightarrow> get_meta B P c s' t path = get_meta B P c s t path"
  unfolding get_meta_def by (rule mv.load_frame) auto

lemma get_version_frame:
  "E s' = (E s)(k := y) \<Longrightarrow> k \<noteq> kv_version_key path v \<Longrightarrow>
   get_version B P c s' t path v = get_version B P c s t path v"
  unfolding get_version_def by (rule ev.load_frame) auto

lemma kv_rep_frame:
  assumes "kv_rep B P c s path x" "E s' = (E s)(k := y)" "k \<noteq> kv_meta_key path"
    "\<And>v. v \<le> count x \<Longrightarrow> k \<noteq> kv_version_key path v"
  shows "kv_rep B P c s' path x"
  using assms(1,4) get_meta_frame[OF assms(2,3)] get_version_frame[OF assms(2)]
  by (simp add: kv_rep_def split: option.splits)

lemma kv_rep_prune:
  assumes "kv_rep B P c s path (Some h)" "E s' = (E s)(kv_version_key path w := None)"
    "w \<le> int (length (history h)) - maxVersions"
  shows "kv_rep B P c s' path (Some h)"
proof -
  have gone: "get_version B P c s' t path w = Inl ErrNotFound" for t
    unfolding get_version_def by (rule ev.load_deleted[OF _ assms(2)]) simp
  have "get_version B P c s' t path v = get_version B P c s t path v" if "v \<noteq> w" for t v
    using get_version_frame[OF assms(2)] that by simp
  then have "get_version B P c s' t path v = Inr (abs_entry path h v)
      \<or> v \<le> int (length (history h)) - maxVersions \<and> get_version B P c s' t path v = Inl ErrNotFound"
    if "1 \<le> v" "v \<le> int (length (history h))" for t v
    using that gone assms(3) kv_repD(5)[OF assms(1)] by (cases "v = w") auto
  moreover have "get_meta B P c s' t path = get_meta B P c s t path" for t
    by (rule get_meta_frame[OF assms(2)]) simp
  ultimately show ?thesis using assms(1) by (simp add: kv_rep_def)
qed

lemma write_version_E:
  assumes "write_version B P c s t rng i e = Inr s'"
  shows "\<exists>y. E s' = (E s)(kv_version_key (kv_path e) (kv_version e) := Some y)"
  using ev.save_E assms unfolding write_version_def by blast

lemma write_meta_E:
  assumes "write_meta B P c s t rng i m = Inr s'"
  shows "\<exists>y. E s' = (E s)(kv_meta_key (meta_path m) := Some y)"
  using mv.save_E assms unfolding write_meta_def by blast

lemma delete_version_E:
  "delete_version B s t path v = Inr s' \<Longrightarrow> E s' = (E s)(kv_version_key path v := None)"
  using db.del_E by (simp add: delete_version_def)

lemma write_version_time:
  "write_version B P c s t rng i e = Inr s' \<Longrightarrow> time_ok (kv_created e) \<and> time_opt_ok (kv_deleted e)"
  by (auto simp: write_version_def save_doc_def seal_doc_def json_marshal_def enc_entry_def enc_time_opt_def
      dest: enc_time_SomeD split: sum.splits option.splits)

lemma write_meta_time: "write_meta B P c s t rng i m = Inr s' \<Longrightarrow> time_opt_ok (meta_deleted m)"
  by (auto simp: write_meta_def save_doc_def seal_doc_def json_marshal_def enc_meta_def enc_time_opt_def
      dest: enc_time_SomeD split: sum.splits option.splits)

lemma get_version_written:
  assumes "write_version B P c s t rng i e = Inr s'" "utf8_ok (kv_path e)" "int64_ok (kv_version e)"
    "value_ok (kv_value e)"
  shows "get_version B P c s' t' (kv_path e) (kv_version e) = Inr e"
  using ev.load_save[of "kv_version_key (kv_path e) (kv_version e)" e s t rng i s' t'] assms write_version_time
  by (simp add: get_version_def write_version_def entry_ok_def)

lemma get_meta_written:
  assumes "write_meta B P c s t rng i m = Inr s'" "utf8_ok (meta_path m)" "int64_ok (meta_current m)"
  shows "get_meta B P c s' t' (meta_path m) = Inr m"
  using mv.load_save[of "kv_meta_key (meta_path m)" m s t rng i s' t'] assms write_meta_time
  by (simp add: get_meta_def write_meta_def meta_ok_def)

end

context vault
begin

text \<open>The states a Set goes through, with the key each step writes.\<close>

lemma set_from_cases:
  assumes "set_from B P c s t rng path v n = (s', r)"
  obtains (fail_version) e where "s' = s" "r = Inl e"
  | (fail_meta) s1 y e where "E s1 = (E s)(kv_version_key path n := y)" "s' = s1" "r = Inl e"
  | (stored) s1 y s2 z where
      "write_version B P c s t rng 0 (\<lparr>kv_path = path, kv_version = n, kv_value = v, kv_created = t, kv_deleted = None\<rparr>) = Inr s1"
      "E s1 = (E s)(kv_version_key path n := y)"
      "write_meta B P c s1 t rng 1 \<lparr>meta_path = path, meta_current = n, meta_deleted = None\<rparr> = Inr s2"
      "E s2 = (E s1)(kv_meta_key path := z)"
      "s' = s2 \<or> maxVersions < n \<and> delete_version B s2 t path (n - maxVersions) = Inr s'"
      "\<And>s3. maxVersions < n \<Longrightarrow> delete_version B s2 t path (n - maxVersions) = Inr s3 \<Longrightarrow> s' = s3"
      "r = Inr \<lparr>kv_path = path, kv_version = n, kv_value = v, kv_created = t, kv_deleted = None\<rparr>"
proof -
  let ?e = "\<lparr>kv_path = path, kv_version = n, kv_value = v, kv_created = t, kv_deleted = None\<rparr>"
  let ?m = "\<lparr>meta_path = path, meta_current = n, meta_deleted = None\<rparr>"
  show thesis
  proof (cases "write_version B P c s t rng 0 ?e")
    case (Inl e)
    with assms have "s' = s" "r = Inl e" by (simp_all add: set_from_def)
    then show thesis by (rule fail_version)
  next
    case (Inr s1)
    then obtain y where y: "E s1 = (E s)(kv_version_key path n := y)" using write_version_E by fastforce
    show thesis
    proof (cases "write_meta B P c s1 t rng 1 ?m")
      case (Inl e)
      with assms Inr have "s' = s1" "r = Inl e" by (simp_all add: set_from_def)
      with y show thesis by (rule fail_meta)
    next
      case m: (Inr s2)
      then obtain z where "E s2 = (E s1)(kv_meta_key path := z)" using write_meta_E by fastforce
      with assms Inr m y show thesis
        by (intro stored[of s1 y s2 z])
          (auto simp: set_from_def Let_def split: if_splits sum.splits)
    qed
  qed
qed

lemma set_from_stored:
  assumes n: "int64_ok (count x + 1)" and "utf8_ok path" "value_ok v" "values_ok x"
    and kept: "\<And>t' w h. x = Some h \<Longrightarrow> 1 \<le> w \<Longrightarrow> w \<le> count x \<Longrightarrow>
      get_version B P c s t' path w = Inr (abs_entry path h w)
      \<or> w \<le> count x + 1 - maxVersions \<and> get_version B P c s t' path w = Inl ErrNotFound"
    and set: "set_from B P c s t rng path v (count x + 1) = (s', Inr e)"
  shows "kv_rep B P c s' path (Some (abs_set x v t)) \<and> e = abs_entry path (abs_set x v t) (count x + 1)"
  using set
proof (cases rule: set_from_cases)
  case (stored s1 y s2 z)
  let ?h = "abs_set x v t"
  have m: "get_meta B P c s2 t' path = Inr \<lparr>meta_path = path, meta_current = count x + 1, meta_deleted = None\<rparr>" for t'
    using get_meta_written[OF stored(3)] assms by simp
  have new: "get_version B P c s2 t' path (count x + 1) = Inr (abs_entry path ?h (count x + 1))" for t'
    using get_version_written[OF stored(1), of t'] get_version_frame[OF stored(4)] assms
    by (simp add: abs_entry_new)
  have old: "get_version B P c s2 t' path w = Inr (abs_entry path ?h w)
      \<or> w \<le> count x + 1 - maxVersions \<and> get_version B P c s2 t' path w = Inl ErrNotFound"
    if w: "1 \<le> w" "w \<le> count x" for t' w
  proof -
    obtain h where h: "x = Some h" using w by (cases x) auto
    have "get_version B P c s2 t' path w = get_version B P c s t' path w"
      using get_version_frame[OF stored(4)] get_version_frame[OF stored(2)] w(2) by simp
    moreover have "abs_entry path ?h w = abs_entry path h w"
      using w h by (intro abs_entry_old) auto
    ultimately show ?thesis using kept[OF h w] by simp
  qed
  have "values_ok (Some ?h)"
    using assms(3,4) by (auto simp: values_ok_def abs_set_def list_all_iff split: option.splits)
  moreover have "get_version B P c s2 t' path w = Inr (abs_entry path ?h w)
      \<or> w \<le> count x + 1 - maxVersions \<and> get_version B P c s2 t' path w = Inl ErrNotFound"
    if "1 \<le> w" "w \<le> count x + 1" for t' w
    using that new[of t'] old[of w t'] by (cases "w = count x + 1") auto
  ultimately have s2: "kv_rep B P c s2 path (Some ?h)"
    using m n unfolding kv_rep_def by simp
  have "kv_rep B P c s' path (Some ?h)"
    using stored(5)
  proof
    assume "maxVersions < count x + 1 \<and> delete_version B s2 t path (count x + 1 - maxVersions) = Inr s'"
    then have "E s' = (E s2)(kv_version_key path (count x + 1 - maxVersions) := None)"
      using delete_version_E by blast
    then show ?thesis by (rule kv_rep_prune[OF s2]) simp
  qed (use s2 in simp)
  then show ?thesis using stored(7) by (simp add: abs_entry_new)
qed simp_all

lemma set_from_rep:
  assumes rep: "kv_rep B P c s path x" and n: "int64_ok (count x + 1)" and "utf8_ok path" "value_ok v"
    and set: "set_from B P c s t rng path v (count x + 1) = (s', r)"
  shows "case r of Inl _ \<Rightarrow> kv_rep B P c s' path x
     | Inr e \<Rightarrow> kv_rep B P c s' path (Some (abs_set x v t)) \<and> e = abs_entry path (abs_set x v t) (count x + 1)"
proof (cases r)
  case (Inl e)
  have "kv_rep B P c s' path x" using set
  proof (cases rule: set_from_cases)
    case (fail_meta s1 y e)
    have "kv_rep B P c s1 path x"
      using rep fail_meta(1) by (rule kv_rep_frame) auto
    then show ?thesis using fail_meta by simp
  qed (use rep Inl in auto)
  with Inl show ?thesis by simp
next
  case (Inr e)
  have vs: "values_ok x" using rep by (simp add: kv_rep_def)
  have kept: "get_version B P c s t' path w = Inr (abs_entry path h w)
      \<or> w \<le> count x + 1 - maxVersions \<and> get_version B P c s t' path w = Inl ErrNotFound"
    if "x = Some h" "1 \<le> w" "w \<le> count x" for t' w h
    using kv_repD(5)[OF rep[unfolded that(1)], of w t'] that by auto
  show ?thesis unfolding Inr sum.case
    by (rule set_from_stored[OF n assms(3,4) vs kept set[unfolded Inr]])
qed

lemma kv_set_rep:
  assumes "kv_rep B P c s path x" "int64_ok (count x + 1)" "utf8_ok path" "value_ok v"
    "kv_set B P c s t rng path v = (s', r)"
  shows "case r of Inl _ \<Rightarrow> kv_rep B P c s' path x
     | Inr e \<Rightarrow> kv_rep B P c s' path (Some (abs_set x v t)) \<and> e = abs_entry path (abs_set x v t) (count x + 1)"
  using set_from_rep[OF assms(1-4)] assms(5) kv_set_from[OF assms(1,2)] by simp

lemma kv_set_stored:
  assumes "kv_rep B P c s path x" "int64_ok (count x + 1)" "utf8_ok path" "value_ok v"
    "kv_set B P c s t rng path v = (s', Inr e)"
  shows "kv_rep B P c s' path (Some (abs_set x v t))"
    and "e = abs_entry path (abs_set x v t) (count x + 1)"
  using kv_set_rep[OF assms] by simp_all

text \<open>A Set that failed leaves what every reader sees.\<close>

lemma set_from_failed:
  assumes rep: "kv_rep B P c s path x" and set: "set_from B P c s t rng path v (count x + 1) = (s', Inl e)"
  shows "get_meta B P c s' t' q = get_meta B P c s t' q"
    and "q = path \<longrightarrow> w \<le> count x \<Longrightarrow> get_version B P c s' t' q w = get_version B P c s t' q w"
proof -
  have "get_meta B P c s' t' q = get_meta B P c s t' q
      \<and> ((q = path \<longrightarrow> w \<le> count x) \<longrightarrow> get_version B P c s' t' q w = get_version B P c s t' q w)"
    using set
  proof (cases rule: set_from_cases)
    case (fail_meta s1 y e)
    then show ?thesis using get_meta_frame[OF fail_meta(1)] get_version_frame[OF fail_meta(1)] by auto
  qed simp_all
  then show "get_meta B P c s' t' q = get_meta B P c s t' q"
    and "q = path \<longrightarrow> w \<le> count x \<Longrightarrow> get_version B P c s' t' q w = get_version B P c s t' q w" by simp_all
qed

lemma kv_rep_same:
  assumes "kv_rep B P c s path x" "\<And>t. get_meta B P c s' t path = get_meta B P c s t path"
    "\<And>t w. get_version B P c s' t path w = get_version B P c s t path w"
  shows "kv_rep B P c s' path x"
  using assms by (cases x) (simp_all add: kv_rep_def)

lemma set_from_other:
  assumes "set_from B P c s t rng path v n = (s', r)" "q \<noteq> path"
  shows "get_meta B P c s' t' q = get_meta B P c s t' q"
    and "get_version B P c s' t' q w = get_version B P c s t' q w"
proof -
  have f: "get_meta B P c s1 t' q = get_meta B P c s0 t' q \<and> get_version B P c s1 t' q w = get_version B P c s0 t' q w"
    if "E s1 = (E s0)(k := y)" "k = kv_meta_key path \<or> (\<exists>u. k = kv_version_key path u)" for s0 s1 k y
    using get_meta_frame[OF that(1)] get_version_frame[OF that(1)] that(2) assms(2) by auto
  have "get_meta B P c s' t' q = get_meta B P c s t' q \<and> get_version B P c s' t' q w = get_version B P c s t' q w"
    using assms(1)
  proof (cases rule: set_from_cases)
    case (stored s1 y s2 z)
    have d: "delete_version B s2 t path u = Inr s' \<Longrightarrow>
        get_meta B P c s' t' q = get_meta B P c s2 t' q \<and> get_version B P c s' t' q w = get_version B P c s2 t' q w" for u
      using f delete_version_E by blast
    show ?thesis using f[OF stored(2)] f[OF stored(4)] stored(5) d by auto
  qed (use f in auto)
  then show "get_meta B P c s' t' q = get_meta B P c s t' q"
    "get_version B P c s' t' q w = get_version B P c s t' q w" by simp_all
qed

lemma kv_delete_rep:
  assumes rep: "kv_rep B P c s path x" and "utf8_ok path"
  shows "kv_delete B P c s t rng path = Inr s' \<Longrightarrow>
      \<exists>h. x = Some h \<and> kv_rep B P c s' path (Some (h\<lparr>removed := Some t\<rparr>))"
    and "x = None \<Longrightarrow> kv_delete B P c s t rng path = Inl ErrNotFound"
proof -
  show "x = None \<Longrightarrow> kv_delete B P c s t rng path = Inl ErrNotFound"
    using rep by (simp add: kv_rep_def kv_delete_def)
  assume d: "kv_delete B P c s t rng path = Inr s'"
  then obtain h where h: "x = Some h" using rep by (cases x) (auto simp: kv_rep_def kv_delete_def)
  let ?m = "\<lparr>meta_path = path, meta_current = count x, meta_deleted = Some t\<rparr>"
  have w: "write_meta B P c s t rng 0 ?m = Inr s'"
    using d kv_repD(1)[OF rep[unfolded h], of t] h by (simp add: kv_delete_def)
  then obtain y where E: "E s' = (E s)(kv_meta_key path := y)" using write_meta_E by fastforce
  have "get_meta B P c s' t' path = Inr ?m" for t'
    using get_meta_written[OF w] assms(2) kv_repD(3)[OF rep[unfolded h]] h by simp
  moreover have "get_version B P c s' t' path v = get_version B P c s t' path v" for t' v
    by (rule get_version_frame[OF E]) simp
  moreover have "abs_entry path (h\<lparr>removed := Some t\<rparr>) v = abs_entry path h v" for v
    by (simp add: abs_entry_def)
  ultimately have "kv_rep B P c s' path (Some (h\<lparr>removed := Some t\<rparr>))"
    using rep h by (simp add: kv_rep_def values_ok_def)
  with h show "\<exists>h. x = Some h \<and> kv_rep B P c s' path (Some (h\<lparr>removed := Some t\<rparr>))" by blast
qed

lemma kv_delete_other:
  assumes rep: "kv_rep B P c s path x" and d: "kv_delete B P c s t rng path = Inr s'" and "q \<noteq> path"
  shows "get_meta B P c s' t' q = get_meta B P c s t' q \<and> get_version B P c s' t' q w = get_version B P c s t' q w"
proof -
  obtain h where h: "x = Some h" using rep d by (cases x) (auto simp: kv_rep_def kv_delete_def)
  have "write_meta B P c s t rng 0 \<lparr>meta_path = path, meta_current = count x, meta_deleted = Some t\<rparr> = Inr s'"
    using d kv_repD(1)[OF rep[unfolded h], of t] h by (simp add: kv_delete_def)
  then obtain y where E: "E s' = (E s)(kv_meta_key path := y)" using write_meta_E by fastforce
  show ?thesis using get_meta_frame[OF E] get_version_frame[OF E] assms(3) by simp
qed

lemma kv_prune:
  assumes rep: "kv_rep B P c s path x" and n: "int64_ok (count x + 1)" and "utf8_ok path" "value_ok v"
    and set: "kv_set B P c s t rng path v = (s', Inr e)"
    and del: "\<And>s t k. \<exists>s'. bdg_delete B s t k = Inr s'"
    and "maxVersions < count x + 1"
  shows "get_version B P c s' t' path (count x + 1 - maxVersions) = Inl ErrNotFound"
proof -
  have "set_from B P c s t rng path v (count x + 1) = (s', Inr e)"
    using set kv_set_from[OF rep n] by simp
  then show ?thesis
  proof (cases rule: set_from_cases)
    case (stored s1 y s2 z)
    obtain s3 where "delete_version B s2 t path (count x + 1 - maxVersions) = Inr s3"
      using del[of s2 t "kv_version_key path (count x + 1 - maxVersions)"]
      by (auto simp: delete_version_def db_delete_def lift_bdg_def)
    then have "E s' = (E s2)(kv_version_key path (count x + 1 - maxVersions) := None)"
      using stored(6)[OF assms(7)] delete_version_E by simp
    then show ?thesis unfolding get_version_def by (intro ev.load_deleted) auto
  qed auto
qed

end

lemma kv_get_rep:
  assumes "kv_rep B P c s path (Some h)"
  shows "kv_get B P c s t path v =
     (if removed h \<noteq> None then Inl (ErrSecretDeleted path)
      else (let v = (if v = 0 then int (length (history h)) else v) in
        if v < 1 \<or> int (length (history h)) < v then Inl (ErrVersionNotFound v path)
        else if int (length (history h)) - maxVersions < v then Inr (abs_entry path h v)
        else get_version B P c s t path v))"
proof -
  let ?n = "int (length (history h))"
  have "get_version B P c s t path v = Inr (abs_entry path h v)"
    if "\<not> v < 1" "\<not> ?n < v" "?n - maxVersions < v" for v
    using that kv_repD(2)[OF assms, of v t] by (simp add: in_window_def)
  then show ?thesis
    using kv_repD(1)[OF assms, of t] by (simp add: kv_get_def Let_def)
qed

lemma versions_loop_rep:
  assumes "kv_rep B P c s path (Some h)" "1 \<le> v" "int (length (history h)) - maxVersions < v"
  shows "versions_loop B P c s t path v (int (length (history h))) =
    map (\<lambda>v. (abs_entry path h v)\<lparr>kv_value := JNull\<rparr>) [v..int (length (history h))]"
  using assms(2,3)
proof (induction "nat (int (length (history h)) - v + 1)" arbitrary: v)
  case 0
  then show ?case by (subst versions_loop.simps) simp
next
  case (Suc k)
  then have "in_window (int (length (history h))) v" by (simp add: in_window_def)
  then have "get_version B P c s t path v = Inr (abs_entry path h v)" by (rule kv_repD(2)[OF assms(1)])
  moreover have "versions_loop B P c s t path (v + 1) (int (length (history h))) =
      map (\<lambda>v. (abs_entry path h v)\<lparr>kv_value := JNull\<rparr>) [v + 1..int (length (history h))]"
    using Suc by (intro Suc.hyps) auto
  ultimately show ?case using Suc(2) by (subst versions_loop.simps) (simp add: upto_rec1)
qed

lemma kv_versions_rep:
  assumes "kv_rep B P c s path (Some h)"
  shows "kv_versions B P c s t path =
    Inr (map (\<lambda>v. (abs_entry path h v)\<lparr>kv_value := JNull\<rparr>)
      [max 1 (int (length (history h)) - maxVersions + 1)..int (length (history h))])"
proof -
  let ?n = "int (length (history h))"
  have "int64_ok (?n - maxVersions + 1)"
    using kv_repD(3)[OF assms] by (simp add: int64_ok_def maxVersions_def)
  then have "(let oldest = wrap64 (?n - maxVersions + 1) in if oldest < 1 then 1 else oldest)
      = max 1 (?n - maxVersions + 1)" by (simp add: wrap64_id)
  then show ?thesis
    using kv_repD(1)[OF assms, of t] versions_loop_rep[OF assms, of "max 1 (?n - maxVersions + 1)" t]
    by (simp add: kv_versions_def Let_def)
qed

end
