(* ===== verification/KV_Props.thy ===== *)
theory KV_Props
  imports KV
begin

text \<open>
  The properties of the key-value engine: what each operation does to the secret at a path, what
  it leaves alone, what holds in every state the engine can reach, and how many versions stay readable.
\<close>

lemma kv_get_by_records:
  assumes "get_meta B P c s' t path = get_meta B P c s t path"
    and "\<And>w m. get_meta B P c s t path = Inr m \<Longrightarrow> 1 \<le> w \<Longrightarrow> w \<le> meta_current m \<Longrightarrow>
      get_version B P c s' t path w = get_version B P c s t path w"
  shows "kv_get B P c s' t path v = kv_get B P c s t path v"
  using assms by (cases "get_meta B P c s t path") (simp_all add: kv_get_def Let_def)

lemma versions_loop_by_records:
  assumes "\<And>w. v \<le> w \<Longrightarrow> w \<le> n \<Longrightarrow> get_version B P c s' t path w = get_version B P c s t path w"
  shows "versions_loop B P c s' t path v n = versions_loop B P c s t path v n"
  using assms
proof (induction "nat (n - v + 1)" arbitrary: v)
  case 0
  then show ?case by (subst (1 2) versions_loop.simps) simp
next
  case (Suc k)
  have "versions_loop B P c s' t path (v + 1) n = versions_loop B P c s t path (v + 1) n"
    using Suc by (intro Suc.hyps) auto
  then show ?case using Suc(3)[of v] by (subst (1 2) versions_loop.simps) (auto split: sum.splits)
qed

lemma kv_versions_by_records:
  assumes "get_meta B P c s' t path = get_meta B P c s t path"
    and "\<And>w m. get_meta B P c s t path = Inr m \<Longrightarrow> 1 \<le> w \<Longrightarrow> w \<le> meta_current m \<Longrightarrow>
      get_version B P c s' t path w = get_version B P c s t path w"
  shows "kv_versions B P c s' t path = kv_versions B P c s t path"
proof (cases "get_meta B P c s t path")
  case (Inr m)
  let ?o = "let oldest = wrap64 (meta_current m - maxVersions + 1) in if oldest < 1 then 1 else oldest"
  have "1 \<le> ?o" by (simp add: Let_def)
  then have "versions_loop B P c s' t path ?o (meta_current m) = versions_loop B P c s t path ?o (meta_current m)"
    using assms(2)[OF Inr] by (intro versions_loop_by_records) auto
  then show ?thesis using Inr assms(1) by (simp add: kv_versions_def Let_def)
qed (use assms(1) in \<open>simp add: kv_versions_def\<close>)

section \<open>Set\<close>

text \<open>
  Set refines appending to a history: on a secret whose stored form represents a history, it
  either reports an error and the stored form still represents the same history, or it returns
  the new entry and the stored form represents the history with the value appended and the
  deletion mark removed.
\<close>

theorem kv_set_refines:
  assumes "badger_laws B E" and "prims_laws P" and "kv_rep B P c s path x"
    and "int64_ok (count x + 1)" and "utf8_ok path" and "value_ok v"
    and "kv_set B P c s t rng path v = (s', r)"
  shows "case r of Inl _ \<Rightarrow> kv_rep B P c s' path x
     | Inr e \<Rightarrow> kv_rep B P c s' path (Some (abs_set x v t)) \<and> e = abs_entry path (abs_set x v t) (count x + 1)"
  by (rule vault.kv_set_rep[OF vaultI[OF assms(1,2)] assms(3-7)])

lemma demo_kv_empty: "kv_rep mem_badger demo_prims demo_crypto [] path None"
  by (simp add: kv_rep_def int64_ok_def values_ok_def get_meta_def load_doc_def db_get_def mem_badger_def visible_def)

lemma demo_value_ok: "value_ok (JStr ''x'')" "value_ok (JStr ''y'')"
  by (simp_all add: value_ok_def json_ok_def max_depth_def utf8_ok_all_ascii is_ascii_def)

lemma demo_path_ok: "utf8_ok ''a''" "utf8_ok ''b''"
  by (simp_all add: utf8_ok_all_ascii is_ascii_def)

text \<open>On the demonstration database no write fails.\<close>

lemma demo_save: "key \<noteq> [] \<Longrightarrow> enc d = Some j \<Longrightarrow>
    \<exists>s'. save_doc mem_badger demo_prims demo_crypto enc s t demo_rng i key d = Inr s'"
  by (simp add: save_doc_def seal_doc_def json_marshal_def crypto_encrypt_def derive_key_def aesgcm_encrypt_def
      demo_prims_def rand_read_def db_set_def lift_bdg_def mem_badger_def aes_key_ok_def demo_rng_def)

lemma demo_set_ok:
  assumes "kv_rep mem_badger demo_prims demo_crypto s path x" "int64_ok (count x + 1)" "time_ok t"
  shows "\<exists>s' e. kv_set mem_badger demo_prims demo_crypto s t demo_rng path v = (s', Inr e)"
proof -
  let ?n = "count x + 1"
  let ?e = "\<lparr>kv_path = path, kv_version = ?n, kv_value = v, kv_created = t, kv_deleted = None\<rparr>"
  let ?m = "\<lparr>meta_path = path, meta_current = ?n, meta_deleted = None\<rparr>"
  obtain j k where e: "enc_entry demo_prims ?e = Some j" and m: "enc_meta demo_prims ?m = Some k"
    using assms(3) by (simp add: enc_entry_def enc_meta_def enc_time_def enc_time_opt_def)
  obtain s1 where "write_version mem_badger demo_prims demo_crypto s t demo_rng 0 ?e = Inr s1"
    unfolding write_version_def using demo_save[of _ "enc_entry demo_prims" ?e, OF kv_keys_nonempty(2) e] by blast
  moreover obtain s2 where "write_meta mem_badger demo_prims demo_crypto s1 t demo_rng 1 ?m = Inr s2"
    unfolding write_meta_def using demo_save[of _ "enc_meta demo_prims" ?m, OF kv_keys_nonempty(1) m] by blast
  ultimately show ?thesis unfolding kv_set_from[OF assms(1,2)] by (simp add: set_from_def)
qed

theorem kv_set_refines_witness:
  "\<exists>s' e. kv_set mem_badger demo_prims demo_crypto [] 0 demo_rng ''a'' (JStr ''x'') = (s', Inr e)
     \<and> kv_rep mem_badger demo_prims demo_crypto s' ''a'' (Some \<lparr>history = [(JStr ''x'', 0)], removed = None\<rparr>)"
proof -
  have n: "int64_ok (count None + 1)" by (simp add: int64_ok_def)
  obtain s' e where s: "kv_set mem_badger demo_prims demo_crypto [] 0 demo_rng ''a'' (JStr ''x'') = (s', Inr e)"
    using demo_set_ok[OF demo_kv_empty n, of 0 "''a''" "JStr ''x''"] by (auto simp: time_ok_def second_def)
  with kv_set_refines[OF mem_laws demo_laws demo_kv_empty n demo_path_ok(1) demo_value_ok(1) s]
  show ?thesis by (simp add: abs_set_def)
qed

text \<open>
  After a successful Set the latest version is the value just written, at any later time, and
  the earlier versions that are still kept read as before.
\<close>

theorem kv_get_after_set:
  assumes "badger_laws B E" and "prims_laws P" and "kv_rep B P c s path x"
    and "int64_ok (count x + 1)" and "utf8_ok path" and "value_ok v"
    and "kv_set B P c s t rng path v = (s', Inr e)"
  shows "kv_get B P c s' t' path 0 =
      Inr \<lparr>kv_path = path, kv_version = count x + 1, kv_value = v, kv_created = t, kv_deleted = None\<rparr>
    \<and> kv_get B P c s' t' path 0 = Inr e
    \<and> (\<forall>h w. x = Some h \<longrightarrow> in_window (count x + 1) w \<longrightarrow> w \<le> count x \<longrightarrow>
        kv_get B P c s' t' path w = Inr (abs_entry path h w))"
proof -
  note r = vault.kv_set_stored(1)[OF vaultI[OF assms(1,2)] assms(3-7)]
    and e = vault.kv_set_stored(2)[OF vaultI[OF assms(1,2)] assms(3-7)]
  have "kv_get B P c s' t' path 0 = Inr e"
    using kv_get_rep[OF r, of t' 0] e by (simp add: Let_def maxVersions_def not_less)
  moreover have "kv_get B P c s' t' path w = Inr (abs_entry path h w)"
    if "x = Some h" "in_window (count x + 1) w" "w \<le> count x" for h w
    using that kv_get_rep[OF r, of t' w] abs_entry_old[OF that(1)] by (simp add: Let_def in_window_def)
  ultimately show ?thesis using e abs_entry_new[of path x v t] by auto
qed

theorem kv_get_after_set_witness:
  "\<exists>s' e. kv_set mem_badger demo_prims demo_crypto [] 0 demo_rng ''a'' (JStr ''x'') = (s', Inr e)
     \<and> kv_get mem_badger demo_prims demo_crypto s' 5 ''a'' 0 = Inr \<lparr>kv_path = ''a'', kv_version = 1,
         kv_value = JStr ''x'', kv_created = 0, kv_deleted = None\<rparr>"
proof -
  have n: "int64_ok (count None + 1)" by (simp add: int64_ok_def)
  obtain s' e where s: "kv_set mem_badger demo_prims demo_crypto [] 0 demo_rng ''a'' (JStr ''x'') = (s', Inr e)"
    using demo_set_ok[OF demo_kv_empty n, of 0 "''a''" "JStr ''x''"] by (auto simp: time_ok_def second_def)
  with kv_get_after_set[OF mem_laws demo_laws demo_kv_empty n demo_path_ok(1) demo_value_ok(1) s, of 5]
  show ?thesis by simp
qed

text \<open>
  C25: A Set that reports an error has changed nothing that a reader of any path can see, even
  when it had already written the record of the new version.
\<close>

theorem kv_set_failure_invisible:
  assumes "badger_laws B E" and "prims_laws P" and "kv_rep B P c s path x" and "int64_ok (count x + 1)"
    and "kv_set B P c s t rng path v = (s', Inl e)"
  shows "kv_get B P c s' t' q w = kv_get B P c s t' q w \<and> kv_versions B P c s' t' q = kv_versions B P c s t' q"
proof -
  have set: "set_from B P c s t rng path v (count x + 1) = (s', Inl e)"
    using assms(5) kv_set_from[OF assms(3,4)] by simp
  note same = vault.set_from_failed[OF vaultI[OF assms(1,2)] assms(3) set]
  have c: "meta_current m = count x" if "get_meta B P c s t' path = Inr m" for m
    using that kv_repD(1)[of B P c s path _ t'] assms(3) by (cases x) (auto simp: kv_rep_def)
  have "get_version B P c s' t' q u = get_version B P c s t' q u"
    if "get_meta B P c s t' q = Inr m" "u \<le> meta_current m" for m u
    using that c by (intro same(2)) auto
  then show ?thesis
    using same(1) by (intro conjI kv_get_by_records kv_versions_by_records) auto
qed

text \<open>A tape whose second draw fails: the version is written, the metadata is not.\<close>

definition failing_rng :: rng where
  "failing_rng = (\<lambda>i. if i = 0 then Some ''n'' else None)"

theorem kv_set_failure_invisible_witness:
  "\<exists>s' e. kv_set mem_badger demo_prims demo_crypto [] 0 failing_rng ''a'' (JStr ''x'') = (s', Inl e)
     \<and> s' \<noteq> [] \<and> kv_get mem_badger demo_prims demo_crypto s' 5 ''a'' 0 = Inl ErrNotFound"
proof -
  have n: "int64_ok (count None + 1)" by (simp add: int64_ok_def)
  obtain y where s: "kv_set mem_badger demo_prims demo_crypto [] 0 failing_rng ''a'' (JStr ''x'')
      = ([(kv_version_key ''a'' 1, y, None)], Inl ErrRand)"
    unfolding kv_set_from[OF demo_kv_empty n]
    by (simp add: set_from_def write_version_def write_meta_def save_doc_def seal_doc_def json_marshal_def
      enc_entry_def enc_meta_def enc_time_def enc_time_opt_def time_ok_def second_def crypto_encrypt_def
      derive_key_def aesgcm_encrypt_def demo_prims_def rand_read_def db_set_def lift_bdg_def mem_badger_def
      aes_key_ok_def failing_rng_def)
  have "kv_get mem_badger demo_prims demo_crypto [] 5 ''a'' 0 = Inl ErrNotFound"
    using demo_kv_empty[of "''a''"] by (simp add: kv_get_def kv_rep_def)
  with kv_set_failure_invisible[OF mem_laws demo_laws demo_kv_empty n s, of 5 "''a''" 0] s
  show ?thesis by auto
qed

text \<open>
  Set, Delete and Rollback on one path change no answer of Get or Versions for another path.
\<close>

theorem kv_frame:
  assumes "badger_laws B E" and "prims_laws P" and "kv_rep B P c s path x" and "int64_ok (count x + 1)"
    and "q \<noteq> path"
    and "kv_set B P c s t rng path v = (s', r) \<or> kv_delete B P c s t rng path = Inr s'
       \<or> kv_rollback B P c s t rng path i = (s', r)"
  shows "kv_get B P c s' t' q w = kv_get B P c s t' q w \<and> kv_versions B P c s' t' q = kv_versions B P c s t' q"
proof -
  have set: "get_meta B P c s' t' q = get_meta B P c s t' q \<and> get_version B P c s' t' q u = get_version B P c s t' q u"
    if "kv_set B P c s t rng path v = (s', r)" for u v
    using that vault.set_from_other[OF vaultI[OF assms(1,2)] _ assms(5)] kv_set_from[OF assms(3,4)] by simp
  have "get_meta B P c s' t' q = get_meta B P c s t' q \<and> get_version B P c s' t' q u = get_version B P c s t' q u" for u
    using assms(6)
  proof (elim disjE)
    assume "kv_delete B P c s t rng path = Inr s'"
    then show ?thesis by (rule vault.kv_delete_other[OF vaultI[OF assms(1,2)] assms(3) _ assms(5)])
  next
    assume "kv_rollback B P c s t rng path i = (s', r)"
    then show ?thesis using set by (auto simp: kv_rollback_def split: sum.splits)
  qed (rule set)
  then show ?thesis by (intro conjI kv_get_by_records kv_versions_by_records) auto
qed

theorem kv_frame_witness:
  "\<exists>s' r. kv_set mem_badger demo_prims demo_crypto [] 0 demo_rng ''a'' (JStr ''x'') = (s', r)
     \<and> kv_get mem_badger demo_prims demo_crypto s' 5 ''b'' 0 = Inl ErrNotFound"
proof -
  have n: "int64_ok (count None + 1)" by (simp add: int64_ok_def)
  obtain s' r where s: "kv_set mem_badger demo_prims demo_crypto [] 0 demo_rng ''a'' (JStr ''x'') = (s', r)"
    by (cases "kv_set mem_badger demo_prims demo_crypto [] 0 demo_rng ''a'' (JStr ''x'')") auto
  have "kv_get mem_badger demo_prims demo_crypto [] 5 ''b'' 0 = Inl ErrNotFound"
    using demo_kv_empty[of "''b''"] by (simp add: kv_get_def kv_rep_def)
  with kv_frame[OF mem_laws demo_laws demo_kv_empty n _ disjI1[OF s], of "''b''" 5 0] s
  show ?thesis by auto
qed

section \<open>Retention\<close>

text \<open>
  Versions lists, in order and without the values, exactly the last ten versions of a secret
  (all of them while there are no more than ten), whether or not it is deleted.
\<close>

theorem kv_versions_window:
  assumes "kv_rep B P c s path (Some h)"
  shows "\<exists>es. kv_versions B P c s t path = Inr es
    \<and> map kv_version es = [max 1 (int (length (history h)) - 9)..int (length (history h))]
    \<and> length es = min 10 (length (history h))
    \<and> (\<forall>e\<in>set es. kv_value e = JNull \<and> kv_created e = snd (history h ! nat (kv_version e - 1)))"
proof -
  have "map kv_version (map (\<lambda>v. (abs_entry path h v)\<lparr>kv_value := JNull\<rparr>) vs) = vs" for vs
    by (simp add: abs_entry_def comp_def case_prod_unfold Let_def)
  then show ?thesis
    unfolding kv_versions_rep[OF assms]
    by (auto simp: maxVersions_def abs_entry_def Let_def case_prod_unfold intro!: exI conjI)
qed

theorem kv_versions_window_witness:
  "\<exists>s' e es. kv_set mem_badger demo_prims demo_crypto [] 0 demo_rng ''a'' (JStr ''x'') = (s', Inr e)
     \<and> kv_versions mem_badger demo_prims demo_crypto s' 5 ''a'' = Inr es \<and> map kv_version es = [1]"
proof -
  have n: "int64_ok (count None + 1)" by (simp add: int64_ok_def)
  obtain s' e where s: "kv_set mem_badger demo_prims demo_crypto [] 0 demo_rng ''a'' (JStr ''x'') = (s', Inr e)"
    using demo_set_ok[OF demo_kv_empty n, of 0 "''a''" "JStr ''x''"] by (auto simp: time_ok_def second_def)
  have r: "kv_rep mem_badger demo_prims demo_crypto s' ''a'' (Some \<lparr>history = [(JStr ''x'', 0)], removed = None\<rparr>)"
    using demo_vault.kv_set_stored(1)[OF demo_kv_empty n demo_path_ok(1) demo_value_ok(1) s] by (simp add: abs_set_def)
  with kv_versions_window[OF r, of 5] s show ?thesis by auto
qed

text \<open>
  When deletions in the database succeed, a Set that brings the count of versions above ten
  removes the version that leaves the window: its record is gone and Get does not find it.
\<close>

theorem kv_set_prunes:
  assumes "badger_laws B E" and "prims_laws P" and "kv_rep B P c s path x"
    and "int64_ok (count x + 1)" and "utf8_ok path" and "value_ok v"
    and "kv_set B P c s t rng path v = (s', Inr e)"
    and "\<And>s t k. \<exists>s'. bdg_delete B s t k = Inr s'" and "10 \<le> count x"
  shows "kv_get B P c s' t' path (count x - 9) = Inl ErrNotFound"
proof -
  have "get_version B P c s' t' path (count x + 1 - maxVersions) = Inl ErrNotFound"
    using assms(8,9) by (intro vault.kv_prune[OF vaultI[OF assms(1,2)] assms(3-7)]) (auto simp: maxVersions_def)
  moreover note kv_get_rep[OF vault.kv_set_stored(1)[OF vaultI[OF assms(1,2)] assms(3-7)], of t' "count x - 9"]
  ultimately show ?thesis using assms(9) by (simp add: Let_def maxVersions_def algebra_simps)
qed

lemma demo_kv_history:
  "n < 100 \<Longrightarrow> \<exists>s x. kv_rep mem_badger demo_prims demo_crypto s ''a'' x \<and> count x = int n"
proof (induction n)
  case 0
  then show ?case using demo_kv_empty by (intro exI[of _ "[]"] exI[of _ None]) simp
next
  case (Suc n)
  then obtain s x where r: "kv_rep mem_badger demo_prims demo_crypto s ''a'' x" "count x = int n" by auto
  have k: "int64_ok (count x + 1)" using r(2) Suc.prems by (simp add: int64_ok_def)
  obtain s' e where s: "kv_set mem_badger demo_prims demo_crypto s 0 demo_rng ''a'' (JStr ''x'') = (s', Inr e)"
    using demo_set_ok[OF r(1) k, of 0 "JStr ''x''"] by (auto simp: time_ok_def second_def)
  show ?case
    using demo_vault.kv_set_stored(1)[OF r(1) k demo_path_ok(1) demo_value_ok(1) s] r(2)
    by (intro exI[of _ s'] exI[of _ "Some (abs_set x (JStr ''x'') 0)"]) simp
qed

lemma demo_deletes: "\<exists>s'. bdg_delete mem_badger s t k = Inr s'"
  by (simp add: mem_badger_def)

theorem kv_set_prunes_witness:
  "\<exists>s x s' e. kv_rep mem_badger demo_prims demo_crypto s ''a'' x \<and> count x = 10
     \<and> kv_set mem_badger demo_prims demo_crypto s 0 demo_rng ''a'' (JStr ''x'') = (s', Inr e)
     \<and> kv_get mem_badger demo_prims demo_crypto s' 5 ''a'' 1 = Inl ErrNotFound"
proof -
  obtain s x where r: "kv_rep mem_badger demo_prims demo_crypto s ''a'' x" "count x = 10"
    using demo_kv_history[of 10] by auto
  have k: "int64_ok (count x + 1)" by (simp add: r(2) int64_ok_def)
  obtain s' e where s: "kv_set mem_badger demo_prims demo_crypto s 0 demo_rng ''a'' (JStr ''x'') = (s', Inr e)"
    using demo_set_ok[OF r(1) k, of 0 "JStr ''x''"] by (auto simp: time_ok_def second_def)
  show ?thesis
    using kv_set_prunes[OF mem_laws demo_laws r(1) k demo_path_ok(1) demo_value_ok(1) s demo_deletes, of 5] r s
    by auto
qed

section \<open>Deletion and rollback\<close>

text \<open>
  After Delete no version of the secret can be read, the list of its versions stays, and a
  Rollback is refused without a change; the next Set brings the secret back with its earlier
  versions.
\<close>

theorem kv_delete_hides:
  assumes "badger_laws B E" and "prims_laws P" and "kv_rep B P c s path (Some h)" and "utf8_ok path"
    and "kv_delete B P c s t rng path = Inr s'"
  shows "kv_get B P c s' t' path w = Inl (ErrSecretDeleted path)
    \<and> kv_versions B P c s' t' path = kv_versions B P c s t' path
    \<and> kv_rollback B P c s' t' rng' path w = (s', Inl (Wrapped ''rollback'' (ErrSecretDeleted path)))
    \<and> kv_rep B P c s' path (Some (h\<lparr>removed := Some t\<rparr>))"
proof -
  have r: "kv_rep B P c s' path (Some (h\<lparr>removed := Some t\<rparr>))"
    using vault.kv_delete_rep(1)[OF vaultI[OF assms(1,2)] assms(3,4,5)] by auto
  have e: "abs_entry path (h\<lparr>removed := Some t\<rparr>) v = abs_entry path h v" for v by (simp add: abs_entry_def)
  have "kv_get B P c s' t' path w = Inl (ErrSecretDeleted path)"
    using kv_get_rep[OF r, of t' w] by simp
  moreover have "kv_versions B P c s' t' path = kv_versions B P c s t' path"
    unfolding kv_versions_rep[OF r] kv_versions_rep[OF assms(3)] by (simp add: e)
  ultimately show ?thesis using r by (simp add: kv_rollback_def)
qed

lemma demo_delete_ok:
  assumes "kv_rep mem_badger demo_prims demo_crypto s path (Some h)" "time_ok t"
  shows "\<exists>s'. kv_delete mem_badger demo_prims demo_crypto s t demo_rng path = Inr s'"
proof -
  let ?m = "\<lparr>meta_path = path, meta_current = int (length (history h)), meta_deleted = Some t\<rparr>"
  obtain k where m: "enc_meta demo_prims ?m = Some k"
    using assms(2) by (simp add: enc_meta_def enc_time_def enc_time_opt_def)
  obtain s' where "write_meta mem_badger demo_prims demo_crypto s t demo_rng 0 ?m = Inr s'"
    unfolding write_meta_def using demo_save[of _ "enc_meta demo_prims" ?m, OF kv_keys_nonempty(1) m] by blast
  then show ?thesis using kv_repD(1)[OF assms(1), of t] by (simp add: kv_delete_def)
qed

theorem kv_delete_hides_witness:
  "\<exists>s h s'. kv_rep mem_badger demo_prims demo_crypto s ''a'' (Some h)
     \<and> kv_delete mem_badger demo_prims demo_crypto s 0 demo_rng ''a'' = Inr s'
     \<and> kv_get mem_badger demo_prims demo_crypto s' 5 ''a'' 0 = Inl (ErrSecretDeleted ''a'')"
proof -
  obtain s x where r: "kv_rep mem_badger demo_prims demo_crypto s ''a'' x" "count x = 1"
    using demo_kv_history[of 1] by auto
  then obtain h where h: "kv_rep mem_badger demo_prims demo_crypto s ''a'' (Some h)" by (cases x) auto
  obtain s' where d: "kv_delete mem_badger demo_prims demo_crypto s 0 demo_rng ''a'' = Inr s'"
    using demo_delete_ok[OF h, of 0] by (auto simp: time_ok_def second_def)
  show ?thesis using kv_delete_hides[OF mem_laws demo_laws h demo_path_ok(1) d, of 5 0] h d by blast
qed

text \<open>
  A successful Rollback to a kept version of a secret appends a new version with the old
  value; it rewrites no history.
\<close>

theorem kv_rollback_appends:
  assumes "badger_laws B E" and "prims_laws P" and "kv_rep B P c s path (Some h)" and "removed h = None"
    and "int64_ok (count (Some h) + 1)" and "utf8_ok path" and "in_window (count (Some h)) i"
    and "kv_rollback B P c s t rng path i = (s', Inr e)"
  shows "kv_rep B P c s' path (Some (abs_set (Some h) (kv_value (abs_entry path h i)) t))
    \<and> kv_get B P c s' t' path 0 = Inr e \<and> kv_version e = count (Some h) + 1
    \<and> kv_value e = fst (history h ! nat (i - 1))"
proof -
  let ?v = "kv_value (abs_entry path h i)"
  have i: "1 \<le> i" "i \<le> int (length (history h))" using assms(7) by (auto simp: in_window_def)
  have "kv_get B P c s t path i = Inr (abs_entry path h i)"
    using kv_get_rep[OF assms(3), of t i] assms(4,7) by (simp add: in_window_def Let_def)
  then have set: "kv_set B P c s t rng path ?v = (s', Inr e)" using assms(8) by (simp add: kv_rollback_def)
  have vok: "value_ok ?v" using value_ok_nth[OF kv_repD(4)[OF assms(3)] i] .
  note r = vault.kv_set_stored(1)[OF vaultI[OF assms(1,2)] assms(3,5,6) vok set]
    and e = vault.kv_set_stored(2)[OF vaultI[OF assms(1,2)] assms(3,5,6) vok set]
  have "kv_get B P c s' t' path 0 = Inr e"
    using kv_get_rep[OF r, of t' 0] e by (simp add: Let_def maxVersions_def not_less)
  moreover have "kv_version e = count (Some h) + 1" "kv_value e = ?v"
    using e abs_entry_new[of path "Some h" ?v t] by simp_all
  ultimately show ?thesis using r by (simp add: abs_entry_def case_prod_unfold Let_def)
qed

theorem kv_rollback_appends_witness:
  "\<exists>s h s' e. kv_rep mem_badger demo_prims demo_crypto s ''a'' (Some h) \<and> length (history h) = 2
     \<and> kv_rollback mem_badger demo_prims demo_crypto s 0 demo_rng ''a'' 1 = (s', Inr e) \<and> kv_version e = 3"
proof -
  obtain s1 x where x: "kv_rep mem_badger demo_prims demo_crypto s1 ''a'' x" "count x = 1"
    using demo_kv_history[of 1] by auto
  have k1: "int64_ok (count x + 1)" by (simp add: x(2) int64_ok_def)
  obtain s e1 where s1: "kv_set mem_badger demo_prims demo_crypto s1 0 demo_rng ''a'' (JStr ''x'') = (s, Inr e1)"
    using demo_set_ok[OF x(1) k1, of 0 "JStr ''x''"] by (auto simp: time_ok_def second_def)
  let ?h = "abs_set x (JStr ''x'') 0"
  note r = demo_vault.kv_set_stored(1)[OF x(1) k1 demo_path_ok(1) demo_value_ok(1) s1]
  have k: "int64_ok (count (Some ?h) + 1)" by (simp add: x(2) int64_ok_def)
  have w: "in_window (count (Some ?h)) 1" by (simp add: x(2) in_window_def maxVersions_def)
  have "kv_get mem_badger demo_prims demo_crypto s 0 ''a'' 1 = Inr (abs_entry ''a'' ?h 1)"
    using kv_get_rep[OF r, of 0 1] w by (simp add: x(2) in_window_def Let_def)
  moreover obtain s' e where "kv_set mem_badger demo_prims demo_crypto s 0 demo_rng ''a'' (kv_value (abs_entry ''a'' ?h 1)) = (s', Inr e)"
    using demo_set_ok[OF r k, of 0 "kv_value (abs_entry ''a'' ?h 1)"] by (auto simp: time_ok_def second_def)
  ultimately have b: "kv_rollback mem_badger demo_prims demo_crypto s 0 demo_rng ''a'' 1 = (s', Inr e)"
    by (simp add: kv_rollback_def)
  have "int (length (history ?h)) = 2" by (simp add: x(2))
  then have "length (history ?h) = 2" by linarith
  moreover have "kv_version e = 3"
    using kv_rollback_appends[OF mem_laws demo_laws r count_abs_set(2) k demo_path_ok(1) w b, of 0] by (simp add: x(2))
  ultimately show ?thesis using r b by blast
qed

section \<open>Whole runs\<close>

text \<open>One call of the engine that may write, on any path that is valid UTF-8.\<close>

inductive kv_step :: "'s badger \<Rightarrow> prims \<Rightarrow> crypto \<Rightarrow> 's \<Rightarrow> 's \<Rightarrow> bool" for B P c where
  step_set: "utf8_ok path \<Longrightarrow> value_ok v \<Longrightarrow> kv_set B P c s t rng path v = (s', r) \<Longrightarrow> kv_step B P c s s'"
| step_delete: "utf8_ok path \<Longrightarrow> kv_delete B P c s t rng path = Inr s' \<Longrightarrow> kv_step B P c s s'"
| step_rollback: "utf8_ok path \<Longrightarrow> kv_rollback B P c s t rng path i = (s', r) \<Longrightarrow> kv_step B P c s s'"

definition kv_inv :: "'s badger \<Rightarrow> prims \<Rightarrow> crypto \<Rightarrow> nat \<Rightarrow> 's \<Rightarrow> bool" where
  "kv_inv B P c n s \<longleftrightarrow> (\<forall>path. utf8_ok path \<longrightarrow> (\<exists>x. kv_rep B P c s path x \<and> count x \<le> int n))"

context vault
begin

lemma kv_set_inv:
  assumes inv: "kv_inv B P c n s" and "utf8_ok path" "value_ok v" and n: "int64_ok (int n + 1)"
    and set: "kv_set B P c s t rng path v = (s', r)"
  shows "kv_inv B P c (Suc n) s'"
  unfolding kv_inv_def
proof (intro allI impI)
  fix q assume "utf8_ok q"
  then obtain y where y: "kv_rep B P c s q y" "count y \<le> int n" using inv by (auto simp: kv_inv_def)
  obtain x where x: "kv_rep B P c s path x" "count x \<le> int n" using inv assms(2) by (auto simp: kv_inv_def)
  have k: "int64_ok (count x + 1)" using n x(2) by (simp add: int64_ok_def)
  show "\<exists>z. kv_rep B P c s' q z \<and> count z \<le> int (Suc n)"
  proof (cases "q = path")
    case True
    show ?thesis
    proof (cases r)
      case (Inl e)
      then show ?thesis using kv_set_rep[OF x(1) k assms(2,3) set] x(2) True by auto
    next
      case (Inr e)
      then show ?thesis using kv_set_rep[OF x(1) k assms(2,3) set] x(2) True
        by (intro exI[of _ "Some (abs_set x v t)"]) simp
    qed
  next
    case False
    have "set_from B P c s t rng path v (count x + 1) = (s', r)" using set kv_set_from[OF x(1) k] by simp
    note same = set_from_other[OF this False]
    show ?thesis using kv_rep_same[OF y(1)] same y(2) by (intro exI[of _ y]) auto
  qed
qed

lemma kv_delete_inv:
  assumes inv: "kv_inv B P c n s" and "utf8_ok path" and d: "kv_delete B P c s t rng path = Inr s'"
  shows "kv_inv B P c n s'"
  unfolding kv_inv_def
proof (intro allI impI)
  fix q assume "utf8_ok q"
  then obtain y where y: "kv_rep B P c s q y" "count y \<le> int n" using inv by (auto simp: kv_inv_def)
  obtain x where x: "kv_rep B P c s path x" "count x \<le> int n" using inv assms(2) by (auto simp: kv_inv_def)
  show "\<exists>z. kv_rep B P c s' q z \<and> count z \<le> int n"
  proof (cases "q = path")
    case True
    obtain h where "x = Some h" "kv_rep B P c s' path (Some (h\<lparr>removed := Some t\<rparr>))"
      using kv_delete_rep(1)[OF x(1) assms(2) d] by blast
    with True x(2) show ?thesis by (intro exI[of _ "Some (h\<lparr>removed := Some t\<rparr>)"]) simp
  next
    case False
    show ?thesis using kv_rep_same[OF y(1)] kv_delete_other[OF x(1) d False] y(2) by (intro exI[of _ y]) auto
  qed
qed

lemma kv_get_value_ok:
  assumes "kv_rep B P c s path x" "kv_get B P c s t path i = Inr e"
  shows "value_ok (kv_value e)"
proof -
  obtain h where h: "x = Some h" using assms by (cases x) (auto simp: kv_rep_def kv_get_def)
  let ?n = "int (length (history h))"
  define v where "v = (if i = 0 then ?n else i)"
  have v: "1 \<le> v" "v \<le> ?n" "get_version B P c s t path v = Inr e"
    using assms(2) kv_repD(1)[OF assms(1)[unfolded h], of t]
    by (auto simp: kv_get_def v_def Let_def Suc_le_eq split: if_splits)
  then have "e = abs_entry path h v" using kv_repD(5)[OF assms(1)[unfolded h], of v t] by auto
  then show ?thesis using value_ok_nth[OF kv_repD(4)[OF assms(1)[unfolded h]] v(1,2)] by simp
qed

lemma kv_inv_mono: "kv_inv B P c n s \<Longrightarrow> kv_inv B P c (Suc n) s"
  by (fastforce simp: kv_inv_def)

lemma kv_step_inv: "kv_step B P c s s' \<Longrightarrow> int64_ok (int n + 1) \<Longrightarrow> kv_inv B P c n s \<Longrightarrow> kv_inv B P c (Suc n) s'"
proof (induction rule: kv_step.induct)
  case (step_set path v s t rng s' r)
  then show ?case using kv_set_inv by blast
next
  case (step_delete path s t rng s')
  then show ?case using kv_delete_inv kv_inv_mono by blast
next
  case (step_rollback path s t rng i s' r)
  show ?case
  proof (cases "kv_get B P c s t path i")
    case (Inl e)
    then show ?thesis using step_rollback kv_inv_mono by (simp add: kv_rollback_def)
  next
    case (Inr old)
    obtain x where "kv_rep B P c s path x" using step_rollback by (auto simp: kv_inv_def)
    then have "value_ok (kv_value old)" using kv_get_value_ok Inr by blast
    then show ?thesis using step_rollback Inr kv_set_inv by (simp add: kv_rollback_def)
  qed
qed

lemma kv_inv_empty:
  assumes "\<And>k. has_prefix k ''secrets/kv/'' \<Longrightarrow> E s k = None"
  shows "kv_inv B P c 0 s"
proof -
  have "get_meta B P c s t path = Inl ErrNotFound" for t path
    unfolding get_meta_def
    by (rule load_doc_absent[THEN iffD2]) (simp_all add: visible_def assms)
  then show ?thesis by (auto simp: kv_inv_def kv_rep_def int64_ok_def values_ok_def intro!: exI[of _ None])
qed

lemma kv_run_inv:
  assumes "(kv_step B P c ^^ n) s s'" "kv_inv B P c 0 s" "int64_ok (int n)"
  shows "kv_inv B P c n s'"
  using assms
proof (induction n arbitrary: s')
  case (Suc n)
  then obtain s1 where s1: "(kv_step B P c ^^ n) s s1" "kv_step B P c s1 s'" by auto
  have "int64_ok (int n)" "int64_ok (int n + 1)" using Suc.prems(3) by (simp_all add: int64_ok_def)
  with Suc.IH[OF s1(1) Suc.prems(2)] s1(2) show ?case using kv_step_inv by blast
qed simp

end

text \<open>
  Started on a database without secrets, every run of fewer than 2^63 calls of Set, Delete and
  Rollback, failed calls included, leaves at every path a stored form of some history: the
  metadata agrees with the records, each of the last ten versions can be read, and an older
  version either reads as what was written or is not found.
\<close>

theorem kv_reachable:
  assumes "badger_laws B E" and "prims_laws P" and "\<And>k. has_prefix k ''secrets/kv/'' \<Longrightarrow> E s0 k = None"
    and "(kv_step B P c ^^ n) s0 s" and "n < 2 ^ 63" and "utf8_ok path"
  shows "\<exists>x. kv_rep B P c s path x \<and> count x \<le> int n"
proof -
  have "int64_ok (int n)" using assms(5) by (simp add: int64_ok_def)
  then have "kv_inv B P c n s"
    using vault.kv_run_inv[OF vaultI[OF assms(1,2)] assms(4)] vault.kv_inv_empty[OF vaultI[OF assms(1,2)] assms(3)]
    by blast
  then show ?thesis using assms(6) by (simp add: kv_inv_def)
qed

theorem kv_reachable_witness:
  "\<exists>s. (kv_step mem_badger demo_prims demo_crypto ^^ 1) [] s \<and> s \<noteq> []
     \<and> (\<exists>x. kv_rep mem_badger demo_prims demo_crypto s ''a'' x \<and> count x \<le> 1)"
proof -
  have n: "int64_ok (count None + 1)" by (simp add: int64_ok_def)
  obtain s e where s: "kv_set mem_badger demo_prims demo_crypto [] 0 demo_rng ''a'' (JStr ''x'') = (s, Inr e)"
    using demo_set_ok[OF demo_kv_empty n, of 0 "''a''" "JStr ''x''"] by (auto simp: time_ok_def second_def)
  have r: "kv_rep mem_badger demo_prims demo_crypto s ''a'' (Some (abs_set None (JStr ''x'') 0))"
    by (rule demo_vault.kv_set_stored(1)[OF demo_kv_empty n demo_path_ok(1) demo_value_ok(1) s])
  have "s \<noteq> []"
  proof
    assume "s = []"
    then have "get_meta mem_badger demo_prims demo_crypto s 0 ''a'' = Inl ErrNotFound"
      using demo_kv_empty[of "''a''"] by (simp add: kv_rep_def)
    then show False using kv_repD(1)[OF r, of 0] by simp
  qed
  moreover have st: "(kv_step mem_badger demo_prims demo_crypto ^^ 1) [] s"
    using step_set[OF demo_path_ok(1) demo_value_ok(1) s] by auto
  moreover have "\<exists>x. kv_rep mem_badger demo_prims demo_crypto s ''a'' x \<and> count x \<le> 1"
    using kv_reachable[OF mem_laws demo_laws _ st _ demo_path_ok(1)] by simp
  ultimately show ?thesis by blast
qed

section \<open>Retention over runs\<close>

text \<open>
  The versions before the window are gone. This needs that the database deletes when it is told to: Set
  ignores the error of a deletion, and the version that was to be removed then stays readable for good.
\<close>

definition kv_pruned :: "'s badger \<Rightarrow> prims \<Rightarrow> crypto \<Rightarrow> 's \<Rightarrow> string \<Rightarrow> secret option \<Rightarrow> bool" where
  "kv_pruned B P c s path x \<longleftrightarrow> (\<forall>t w. 1 \<le> w \<longrightarrow> w \<le> count x - maxVersions \<longrightarrow>
     get_version B P c s t path w = Inl ErrNotFound)"

definition kv_all_pruned :: "'s badger \<Rightarrow> prims \<Rightarrow> crypto \<Rightarrow> 's \<Rightarrow> bool" where
  "kv_all_pruned B P c s \<longleftrightarrow> (\<forall>path x. utf8_ok path \<longrightarrow> kv_rep B P c s path x \<longrightarrow> kv_pruned B P c s path x)"

lemma kv_rep_count: "kv_rep B P c s path x \<Longrightarrow> kv_rep B P c s path y \<Longrightarrow> count x = count y"
  by (auto simp: kv_rep_def split: option.splits)

lemma kv_pruned_same:
  assumes "kv_pruned B P c s path x" "count y = count x"
    and "\<And>t w. w \<le> count x \<Longrightarrow> get_version B P c s' t path w = get_version B P c s t path w"
  shows "kv_pruned B P c s' path y"
  using assms by (simp add: kv_pruned_def maxVersions_def)

context vault
begin

lemma set_from_untouched:
  assumes "set_from B P c s t rng path v n = (s', r)" "w \<noteq> n" "w \<noteq> n - maxVersions"
  shows "get_version B P c s' t' path w = get_version B P c s t' path w"
proof -
  have f: "get_version B P c s1 t' path w = get_version B P c s0 t' path w"
    if "E s1 = (E s0)(k := y)" "k \<noteq> kv_version_key path w" for s0 s1 k y
    using get_version_frame[OF that] .
  from assms(1) show ?thesis
  proof (cases rule: set_from_cases)
    case (stored s1 y s2 z)
    have d: "delete_version B s2 t path (n - maxVersions) = Inr s' \<Longrightarrow> get_version B P c s' t' path w = get_version B P c s2 t' path w"
      using f[OF delete_version_E, of s2 t path "n - maxVersions" s'] assms(3) by simp
    show ?thesis using f[OF stored(2)] f[OF stored(4)] stored(5) assms(2) d by auto
  qed (use f assms(2) in auto)
qed

lemma kv_set_pruned:
  assumes "kv_rep B P c s path x" "int64_ok (count x + 1)" "utf8_ok path" "value_ok v"
    and "kv_set B P c s t rng path v = (s', r)" "\<And>s t k. \<exists>s'. bdg_delete B s t k = Inr s'"
    and "kv_pruned B P c s path x" "kv_rep B P c s' path z"
  shows "kv_pruned B P c s' path z"
proof -
  have set: "set_from B P c s t rng path v (count x + 1) = (s', r)" using assms(5) kv_set_from[OF assms(1,2)] by simp
  show ?thesis
  proof (cases r)
    case (Inl e)
    then have "kv_rep B P c s' path x" using kv_set_rep[OF assms(1-5)] by simp
    from kv_rep_count[OF assms(8) this] show ?thesis
      by (rule kv_pruned_same[OF assms(7)]) (rule set_from_failed(2)[OF assms(1) set[unfolded Inl]], simp)
  next
    case (Inr e)
    then have "kv_rep B P c s' path (Some (abs_set x v t))" using kv_set_rep[OF assms(1-5)] by simp
    from kv_rep_count[OF assms(8) this] have n: "count z = count x + 1" by simp
    have "get_version B P c s' t' path w = Inl ErrNotFound" if "1 \<le> w" "w \<le> count z - maxVersions" for t' w
    proof (cases "w = count x + 1 - maxVersions")
      case True
      with kv_prune[OF assms(1-4) assms(5)[unfolded Inr] assms(6)] that show ?thesis by simp
    next
      case False
      then have "get_version B P c s t' path w = Inl ErrNotFound" using assms(7) that n by (simp add: kv_pruned_def)
      with set_from_untouched[OF set _ False, of t'] that n show ?thesis by (simp add: maxVersions_def)
    qed
    then show ?thesis by (simp add: kv_pruned_def)
  qed
qed

lemma kv_step_pruned:
  assumes step: "kv_step B P c s s'" and inv: "kv_inv B P c n s" and n: "int64_ok (int n + 1)"
    and del: "\<And>s t k. \<exists>s'. bdg_delete B s t k = Inr s'" and all: "kv_all_pruned B P c s"
  shows "kv_all_pruned B P c s'"
  unfolding kv_all_pruned_def
proof (intro allI impI)
  fix q z assume q: "utf8_ok q" and z: "kv_rep B P c s' q z"
  obtain y where y: "kv_rep B P c s q y" "count y \<le> int n" using inv q by (auto simp: kv_inv_def)
  then have p: "kv_pruned B P c s q y" using all q by (simp add: kv_all_pruned_def)
  have same: "kv_pruned B P c s' q z" if "\<And>t. get_meta B P c s' t q = get_meta B P c s t q" "\<And>t w. get_version B P c s' t q w = get_version B P c s t q w"
    using kv_pruned_same[OF p kv_rep_count[OF z kv_rep_same[OF y(1) that]]] that(2) by blast
  have set: "kv_pruned B P c s' q z" if path: "utf8_ok path" and "value_ok v" "kv_set B P c s t rng path v = (s', r)" for path v t rng r
  proof (cases "q = path")
    case True
    have "int64_ok (count y + 1)" using n y(2) by (simp add: int64_ok_def)
    with kv_set_pruned[OF y(1)] path that del p z True show ?thesis by blast
  next
    case False
    obtain x where x: "kv_rep B P c s path x" "count x \<le> int n" using inv path by (auto simp: kv_inv_def)
    then have "int64_ok (count x + 1)" using n by (simp add: int64_ok_def)
    then have "set_from B P c s t rng path v (count x + 1) = (s', r)" using that kv_set_from[OF x(1)] by simp
    from same[OF set_from_other[OF this False]] show ?thesis .
  qed
  from step show "kv_pruned B P c s' q z"
  proof cases
    case (step_set path v t rng r)
    then show ?thesis by (rule set)
  next
    case (step_delete path t rng)
    obtain x where x: "kv_rep B P c s path x" using inv step_delete(1) by (auto simp: kv_inv_def)
    show ?thesis
    proof (cases "q = path")
      case False
      from kv_delete_other[OF x step_delete(2) False] show ?thesis by (intro same) auto
    next
      case True
      obtain h where h: "y = Some h" "kv_rep B P c s' q (Some (h\<lparr>removed := Some t\<rparr>))"
        using kv_delete_rep(1)[OF y(1) q] step_delete(2) True by blast
      have "write_meta B P c s t rng 0 \<lparr>meta_path = q, meta_current = count y, meta_deleted = Some t\<rparr> = Inr s'"
        using step_delete(2) kv_repD(1)[OF y(1)[unfolded h(1)], of t] h(1) True by (simp add: kv_delete_def)
      then obtain d where "E s' = (E s)(kv_meta_key q := d)" using write_meta_E by fastforce
      from get_version_frame[OF this] kv_rep_count[OF z h(2)] h(1) show ?thesis
        by (intro kv_pruned_same[OF p]) auto
    qed
  next
    case (step_rollback path t rng i r)
    show ?thesis
    proof (cases "kv_get B P c s t path i")
      case (Inl e)
      with step_rollback(2) have "s' = s" by (simp add: kv_rollback_def)
      then show ?thesis by (intro same) simp_all
    next
      case (Inr old)
      obtain x where "kv_rep B P c s path x" using inv step_rollback(1) by (auto simp: kv_inv_def)
      then have "value_ok (kv_value old)" using kv_get_value_ok Inr by blast
      from set[OF step_rollback(1) this] step_rollback(2) Inr show ?thesis by (simp add: kv_rollback_def)
    qed
  qed
qed

lemma kv_run_pruned:
  assumes "(kv_step B P c ^^ n) s s'" "kv_inv B P c 0 s" "int64_ok (int n)"
    and "\<And>s t k. \<exists>s'. bdg_delete B s t k = Inr s'" "kv_all_pruned B P c s"
  shows "kv_all_pruned B P c s'"
  using assms
proof (induction n arbitrary: s')
  case (Suc n)
  then obtain s1 where s1: "(kv_step B P c ^^ n) s s1" "kv_step B P c s1 s'" by auto
  have k: "int64_ok (int n)" "int64_ok (int n + 1)" using Suc.prems(3) by (simp_all add: int64_ok_def)
  note i = kv_run_inv[OF s1(1) Suc.prems(2) k(1)]
  show ?case by (rule kv_step_pruned[OF s1(2) i k(2) Suc.prems(4)]) (use Suc.IH[OF s1(1) Suc.prems(2) k(1)] Suc.prems in blast)
qed simp

end





section \<open>Concurrent writers\<close>

text \<open>
  C23: Set reads the metadata and writes it back without a transaction or a lock. Two calls that
  both read the metadata before either writes are both told they stored the same new version,
  and afterwards the secret is as if the first call had never happened.
\<close>

theorem kv_lost_update:
  assumes "badger_laws B E" and "prims_laws P" and "kv_rep B P c s path x"
    and "int64_ok (count x + 1)" and "utf8_ok path" and "value_ok v" and "value_ok w"
    and "m = \<lparr>meta_path = path, meta_current = count x, meta_deleted = d\<rparr>"
    and "kv_put B P c s t1 rng1 path v m = (s1, Inr e1)"
    and "kv_put B P c s1 t2 rng2 path w m = (s2, Inr e2)"
  shows "kv_version e1 = kv_version e2 \<and> kv_rep B P c s2 path (Some (abs_set x w t2))"
proof -
  have p: "kv_put B P c s t rng path u m = set_from B P c s t rng path u (count x + 1)" for s t rng u
    using kv_put_from[OF assms(4)] assms(8) by simp
  have r1: "kv_rep B P c s1 path (Some (abs_set x v t1)) \<and> e1 = abs_entry path (abs_set x v t1) (count x + 1)"
    using vault.set_from_rep[OF vaultI[OF assms(1,2)] assms(3-6) assms(9)[unfolded p]] by simp
  have vs: "values_ok x" using assms(3) by (simp add: kv_rep_def)
  have kept: "get_version B P c s1 t' path u = Inr (abs_entry path h u)
      \<or> u \<le> count x + 1 - maxVersions \<and> get_version B P c s1 t' path u = Inl ErrNotFound"
    if "x = Some h" "1 \<le> u" "u \<le> count x" for t' u h
    using kv_repD(5)[OF conjunct1[OF r1], of u t'] abs_entry_old[OF that, of path v t1] that(2,3) by simp
  have "kv_rep B P c s2 path (Some (abs_set x w t2)) \<and> e2 = abs_entry path (abs_set x w t2) (count x + 1)"
    by (rule vault.set_from_stored[OF vaultI[OF assms(1,2)] assms(4,5,7) vs kept assms(10)[unfolded p]])
  with r1 show ?thesis using abs_entry_new[of path x] by simp
qed

theorem kv_lost_update_witness:
  "\<exists>s1 s2 e1 e2. kv_put mem_badger demo_prims demo_crypto [] 0 demo_rng ''a'' (JStr ''x'')
       \<lparr>meta_path = ''a'', meta_current = 0, meta_deleted = None\<rparr> = (s1, Inr e1)
     \<and> kv_put mem_badger demo_prims demo_crypto s1 1 demo_rng ''a'' (JStr ''y'')
       \<lparr>meta_path = ''a'', meta_current = 0, meta_deleted = None\<rparr> = (s2, Inr e2)
     \<and> kv_version e1 = kv_version e2
     \<and> kv_rep mem_badger demo_prims demo_crypto s2 ''a'' (Some \<lparr>history = [(JStr ''y'', 1)], removed = None\<rparr>)"
proof -
  let ?m = "\<lparr>meta_path = ''a'', meta_current = 0, meta_deleted = None\<rparr>"
  have n: "int64_ok (count None + 1)" by (simp add: int64_ok_def)
  have put: "\<exists>s' e. kv_put mem_badger demo_prims demo_crypto s t demo_rng ''a'' v ?m = (s', Inr e)"
    if t: "time_ok t" for s t v
  proof -
    let ?e = "\<lparr>kv_path = ''a'', kv_version = 1, kv_value = v, kv_created = t, kv_deleted = None\<rparr>"
    let ?m1 = "\<lparr>meta_path = ''a'', meta_current = 1, meta_deleted = None\<rparr>"
    obtain j k where e: "enc_entry demo_prims ?e = Some j" and m: "enc_meta demo_prims ?m1 = Some k"
      using t by (simp add: enc_entry_def enc_meta_def enc_time_def enc_time_opt_def)
    obtain s1 where "write_version mem_badger demo_prims demo_crypto s t demo_rng 0 ?e = Inr s1"
      unfolding write_version_def using demo_save[of _ "enc_entry demo_prims" ?e, OF kv_keys_nonempty(2) e] by blast
    moreover obtain s2 where "write_meta mem_badger demo_prims demo_crypto s1 t demo_rng 1 ?m1 = Inr s2"
      unfolding write_meta_def using demo_save[of _ "enc_meta demo_prims" ?m1, OF kv_keys_nonempty(1) m] by blast
    ultimately show ?thesis
      using kv_put_from[of 0 mem_badger demo_prims demo_crypto s t demo_rng "''a''" v None] n
      by (simp add: set_from_def)
  qed
  obtain s1 e1 where p1: "kv_put mem_badger demo_prims demo_crypto [] 0 demo_rng ''a'' (JStr ''x'') ?m = (s1, Inr e1)"
    using put[of 0 "[]" "JStr ''x''"] by (auto simp: time_ok_def second_def)
  obtain s2 e2 where p2: "kv_put mem_badger demo_prims demo_crypto s1 1 demo_rng ''a'' (JStr ''y'') ?m = (s2, Inr e2)"
    using put[of 1 s1 "JStr ''y''"] by (auto simp: time_ok_def second_def)
  have m: "?m = \<lparr>meta_path = ''a'', meta_current = count None, meta_deleted = None\<rparr>" by simp
  show ?thesis
    using kv_lost_update[OF mem_laws demo_laws demo_kv_empty n demo_path_ok(1) demo_value_ok m p1 p2] p1 p2
    by (intro exI[of _ s1] exI[of _ s2] exI[of _ e1] exI[of _ e2]) (simp add: abs_set_def)
qed

section \<open>Paths that are not UTF-8\<close>


lemma meta_sanitized:
  assumes "prims_laws P" "time_opt_ok (meta_deleted m)" "int64_ok (meta_current m)" "json_marshal (enc_meta P) m = Inr data"
  shows "json_unmarshal (dec_meta P) data = Inr (m\<lparr>meta_path := sanitize (meta_path m)\<rparr>)"
proof -
  have f: "sanitize ''path'' = ''path''" "sanitize ''current_version'' = ''current_version''"
    "sanitize ''deleted_at'' = ''deleted_at''"
    by (simp_all add: sanitize_id utf8_ok_all_ascii is_ascii_def)
  have t: "sanitize (time_format P t) = time_format P t" for t
    using prims_laws.time_text[OF assms(1)] by (simp add: sanitize_id)
  obtain j where j: "enc_meta P m = Some j" "data = json_print j"
    using assms(4) by (auto simp: json_marshal_def split: option.splits)
  have "json_nums_ok j" "json_depth j \<le> max_depth"
    using j(1) by (auto simp: enc_meta_def enc_time_opt_def enc_time_def max_depth_def split: option.splits if_splits)
  then have "json_parse data = Some (json_sanitize j)" using j(2) by (simp add: json_parse_sanitized)
  moreover have "dec_meta P (json_sanitize j) = Some (m\<lparr>meta_path := sanitize (meta_path m)\<rparr>)"
    using j(1) assms(2,3)
    by (auto simp: enc_meta_def enc_time_opt_def enc_time_def dec_meta_def f t enc_int_def dec_int_def
        dec_time_ptr_def dec_time_def parse_int64_itoa prims_laws.time_round_trip[OF assms(1)]
        split: option.splits if_splits)
  ultimately show ?thesis by (simp add: json_unmarshal_def)
qed

context vault
begin

lemma get_meta_after_write:
  assumes "write_meta B P c s t rng i m = Inr s'" "int64_ok (meta_current m)"
  shows "get_meta B P c s' t' (meta_path m) = Inr (m\<lparr>meta_path := sanitize (meta_path m)\<rparr>)"
proof -
  obtain data sealed where d: "json_marshal (enc_meta P) m = Inr data"
      "crypto_encrypt P c rng i (kv_meta_key (meta_path m)) data = Inr sealed"
      "db_set B s t (kv_meta_key (meta_path m)) sealed = Inr s'"
    using assms(1) by (auto simp: write_meta_def save_doc_def seal_doc_def split: sum.splits)
  have "json_unmarshal (dec_meta P) data = Inr (m\<lparr>meta_path := sanitize (meta_path m)\<rparr>)"
    using write_meta_time[OF assms(1)] assms(2) d(1) by (intro meta_sanitized) unfold_locales
  then show ?thesis
    using d db.get_after_set[OF _ d(3)] crypto_round_trip[OF d(2)] by (simp add: get_meta_def load_doc_def)
qed

lemma kv_invalid_path:
  assumes "get_meta B P c s t path = Inr m" "meta_path m \<noteq> path" "kv_delete B P c s t rng path = Inr s'"
  shows "kv_get B P c s' t path w = kv_get B P c s t path w"
proof -
  have "write_meta B P c s t rng 0 (m\<lparr>meta_deleted := Some t\<rparr>) = Inr s'"
    using assms(1,3) by (simp add: kv_delete_def)
  then obtain y where E: "E s' = (E s)(kv_meta_key (meta_path m) := y)" using write_meta_E by fastforce
  have "get_meta B P c s' t path = get_meta B P c s t path"
    using get_meta_frame[OF E] assms(2) by simp
  moreover have "get_version B P c s' t path u = get_version B P c s t path u" for u
    using get_version_frame[OF E] by simp
  ultimately show ?thesis by (intro kv_get_by_records) auto
qed

end

text \<open>
  The path inside the metadata record comes back from JSON with its invalid bytes replaced,
  and the metadata is written back under that path. On a path that is not valid UTF-8 a Delete
  therefore reports success and deletes nothing: the secret reads as before.
\<close>

theorem kv_invalid_path_delete:
  assumes "badger_laws B E" and "prims_laws P" and "get_meta B P c s t path = Inl ErrNotFound"
    and "kv_set B P c s t rng path v = (s1, Inr e)" and "sanitize path \<noteq> path"
    and "kv_delete B P c s1 t' rng' path = Inr s2"
  shows "kv_get B P c s2 t' path w = kv_get B P c s1 t' path w"
proof -
  have one: "int64_ok (0 + 1)" by (simp add: int64_ok_def)
  have "set_from B P c s t rng path v 1 = (s1, Inr e)"
    using assms(3,4) kv_put_from[OF one, of B P c s t rng path v None] by (simp add: kv_set_def)
  then obtain s0 where "write_meta B P c s0 t rng 1 \<lparr>meta_path = path, meta_current = 1, meta_deleted = None\<rparr> = Inr s1"
    by (auto simp: set_from_def Let_def maxVersions_def split: sum.splits if_splits)
  then have "get_meta B P c s1 t' path = Inr \<lparr>meta_path = sanitize path, meta_current = 1, meta_deleted = None\<rparr>"
    using vault.get_meta_after_write[OF vaultI[OF assms(1,2)], of c s0 t rng 1 _ s1 t'] one by fastforce
  then show ?thesis
    using vault.kv_invalid_path[OF vaultI[OF assms(1,2)] _ _ assms(6)] assms(5) by simp
qed

section \<open>Listing\<close>

text \<open>
  List shows a stored secret as a directory entry of its parent (its records lie one level
  below its path), and goes on showing it after its deletion.
\<close>

theorem kv_list_shows:
  assumes "badger_laws B E" and "prims_laws P" and "kv_rep B P c s (parent @ ''/'' @ name) (Some h)"
    and "CHR ''/'' \<notin> set name" and "\<not> has_suffix (''secrets/kv/'' @ parent) ''/''"
  shows "\<exists>ks. kv_list B s t parent = Inr ks \<and> ''secrets/kv/'' @ parent @ ''/'' @ name @ ''/'' \<in> set ks"
proof -
  let ?key = "kv_meta_key (parent @ ''/'' @ name)" and ?p = "(''secrets/kv/'' @ parent) @ ''/''"
  have sl: "slashed (''secrets/kv/'' @ parent) = ?p" using assms(5) by (simp add: slashed_def)
  have k: "?key = ?p @ name @ ''/__meta''" by (simp add: kv_meta_key_def)
  have "visible (E s) t ?key \<noteq> None"
    using kv_repD(1)[OF assms(3), of t] vault.load_doc_absent[OF vaultI[OF assms(1,2)], of ?key c "dec_meta P" s t]
    by (auto simp: get_meta_def)
  moreover have "takeWhile (\<lambda>x. x \<noteq> CHR ''/'') (name @ ''/__meta'') = name"
    using assms(4) by (intro takeWhile_append_all) auto
  then have "child_of ?p ?key = ?p @ name @ ''/''" unfolding k by (simp add: child_of_def)
  moreover have "has_prefix ?key ?p" unfolding k by (rule has_prefix_append)
  ultimately have "?p @ name @ ''/'' \<in> child_of ?p ` {k. has_prefix k ?p \<and> visible (E s) t k \<noteq> None}"
    by (intro image_eqI[of _ _ ?key]) simp_all
  note in_children = this
  obtain ks where ks: "db_list_direct B s t (''secrets/kv/'' @ parent) = Inr ks"
      "set ks = child_of ?p ` {k. has_prefix k ?p \<and> visible (E s) t k \<noteq> None}"
    using badger_laws.list_direct_children[OF assms(1), of s t "''secrets/kv/'' @ parent"] unfolding sl by blast
  have e: "''secrets/kv/'' @ parent @ ''/'' @ name @ ''/'' = ?p @ name @ ''/''" by simp
  show ?thesis unfolding kv_list_def e using ks(1) in_children[folded ks(2)] by blast
qed

theorem kv_list_shows_witness:
  "\<exists>s h ks. kv_rep mem_badger demo_prims demo_crypto s (''app'' @ ''/'' @ ''db'') (Some h)
     \<and> kv_list mem_badger s 5 ''app'' = Inr ks \<and> ''secrets/kv/app/db/'' \<in> set ks"
proof -
  have n: "int64_ok (count None + 1)" by (simp add: int64_ok_def)
  have p: "utf8_ok (''app'' @ ''/'' @ ''db'')" by (simp add: utf8_ok_all_ascii is_ascii_def)
  obtain s e where s: "kv_set mem_badger demo_prims demo_crypto [] 0 demo_rng (''app'' @ ''/'' @ ''db'') (JStr ''x'') = (s, Inr e)"
    using demo_set_ok[OF demo_kv_empty n, of 0 "''app'' @ ''/'' @ ''db''" "JStr ''x''"] by (auto simp: time_ok_def second_def)
  have r: "kv_rep mem_badger demo_prims demo_crypto s (''app'' @ ''/'' @ ''db'') (Some (abs_set None (JStr ''x'') 0))"
    by (rule demo_vault.kv_set_stored(1)[OF demo_kv_empty n p demo_value_ok(1) s])
  have "\<exists>ks. kv_list mem_badger s 5 ''app'' = Inr ks \<and> ''secrets/kv/'' @ ''app'' @ ''/'' @ ''db'' @ ''/'' \<in> set ks"
    by (rule kv_list_shows[OF mem_laws demo_laws r]) (simp_all add: has_suffix_def)
  with r show ?thesis by auto
qed

theorem kv_invalid_path_delete_witness:
  "\<exists>s1 e s2. kv_set mem_badger demo_prims demo_crypto [] 0 demo_rng [CHR 0xFF] (JStr ''x'') = (s1, Inr e)
     \<and> kv_delete mem_badger demo_prims demo_crypto s1 1 demo_rng [CHR 0xFF] = Inr s2
     \<and> kv_get mem_badger demo_prims demo_crypto s2 1 [CHR 0xFF] 0 = kv_get mem_badger demo_prims demo_crypto s1 1 [CHR 0xFF] 0"
proof -
  let ?p = "[CHR 0xFF]"
  have n: "int64_ok (count None + 1)" by (simp add: int64_ok_def)
  have z: "get_meta mem_badger demo_prims demo_crypto [] 0 ?p = Inl ErrNotFound"
    using demo_kv_empty[of ?p] by (simp add: kv_rep_def)
  have san: "sanitize ?p \<noteq> ?p" by code_simp
  obtain s1 e where s: "kv_set mem_badger demo_prims demo_crypto [] 0 demo_rng ?p (JStr ''x'') = (s1, Inr e)"
    using demo_set_ok[OF demo_kv_empty n, of 0 ?p "JStr ''x''"] by (auto simp: time_ok_def second_def)
  have "set_from mem_badger demo_prims demo_crypto [] 0 demo_rng ?p (JStr ''x'') 1 = (s1, Inr e)"
    using s kv_set_from[OF demo_kv_empty n, of 0 demo_rng ?p "JStr ''x''"] by simp
  then obtain s0 where "write_meta mem_badger demo_prims demo_crypto s0 0 demo_rng 1 \<lparr>meta_path = ?p, meta_current = 1, meta_deleted = None\<rparr> = Inr s1"
    by (auto simp: set_from_def Let_def maxVersions_def split: sum.splits if_splits)
  then have m: "get_meta mem_badger demo_prims demo_crypto s1 1 ?p = Inr \<lparr>meta_path = sanitize ?p, meta_current = 1, meta_deleted = None\<rparr>"
    using demo_vault.get_meta_after_write[of s0 0 demo_rng 1 _ s1 1] n by fastforce
  let ?m = "\<lparr>meta_path = sanitize ?p, meta_current = 1, meta_deleted = Some (1::int)\<rparr>"
  obtain k where k: "enc_meta demo_prims ?m = Some k"
    by (simp add: enc_meta_def enc_time_def enc_time_opt_def time_ok_def second_def)
  obtain s2 where "write_meta mem_badger demo_prims demo_crypto s1 1 demo_rng 0 ?m = Inr s2"
    unfolding write_meta_def using demo_save[of _ "enc_meta demo_prims" ?m, OF kv_keys_nonempty(1) k] by blast
  then have d: "kv_delete mem_badger demo_prims demo_crypto s1 1 demo_rng ?p = Inr s2"
    using m by (simp add: kv_delete_def)
  show ?thesis using kv_invalid_path_delete[OF mem_laws demo_laws z s san d, of 0] s d by blast
qed

end
