(* ===== verification/Transit.thy ===== *)
theory Transit
  imports Records
begin

text \<open>
  internal/secrets/transit.go: named encryption keys with versions. A key is one record under
  \<open>secrets/transit/<name>\<close>; ciphertexts carry the version they were made with.
\<close>

section \<open>Records\<close>

record transit_version =
  tv_version :: int
  tv_key :: bytes
  tv_created :: time

record transit_meta =
  tm_name :: string
  tm_current :: int
  tm_versions :: "transit_version list"

definition enc_tv :: "prims \<Rightarrow> transit_version \<Rightarrow> json option" where
  "enc_tv P v = map_option (\<lambda>created. JObj [(''version'', enc_int (tv_version v)),
     (''key'', enc_bytes (tv_key v)), (''created_at'', created)]) (enc_time P (tv_created v))"

definition dec_tv :: "prims \<Rightarrow> json \<Rightarrow> transit_version option" where
  "dec_tv P j = (case members j of None \<Rightarrow> None | Some ms \<Rightarrow>
     (case (obj_get ''version'' dec_int 0 ms, obj_get ''key'' dec_bytes [] ms,
            obj_get ''created_at'' (dec_time P) zero_time ms) of
        (Some version, Some key, Some created) \<Rightarrow>
          Some \<lparr>tv_version = version, tv_key = key, tv_created = created\<rparr>
      | _ \<Rightarrow> None))"

fun enc_all :: "('a \<Rightarrow> json option) \<Rightarrow> 'a list \<Rightarrow> json list option" where
  "enc_all enc [] = Some []"
| "enc_all enc (x # xs) = (case (enc x, enc_all enc xs) of
     (Some j, Some js) \<Rightarrow> Some (j # js) | _ \<Rightarrow> None)"

fun dec_all :: "(json \<Rightarrow> 'a option) \<Rightarrow> json list \<Rightarrow> 'a list option" where
  "dec_all dec [] = Some []"
| "dec_all dec (j # js) = (case (dec j, dec_all dec js) of
     (Some x, Some xs) \<Rightarrow> Some (x # xs) | _ \<Rightarrow> None)"

definition dec_list :: "(json \<Rightarrow> 'a option) \<Rightarrow> json \<Rightarrow> 'a list \<Rightarrow> 'a list option" where
  "dec_list dec j z = (case j of JArr js \<Rightarrow> dec_all dec js | JNull \<Rightarrow> Some [] | _ \<Rightarrow> None)"

definition enc_tm :: "prims \<Rightarrow> transit_meta \<Rightarrow> json option" where
  "enc_tm P m = map_option (\<lambda>versions. JObj [(''name'', JStr (tm_name m)),
     (''current_version'', enc_int (tm_current m)), (''versions'', JArr versions)])
     (enc_all (enc_tv P) (tm_versions m))"

definition dec_tm :: "prims \<Rightarrow> json \<Rightarrow> transit_meta option" where
  "dec_tm P j = (case members j of None \<Rightarrow> None | Some ms \<Rightarrow>
     (case (obj_get ''name'' dec_str [] ms, obj_get ''current_version'' dec_int 0 ms,
            obj_get ''versions'' (dec_list (dec_tv P)) [] ms) of
        (Some name, Some current, Some versions) \<Rightarrow>
          Some \<lparr>tm_name = name, tm_current = current, tm_versions = versions\<rparr>
      | _ \<Rightarrow> None))"

definition transit_key :: "string \<Rightarrow> string" where
  "transit_key name = ''secrets/transit/'' @ name"

definition load_transit ::
  "'s badger \<Rightarrow> prims \<Rightarrow> crypto \<Rightarrow> 's \<Rightarrow> time \<Rightarrow> string \<Rightarrow> err + transit_meta" where
  "load_transit B P c s t name = (case load_doc B P c (dec_tm P) s t (transit_key name) of
     Inl e \<Rightarrow> if is_not_found e then Inl (ErrTransitNotFound name) else Inl e
   | Inr m \<Rightarrow> Inr m)"

definition save_transit ::
  "'s badger \<Rightarrow> prims \<Rightarrow> crypto \<Rightarrow> 's \<Rightarrow> time \<Rightarrow> rng \<Rightarrow> nat \<Rightarrow> transit_meta \<Rightarrow> err + 's" where
  "save_transit B P c s t rng i m = save_doc B P c (enc_tm P) s t rng i (transit_key (tm_name m)) m"

section \<open>Versioned ciphertexts\<close>

fun key_version :: "transit_version list \<Rightarrow> int \<Rightarrow> transit_version option" where
  "key_version [] v = None"
| "key_version (x # xs) v = (if tv_version x = v then Some x else key_version xs v)"

definition current_key_version :: "transit_meta \<Rightarrow> transit_version option" where
  "current_key_version m = key_version (tm_versions m) (tm_current m)"

definition parse_vault :: "string \<Rightarrow> err + int \<times> string" where
  "parse_vault ct = (case split_n ct (CHR '':'') 3 of
     [a, b, encoded] \<Rightarrow>
       if a \<noteq> ''vault'' then Inl ErrCiphertextFormat
       else (case sscanf_v b of None \<Rightarrow> Inl (ErrCiphertextVersion b) | Some v \<Rightarrow> Inr (v, encoded))
   | _ \<Rightarrow> Inl ErrCiphertextFormat)"

definition format_vault :: "int \<Rightarrow> string \<Rightarrow> string" where
  "format_vault v encoded = ''vault:v'' @ itoa v @ '':'' @ encoded"

definition aesgcm_encrypt_bytes :: "prims \<Rightarrow> rng \<Rightarrow> nat \<Rightarrow> bytes \<Rightarrow> bytes \<Rightarrow> err + bytes" where
  "aesgcm_encrypt_bytes P rng i key plaintext = (case aesgcm_encrypt P rng i key plaintext of
     Inl e \<Rightarrow> Inl e | Inr (ct, nonce) \<Rightarrow> Inr (nonce @ ct))"

definition aesgcm_decrypt_bytes :: "prims \<Rightarrow> bytes \<Rightarrow> bytes \<Rightarrow> err + bytes" where
  "aesgcm_decrypt_bytes P key data =
     (if \<not> aes_key_ok key then Inl ErrCipherKey
      else if length data < nonce_len then Inl ErrCiphertextTooShort
      else no_panic (aesgcm_decrypt P key (drop nonce_len data) (take nonce_len data)))"

section \<open>Operations\<close>

text \<open>Draw 0 is the key, draw 1 the nonce of the record.\<close>

definition transit_create ::
  "'s badger \<Rightarrow> prims \<Rightarrow> crypto \<Rightarrow> 's \<Rightarrow> time \<Rightarrow> rng \<Rightarrow> string \<Rightarrow> err + 's" where
  "transit_create B P c s t rng name = (case load_transit B P c s t name of
     Inr _ \<Rightarrow> Inl (ErrTransitExists name)
   | Inl _ \<Rightarrow> (case rand_read rng 0 32 of
        Inl e \<Rightarrow> Inl e
      | Inr key \<Rightarrow> save_transit B P c s t rng 1 \<lparr>tm_name = name, tm_current = 1,
          tm_versions = [\<lparr>tv_version = 1, tv_key = key, tv_created = t\<rparr>]\<rparr>))"

text \<open>Rotate after its read of the record: a new version at the end, and the whole record written back.\<close>

definition transit_extend ::
  "'s badger \<Rightarrow> prims \<Rightarrow> crypto \<Rightarrow> 's \<Rightarrow> time \<Rightarrow> rng \<Rightarrow> transit_meta \<Rightarrow> err + 's" where
  "transit_extend B P c s t rng m = (case rand_read rng 0 32 of
     Inl e \<Rightarrow> Inl e
   | Inr key \<Rightarrow>
      (let current = wrap64 (tm_current m + 1) in
       save_transit B P c s t rng 1 (m\<lparr>tm_current := current, tm_versions := tm_versions m @
         [\<lparr>tv_version = current, tv_key = key, tv_created = t\<rparr>]\<rparr>)))"

definition transit_rotate ::
  "'s badger \<Rightarrow> prims \<Rightarrow> crypto \<Rightarrow> 's \<Rightarrow> time \<Rightarrow> rng \<Rightarrow> string \<Rightarrow> err + 's" where
  "transit_rotate B P c s t rng name = (case load_transit B P c s t name of
     Inl e \<Rightarrow> Inl e | Inr m \<Rightarrow> transit_extend B P c s t rng m)"

text \<open>Encrypt reads a field of the current version without asking whether there is one.\<close>

definition transit_encrypt ::
  "'s badger \<Rightarrow> prims \<Rightarrow> crypto \<Rightarrow> 's \<Rightarrow> time \<Rightarrow> rng \<Rightarrow> string \<Rightarrow> bytes \<Rightarrow> (err + string) outcome" where
  "transit_encrypt B P c s t rng name plaintext = (case load_transit B P c s t name of
     Inl e \<Rightarrow> Done (Inl e)
   | Inr m \<Rightarrow> (case current_key_version m of
        None \<Rightarrow> Panic ''invalid memory address or nil pointer dereference''
      | Some kv \<Rightarrow> (case aesgcm_encrypt_bytes P rng 0 (tv_key kv) plaintext of
           Inl e \<Rightarrow> Done (Inl e)
         | Inr ct \<Rightarrow> Done (Inr (format_vault (tv_version kv) (std_encode ct))))))"

definition transit_decrypt ::
  "'s badger \<Rightarrow> prims \<Rightarrow> crypto \<Rightarrow> 's \<Rightarrow> time \<Rightarrow> string \<Rightarrow> string \<Rightarrow> err + bytes" where
  "transit_decrypt B P c s t name ciphertext = (case parse_vault ciphertext of
     Inl e \<Rightarrow> Inl e
   | Inr (version, encoded) \<Rightarrow> (case load_transit B P c s t name of
        Inl e \<Rightarrow> Inl e
      | Inr m \<Rightarrow> (case key_version (tm_versions m) version of
           None \<Rightarrow> Inl (ErrTransitVersion version name)
         | Some kv \<Rightarrow> (case b64_decode encoded of
              None \<Rightarrow> Inl ErrCiphertextEncoding
            | Some ct \<Rightarrow> aesgcm_decrypt_bytes P (tv_key kv) ct))))"

definition transit_info ::
  "'s badger \<Rightarrow> prims \<Rightarrow> crypto \<Rightarrow> 's \<Rightarrow> time \<Rightarrow> string \<Rightarrow> err + transit_meta" where
  "transit_info B P c s t name = (case load_transit B P c s t name of
     Inl e \<Rightarrow> Inl e
   | Inr m \<Rightarrow> Inr \<lparr>tm_name = tm_name m, tm_current = tm_current m, tm_versions =
       map (\<lambda>v. \<lparr>tv_version = tv_version v, tv_key = [], tv_created = tv_created v\<rparr>) (tm_versions m)\<rparr>)"

section \<open>Codec\<close>

definition tv_ok :: "transit_version \<Rightarrow> bool" where
  "tv_ok v \<longleftrightarrow> int64_ok (tv_version v) \<and> time_ok (tv_created v)"

definition tm_ok :: "transit_meta \<Rightarrow> bool" where
  "tm_ok m \<longleftrightarrow> utf8_ok (tm_name m) \<and> int64_ok (tm_current m) \<and> list_all tv_ok (tm_versions m)"

lemma transit_field_names [simp]:
  "utf8_ok ''name''" "utf8_ok ''current_version''" "utf8_ok ''versions''" "utf8_ok ''version''"
  "utf8_ok ''key''" "utf8_ok ''created_at''"
  by (simp_all add: utf8_ok_all_ascii is_ascii_def)

lemma fold_max_small: "\<forall>x\<in>set xs. x \<le> n \<Longrightarrow> m \<le> n \<Longrightarrow> fold max xs m \<le> (n :: nat)"
  by (induction xs arbitrary: m) auto

context prims_laws
begin

lemma enc_tv_ok:
  "tv_ok v \<Longrightarrow> \<exists>j. enc_tv P v = Some j \<and> dec_tv P j = Some v \<and> json_nums_ok j \<and> json_utf8 j \<and> json_depth j \<le> 1"
  by (auto simp: tv_ok_def enc_tv_def dec_tv_def enc_time_ok time_text)

lemma enc_all_tv:
  "list_all tv_ok vs \<Longrightarrow> \<exists>js. enc_all (enc_tv P) vs = Some js \<and> dec_all (dec_tv P) js = Some vs \<and>
     (\<forall>j\<in>set js. json_nums_ok j \<and> json_utf8 j \<and> json_depth j \<le> 1)"
proof (induction vs)
  case (Cons v vs)
  then show ?case using enc_tv_ok[of v] by auto
qed simp

end

sublocale prims_laws \<subseteq> transit: codec "enc_tm P" "dec_tm P" tm_ok
proof
  fix m assume "tm_ok m"
  then obtain js where js: "enc_all (enc_tv P) (tm_versions m) = Some js" "dec_all (dec_tv P) js = Some (tm_versions m)"
      "\<forall>j\<in>set js. json_nums_ok j \<and> json_utf8 j \<and> json_depth j \<le> 1" and m: "utf8_ok (tm_name m)" "int64_ok (tm_current m)"
    using enc_all_tv by (auto simp: tm_ok_def)
  have "fold max (map json_depth js) 0 \<le> 1" using js(3) by (intro fold_max_small) auto
  then show "\<exists>j. enc_tm P m = Some j \<and> json_ok j \<and> dec_tm P j = Some m"
    using js m by (simp add: enc_tm_def dec_tm_def dec_list_def json_ok_def max_depth_def list_all_iff)
qed

sublocale vault \<subseteq> tk: doc_store "load_doc B P c (dec_tm P)" "save_doc B P c (enc_tm P)" tm_ok E
  by (rule doc_store_codec) (rule transit.codec_axioms)

section \<open>The abstract key\<close>

text \<open>A transit key is the sequence of its key bytes with their creation times, first version first.\<close>

type_synonym key_ring = "(bytes \<times> time) list"

fun ring_from :: "int \<Rightarrow> key_ring \<Rightarrow> transit_version list" where
  "ring_from n [] = []"
| "ring_from n ((k, t) # ks) = \<lparr>tv_version = n, tv_key = k, tv_created = t\<rparr> # ring_from (n + 1) ks"

definition ring_meta :: "string \<Rightarrow> key_ring \<Rightarrow> transit_meta" where
  "ring_meta name ks = \<lparr>tm_name = name, tm_current = int (length ks), tm_versions = ring_from 1 ks\<rparr>"

definition ring_ok :: "key_ring \<Rightarrow> bool" where
  "ring_ok ks \<longleftrightarrow> ks \<noteq> [] \<and> int64_ok (int (length ks)) \<and> list_all (\<lambda>(k, t). length k = 32 \<and> time_ok t) ks"

definition transit_rep ::
  "'s badger \<Rightarrow> prims \<Rightarrow> crypto \<Rightarrow> 's \<Rightarrow> string \<Rightarrow> key_ring option \<Rightarrow> bool" where
  "transit_rep B P c s name x \<longleftrightarrow> (case x of
     None \<Rightarrow> \<forall>t. load_transit B P c s t name = Inl (ErrTransitNotFound name)
   | Some ks \<Rightarrow> ring_ok ks \<and> (\<forall>t. load_transit B P c s t name = Inr (ring_meta name ks)))"

lemma ring_from_append: "ring_from n (ks @ ls) = ring_from n ks @ ring_from (n + int (length ks)) ls"
  by (induction ks arbitrary: n) (auto simp: algebra_simps)

lemma key_version_ring:
  "key_version (ring_from n ks) v = (if n \<le> v \<and> v < n + int (length ks)
     then Some \<lparr>tv_version = v, tv_key = fst (ks ! nat (v - n)), tv_created = snd (ks ! nat (v - n))\<rparr> else None)"
proof (induction ks arbitrary: n)
  case (Cons kt ks)
  obtain k t where "kt = (k, t)" by (cases kt)
  moreover have "nat (v - n) = Suc (nat (v - (n + 1)))" if "n < v" using that by simp
  ultimately show ?case using Cons.IH[of "n + 1"] by auto
qed simp

lemma tv_ok_ring:
  "list_all (\<lambda>(k, t). length k = 32 \<and> time_ok t) ks \<Longrightarrow> (\<And>i. n \<le> i \<Longrightarrow> i < n + int (length ks) \<Longrightarrow> int64_ok i) \<Longrightarrow>
   list_all tv_ok (ring_from n ks)"
proof (induction ks arbitrary: n)
  case (Cons kt ks)
  obtain k t where kt: "kt = (k, t)" by (cases kt)
  have "list_all tv_ok (ring_from (n + 1) ks)" using Cons by (intro Cons.IH) auto
  moreover have "tv_ok \<lparr>tv_version = n, tv_key = k, tv_created = t\<rparr>"
    using Cons.prems kt by (simp add: tv_ok_def)
  ultimately show ?case by (simp add: kt)
qed simp

lemma ring_meta_sel [simp]:
  "tm_name (ring_meta name ks) = name" "tm_current (ring_meta name ks) = int (length ks)"
  "tm_versions (ring_meta name ks) = ring_from 1 ks"
  by (simp_all add: ring_meta_def)

lemma tm_ok_ring:
  assumes "utf8_ok name" "ring_ok ks"
  shows "tm_ok (ring_meta name ks)"
proof -
  have "list_all tv_ok (ring_from 1 ks)"
    using assms(2) by (intro tv_ok_ring) (auto simp: ring_ok_def int64_ok_def)
  with assms show ?thesis by (simp add: tm_ok_def ring_ok_def)
qed

lemma ring_ok_snoc:
  "ring_ok ks \<Longrightarrow> length k = 32 \<Longrightarrow> time_ok t \<Longrightarrow> int64_ok (int (length ks) + 1) \<Longrightarrow> ring_ok (ks @ [(k, t)])"
  by (auto simp: ring_ok_def algebra_simps)

lemma ring_meta_snoc:
  "ring_meta name (ks @ [(k, t)]) = (ring_meta name ks)\<lparr>tm_current := int (length ks) + 1,
     tm_versions := ring_from 1 ks @ [\<lparr>tv_version = int (length ks) + 1, tv_key = k, tv_created = t\<rparr>]\<rparr>"
  by (simp add: ring_meta_def ring_from_append algebra_simps)

lemma transit_key_simps [simp]: "transit_key a = transit_key b \<longleftrightarrow> a = b" "transit_key a \<noteq> []"
  by (simp_all add: transit_key_def)

lemma load_transit_eq:
  "load_doc B P c (dec_tm P) s' t (transit_key name) = load_doc B P c (dec_tm P) s t (transit_key name) \<Longrightarrow>
   load_transit B P c s' t name = load_transit B P c s t name"
  by (simp add: load_transit_def)

context vault
begin

lemma save_transit_load:
  assumes "save_transit B P c s t rng i m = Inr s'" "tm_ok m"
  shows "load_transit B P c s' t' (tm_name m) = Inr m"
  using tk.load_save[OF _ assms(2), of "transit_key (tm_name m)" s t rng i s' t'] assms(1)
  by (simp add: load_transit_def save_transit_def)

lemma save_transit_other:
  assumes "save_transit B P c s t rng i m = Inr s'" "name \<noteq> tm_name m"
  shows "load_transit B P c s' t' name = load_transit B P c s t' name"
  using tk.load_save_other[of "transit_key name" "transit_key (tm_name m)" s t rng i m s' t'] assms
  by (intro load_transit_eq) (simp add: save_transit_def)

lemma save_transit_E:
  "save_transit B P c s t rng i m = Inr s' \<Longrightarrow> \<exists>y. E s' = (E s)(transit_key (tm_name m) \<mapsto> (y, None))"
  using tk.save_E by (simp add: save_transit_def)

lemma enc_all_time: "enc_all (enc_tv P) vs = Some js \<Longrightarrow> \<forall>v\<in>set vs. time_ok (tv_created v)"
  by (induction vs arbitrary: js) (auto simp: enc_tv_def dest: enc_time_SomeD split: option.splits)

lemma save_transit_time:
  "save_transit B P c s t rng i m = Inr s' \<Longrightarrow> v \<in> set (tm_versions m) \<Longrightarrow> time_ok (tv_created v)"
  by (auto simp: save_transit_def save_doc_def seal_doc_def json_marshal_def enc_tm_def
      dest: enc_all_time split: sum.splits option.splits)

lemma transit_create_rep:
  assumes "transit_create B P c s t rng name = Inr s'" "utf8_ok name"
  shows "\<exists>k. transit_rep B P c s' name (Some [(k, t)])"
proof -
  obtain k where k: "rand_read rng 0 32 = Inr k" and w: "save_transit B P c s t rng 1 (ring_meta name [(k, t)]) = Inr s'"
    using assms(1) by (auto simp: transit_create_def ring_meta_def split: sum.splits)
  have "time_ok t" using save_transit_time[OF w, of "\<lparr>tv_version = 1, tv_key = k, tv_created = t\<rparr>"]
    by (simp add: ring_meta_def)
  then have r: "ring_ok [(k, t)]" using rand_read_length[OF k] by (simp add: ring_ok_def int64_ok_def)
  then have "tm_ok (ring_meta name [(k, t)])" using assms(2) by (intro tm_ok_ring)
  from save_transit_load[OF w this] show ?thesis using r by (auto simp: transit_rep_def)
qed

text \<open>The state that the record is written to need not be the one it was read from.\<close>

lemma transit_extend_rep:
  assumes "ring_ok ks" "transit_extend B P c s t rng (ring_meta name ks) = Inr s'" "utf8_ok name"
    and n: "int64_ok (int (length ks) + 1)"
  shows "\<exists>k. rand_read rng 0 32 = Inr k \<and> transit_rep B P c s' name (Some (ks @ [(k, t)]))"
proof -
  have c: "tm_current (ring_meta name ks) = int (length ks)" "tm_versions (ring_meta name ks) = ring_from 1 ks"
    by (simp_all add: ring_meta_def)
  obtain k where k: "rand_read rng 0 32 = Inr k"
    and w: "save_transit B P c s t rng 1 (ring_meta name (ks @ [(k, t)])) = Inr s'"
    using assms(2) n c by (auto simp: transit_extend_def ring_meta_snoc wrap64_id Let_def split: sum.splits)
  have "time_ok t"
    using save_transit_time[OF w, of "\<lparr>tv_version = int (length ks) + 1, tv_key = k, tv_created = t\<rparr>"]
    by (simp add: ring_meta_snoc)
  then have r: "ring_ok (ks @ [(k, t)])" using ring_ok_snoc[OF assms(1) rand_read_length[OF k] _ n] by simp
  then have "tm_ok (ring_meta name (ks @ [(k, t)]))"
    using assms(3) by (intro tm_ok_ring)
  from save_transit_load[OF w this] show ?thesis using r k by (auto simp: transit_rep_def)
qed

lemma transit_rotate_rep:
  assumes "transit_rep B P c s name (Some ks)" "transit_rotate B P c s t rng name = Inr s'" "utf8_ok name"
    and n: "int64_ok (int (length ks) + 1)"
  shows "\<exists>k. transit_rep B P c s' name (Some (ks @ [(k, t)]))"
proof -
  have l: "load_transit B P c s t name = Inr (ring_meta name ks)" and ok: "ring_ok ks"
    using assms(1) by (auto simp: transit_rep_def)
  then have "transit_extend B P c s t rng (ring_meta name ks) = Inr s'" using assms(2) by (simp add: transit_rotate_def)
  from transit_extend_rep[OF ok this assms(3) n] show ?thesis by blast
qed

lemma transit_rep_other:
  assumes "transit_create B P c s t rng name = Inr s' \<or>
      transit_rotate B P c s t rng name = Inr s' \<and> (\<exists>ks. transit_rep B P c s name (Some ks))" "other \<noteq> name"
  shows "load_transit B P c s' t' other = load_transit B P c s t' other"
proof -
  obtain m where "save_transit B P c s t rng 1 m = Inr s'" "tm_name m = name"
    using assms(1)
    by (auto simp: transit_create_def transit_rotate_def transit_extend_def transit_rep_def Let_def split: sum.splits)
  then show ?thesis using save_transit_other assms(2) by metis
qed

lemma transit_rep_same:
  "transit_rep B P c s name x \<Longrightarrow> (\<And>t. load_transit B P c s' t name = load_transit B P c s t name) \<Longrightarrow>
   transit_rep B P c s' name x"
  by (simp add: transit_rep_def split: option.splits)

end

end
