(* ===== verification/Transit_Props.thy ===== *)
theory Transit_Props
  imports Transit
begin

text \<open>
  The properties of the transit engine: ciphertexts stay decryptable under every later state of
  their key, encryption uses the newest version and never dereferences a missing one, and the
  parser accepts exactly the documented form. Two ways to lose a key: concurrent rotations, and
  the rotation of a key whose name is not UTF-8.
\<close>

section \<open>Ciphertext strings\<close>

lemma split_n_three: "split_n s c 3 = (if c \<notin> set s then [s]
    else takeWhile (\<lambda>x. x \<noteq> c) s # split_n (tl (dropWhile (\<lambda>x. x \<noteq> c) s)) c 2)"
proof (cases "c \<in> set s")
  case True
  then obtain a b where s: "s = a @ c # b" "c \<notin> set a" by (metis split_list_first)
  have "takeWhile (\<lambda>x. x \<noteq> c) s = a" "dropWhile (\<lambda>x. x \<noteq> c) s = c # b"
    using s by (auto intro!: takeWhile_append_all dropWhile_append_all)
  then show ?thesis using s split_n_found[OF s(2), of b 1] by (simp add: numeral_3_eq_3 numeral_2_eq_2 del: split_n.simps(3))
qed (simp add: numeral_3_eq_3 split_n_absent del: split_n.simps(3))

lemma split_n_three_found:
  "c \<notin> set a \<Longrightarrow> c \<notin> set b \<Longrightarrow> split_n (a @ c # b @ c # d) c 3 = [a, b, d]"
  using split_n_found[of c a "b @ c # d" 1] split_n_found[of c b d 0] by (simp add: numeral_3_eq_3 del: split_n.simps(3))

lemma split_n_three_conv:
  "split_n s c 3 = [a, b, d] \<longleftrightarrow> c \<notin> set a \<and> c \<notin> set b \<and> s = a @ c # b @ c # d"
proof
  assume h: "split_n s c 3 = [a, b, d]"
  then have "c \<in> set s" by (auto simp: split_n_three split: if_splits)
  then obtain x y where s: "s = x @ c # y" "c \<notin> set x" by (metis split_list_first)
  then have "split_n s c 3 = x # split_n y c 2"
    using split_n_found[OF s(2), of y 1] by (simp add: numeral_3_eq_3 numeral_2_eq_2 del: split_n.simps(3))
  with h have y: "x = a" "split_n y c 2 = [b, d]" by auto
  then have "c \<in> set y" by (auto simp: split_n_two split: if_splits)
  then obtain u w where u: "y = u @ c # w" "c \<notin> set u" by (metis split_list_first)
  have "split_n y c 2 = [u, w]"
    using split_n_found[OF u(2), of w 0] u by (simp add: numeral_2_eq_2 del: split_n.simps(3))
  then show "c \<notin> set a \<and> c \<notin> set b \<and> s = a @ c # b @ c # d" using s u y by auto
qed (auto intro: split_n_three_found)

lemma itoa_no_colon: "CHR '':'' \<notin> set (itoa i)"
  using itoa_chars[of "CHR '':''" i] by auto

lemma parse_format_vault: "0 \<le> v \<Longrightarrow> int64_ok v \<Longrightarrow> parse_vault (format_vault v encoded) = Inr (v, encoded)"
proof -
  assume v: "0 \<le> v" "int64_ok v"
  have "split_n (format_vault v encoded) (CHR '':'') 3 = [''vault'', CHR ''v'' # itoa v, encoded]"
    using split_n_three_found[of "CHR '':''" "''vault''" "CHR ''v'' # itoa v" encoded] itoa_no_colon
    by (simp add: format_vault_def)
  with v show ?thesis by (simp add: parse_vault_def sscanf_v_itoa)
qed

lemma parse_vault_Inr:
  "parse_vault ct = Inr (v, encoded) \<longleftrightarrow>
   (\<exists>b. ct = ''vault:'' @ b @ '':'' @ encoded \<and> CHR '':'' \<notin> set b \<and> sscanf_v b = Some v)"
proof
  assume "parse_vault ct = Inr (v, encoded)"
  then obtain b where "split_n ct (CHR '':'') 3 = [''vault'', b, encoded]" "sscanf_v b = Some v"
    by (auto simp: parse_vault_def split: list.splits if_splits option.splits)
  then show "\<exists>b. ct = ''vault:'' @ b @ '':'' @ encoded \<and> CHR '':'' \<notin> set b \<and> sscanf_v b = Some v"
    unfolding split_n_three_conv by auto
next
  assume "\<exists>b. ct = ''vault:'' @ b @ '':'' @ encoded \<and> CHR '':'' \<notin> set b \<and> sscanf_v b = Some v"
  then obtain b where b: "ct = ''vault:'' @ b @ '':'' @ encoded" "CHR '':'' \<notin> set b" "sscanf_v b = Some v" by blast
  then have "split_n ct (CHR '':'') 3 = [''vault'', b, encoded]" unfolding split_n_three_conv by auto
  with b(3) show "parse_vault ct = Inr (v, encoded)" by (simp add: parse_vault_def)
qed

section \<open>Lemmas\<close>

context vault
begin

lemma encrypt_bytes_round_trip:
  assumes "length key = 32" "aesgcm_encrypt_bytes P rng i key pt = Inr data"
  shows "aesgcm_decrypt_bytes P key data = Inr pt"
proof -
  obtain nonce where n: "data = nonce @ gcm_seal P key nonce pt" "length nonce = nonce_len"
    using assms(2) by (auto simp: aesgcm_encrypt_bytes_def aesgcm_encrypt_def dest: rand_read_length split: sum.splits if_splits)
  then show ?thesis using assms(1) gcm_round_trip[OF assms(1), of nonce pt]
    by (simp add: aesgcm_decrypt_bytes_def aesgcm_decrypt_def aes_key_ok_def no_panic_def nonce_len_def)
qed

lemma encrypt_bytes_errors:
  "length key = 32 \<Longrightarrow> aesgcm_encrypt_bytes P rng i key pt = Inl e \<Longrightarrow> rng i = None \<and> e = ErrRand"
  by (auto simp: aesgcm_encrypt_bytes_def aesgcm_encrypt_def aes_key_ok_def rand_read_def
      split: sum.splits if_splits option.splits)

lemma transit_repD:
  assumes "transit_rep B P c s name (Some ks)"
  shows "load_transit B P c s t name = Inr (ring_meta name ks)" and "ring_ok ks"
    and "1 \<le> v \<Longrightarrow> v \<le> int (length ks) \<Longrightarrow> length (fst (ks ! nat (v - 1))) = 32"
proof -
  show "load_transit B P c s t name = Inr (ring_meta name ks)" and ok: "ring_ok ks"
    using assms by (simp_all add: transit_rep_def)
  assume "1 \<le> v" "v \<le> int (length ks)"
  then have "ks ! nat (v - 1) \<in> set ks" by (intro nth_mem) linarith
  then show "length (fst (ks ! nat (v - 1))) = 32" using ok by (auto simp: ring_ok_def list_all_iff)
qed

lemma nat_int_pred [simp]: "nat (int n - 1) = n - 1"
  by (cases n) simp_all

lemma current_of_ring:
  "ring_ok ks \<Longrightarrow> current_key_version (ring_meta name ks) = Some \<lparr>tv_version = int (length ks),
     tv_key = fst (last ks), tv_created = snd (last ks)\<rparr>"
  by (auto simp: current_key_version_def key_version_ring ring_ok_def last_conv_nth Suc_le_eq)

lemma transit_encrypt_result:
  assumes "transit_rep B P c s name (Some ks)"
  shows "transit_encrypt B P c s t rng name pt = Done (case aesgcm_encrypt_bytes P rng 0 (fst (last ks)) pt of
     Inl e \<Rightarrow> Inl e | Inr ct \<Rightarrow> Inr (format_vault (int (length ks)) (std_encode ct)))"
  using transit_repD(1,2)[OF assms] current_of_ring
  by (simp add: transit_encrypt_def split: sum.splits)

text \<open>A ciphertext is decrypted with the key that the ring holds at its version number.\<close>

lemma transit_decrypts_with:
  assumes "transit_rep B P c s name (Some ks)" "transit_encrypt B P c s t rng name pt = Done (Inr ct)"
    and "transit_rep B P c s' name (Some ks')" "length ks \<le> length ks'"
  obtains data where "aesgcm_encrypt_bytes P rng 0 (fst (last ks)) pt = Inr data"
    "transit_decrypt B P c s' t' name ct = aesgcm_decrypt_bytes P (fst (ks' ! (length ks - 1))) data"
proof -
  let ?n = "int (length ks)" and ?x = "ks' ! (length ks - 1)"
  have ok: "ring_ok ks" using transit_repD(2)[OF assms(1)] .
  obtain data where d: "aesgcm_encrypt_bytes P rng 0 (fst (last ks)) pt = Inr data" "ct = format_vault ?n (std_encode data)"
    using assms(2) transit_encrypt_result[OF assms(1)] by (auto split: sum.splits)
  have n: "1 \<le> ?n" "int64_ok ?n" using ok by (auto simp: ring_ok_def Suc_le_eq)
  then have "key_version (ring_from 1 ks') ?n = Some \<lparr>tv_version = ?n, tv_key = fst ?x, tv_created = snd ?x\<rparr>"
    using assms(4) by (simp add: key_version_ring)
  with d n transit_repD(1)[OF assms(3), of t'] parse_format_vault[of ?n "std_encode data"] that[OF d(1)] show thesis
    by (simp add: transit_decrypt_def)
qed

lemma transit_decrypts:
  assumes "transit_rep B P c s name (Some ks)" "transit_encrypt B P c s t rng name pt = Done (Inr ct)"
    and "transit_rep B P c s' name (Some (ks @ later))"
  shows "transit_decrypt B P c s' t' name ct = Inr pt"
proof -
  have ok: "ring_ok ks" using transit_repD(2)[OF assms(1)] .
  then have l: "(ks @ later) ! (length ks - 1) = last ks" by (auto simp: ring_ok_def last_conv_nth nth_append)
  have "length (fst (last ks)) = 32" using transit_repD(3)[OF assms(1), of "int (length ks)"] ok
    by (auto simp: ring_ok_def last_conv_nth Suc_le_eq)
  moreover obtain data where "aesgcm_encrypt_bytes P rng 0 (fst (last ks)) pt = Inr data"
      "transit_decrypt B P c s' t' name ct = aesgcm_decrypt_bytes P (fst (last ks)) data"
    by (rule transit_decrypts_with[OF assms(1,2,3), of t']) (use l in simp_all)
  ultimately show ?thesis using encrypt_bytes_round_trip by metis
qed

end

section \<open>Runs of the engine\<close>

inductive transit_step :: "'s badger \<Rightarrow> prims \<Rightarrow> crypto \<Rightarrow> 's \<Rightarrow> 's \<Rightarrow> bool" for B P c where
  step_create: "utf8_ok name \<Longrightarrow> transit_create B P c s t rng name = Inr s' \<Longrightarrow> transit_step B P c s s'"
| step_rotate: "utf8_ok name \<Longrightarrow> transit_rotate B P c s t rng name = Inr s' \<Longrightarrow> transit_step B P c s s'"

definition ring_size :: "key_ring option \<Rightarrow> nat" where
  "ring_size x = (case x of None \<Rightarrow> 0 | Some ks \<Rightarrow> length ks)"

definition transit_inv :: "'s badger \<Rightarrow> prims \<Rightarrow> crypto \<Rightarrow> nat \<Rightarrow> 's \<Rightarrow> bool" where
  "transit_inv B P c n s \<longleftrightarrow>
     (\<forall>name. utf8_ok name \<longrightarrow> (\<exists>x. transit_rep B P c s name x \<and> ring_size x \<le> n))"

text \<open>What one step does to the key of one name: nothing, or a first or a further version.\<close>

definition ring_grows :: "key_ring option \<Rightarrow> key_ring option \<Rightarrow> bool" where
  "ring_grows x y \<longleftrightarrow> (\<exists>later. y = Some ((case x of None \<Rightarrow> [] | Some ks \<Rightarrow> ks) @ later)) \<or> x = None \<and> y = None"

lemma ring_grows_refl [simp]: "ring_grows x x"
  by (cases x) (auto simp: ring_grows_def)

lemma ring_grows_trans: "ring_grows x y \<Longrightarrow> ring_grows y z \<Longrightarrow> ring_grows x z"
  by (auto simp: ring_grows_def split: option.splits)

context vault
begin

lemma transit_step_name:
  assumes step: "transit_step B P c s s'" and inv: "transit_inv B P c n s" and n: "int64_ok (int n + 1)"
    and rep: "transit_rep B P c s other x" and size: "ring_size x \<le> n"
  shows "\<exists>y. transit_rep B P c s' other y \<and> ring_size y \<le> Suc n \<and> ring_grows x y"
  using step
proof cases
  case (step_create name t rng)
  show ?thesis
  proof (cases "other = name")
    case True
    have "x = None" using rep True step_create(2) by (cases x) (auto simp: transit_create_def transit_rep_def)
    moreover obtain k where "transit_rep B P c s' name (Some [(k, t)])"
      using transit_create_rep[OF step_create(2,1)] by blast
    ultimately show ?thesis using True by (intro exI[of _ "Some [(k, t)]"]) (simp add: ring_size_def ring_grows_def)
  next
    case False
    have "transit_rep B P c s' other x"
      using transit_rep_same[OF rep] transit_rep_other[OF disjI1[OF step_create(2)] False] by blast
    then show ?thesis using size by (intro exI[of _ x]) simp
  qed
next
  case (step_rotate name t rng)
  obtain z where z: "transit_rep B P c s name z" "ring_size z \<le> n"
    using inv step_rotate(1) by (auto simp: transit_inv_def)
  then obtain ks where ks: "transit_rep B P c s name (Some ks)"
    using step_rotate(2) by (cases z) (auto simp: transit_rotate_def transit_rep_def)
  show ?thesis
  proof (cases "other = name")
    case True
    then obtain ls where ls: "x = Some ls"
      using rep ks by (cases x) (auto simp: transit_rep_def)
    have "int64_ok (int (length ls) + 1)" using n size ls by (simp add: int64_ok_def ring_size_def)
    then obtain k where "transit_rep B P c s' name (Some (ls @ [(k, t)]))"
      using transit_rotate_rep[OF _ step_rotate(2,1)] rep ls True by blast
    then show ?thesis using True ls size
      by (intro exI[of _ "Some (ls @ [(k, t)])"]) (auto simp: ring_size_def ring_grows_def)
  next
    case False
    have "transit_rep B P c s' other x"
      using transit_rep_same[OF rep] transit_rep_other[OF disjI2 False] step_rotate(2) ks by blast
    then show ?thesis using size by (intro exI[of _ x]) simp
  qed
qed

lemma transit_step_inv:
  "transit_step B P c s s' \<Longrightarrow> transit_inv B P c n s \<Longrightarrow> int64_ok (int n + 1) \<Longrightarrow> transit_inv B P c (Suc n) s'"
  unfolding transit_inv_def by (meson transit_step_name transit_inv_def)

lemma transit_run:
  assumes "(transit_step B P c ^^ m) s s'" "transit_inv B P c n s" "int64_ok (int (n + m))"
    "transit_rep B P c s name x" "ring_size x \<le> n"
  shows "transit_inv B P c (n + m) s' \<and> (\<exists>y. transit_rep B P c s' name y \<and> ring_size y \<le> n + m \<and> ring_grows x y)"
  using assms(1,3)
proof (induction m arbitrary: s')
  case 0
  then show ?case using assms(2,4,5) ring_grows_refl[of x] by auto
next
  case (Suc m)
  then obtain s1 where s1: "(transit_step B P c ^^ m) s s1" "transit_step B P c s1 s'" by auto
  have ok: "int64_ok (int (n + m))" "int64_ok (int (n + m) + 1)" using Suc.prems(2) by (simp_all add: int64_ok_def)
  obtain y where y: "transit_inv B P c (n + m) s1" "transit_rep B P c s1 name y" "ring_size y \<le> n + m" "ring_grows x y"
    using Suc.IH[OF s1(1) ok(1)] by blast
  obtain z where "transit_rep B P c s' name z" "ring_size z \<le> Suc (n + m)" "ring_grows y z"
    using transit_step_name[OF s1(2) y(1) ok(2) y(2,3)] by blast
  then show ?case using transit_step_inv[OF s1(2) y(1) ok(2)] ring_grows_trans[OF y(4)] by auto
qed

lemma transit_inv_empty:
  assumes "\<And>k. has_prefix k ''secrets/transit/'' \<Longrightarrow> E s k = None"
  shows "transit_rep B P c s name None" "transit_inv B P c 0 s"
proof -
  have "E s (transit_key name) = None" for name
    by (rule assms) (simp add: transit_key_def has_prefix_def)
  then have "load_doc B P c (dec_tm P) s t (transit_key name) = Inl ErrNotFound" for t name
    by (intro load_doc_absent[THEN iffD2]) (simp_all add: visible_def)
  then have "transit_rep B P c s name None" for name by (simp add: transit_rep_def load_transit_def)
  then show "transit_rep B P c s name None" "transit_inv B P c 0 s"
    by (auto simp: transit_inv_def ring_size_def intro!: exI[of _ None])
qed

end

section \<open>Properties\<close>

text \<open>
  A ciphertext stays decryptable: started on a database without transit keys, after any run
  of successful CreateKey and Rotate calls, what Encrypt returns under a name decrypts under
  that name to the plaintext after any further run of such calls on any names.
\<close>

theorem transit_decrypt_forever:
  assumes "badger_laws B E" and "prims_laws P" and "\<And>k. has_prefix k ''secrets/transit/'' \<Longrightarrow> E s0 k = None"
    and "(transit_step B P c ^^ m) s0 s" and "utf8_ok name"
    and "transit_encrypt B P c s t rng name plaintext = Done (Inr ct)"
    and "(transit_step B P c ^^ n) s s'" and "m + n < 2 ^ 63"
  shows "transit_decrypt B P c s' t' name ct = Inr plaintext"
proof -
  note v = vaultI[OF assms(1,2)]
  have k: "int64_ok (int (0 + m))" "int64_ok (int (m + n))" using assms(8) by (simp_all add: int64_ok_def)
  note start = vault.transit_inv_empty[OF v assms(3)]
  obtain x where x: "transit_inv B P c m s" "transit_rep B P c s name x" "ring_size x \<le> m"
    using vault.transit_run[OF v assms(4) start(2) k(1) start(1), of name] by (auto simp: ring_size_def)
  then obtain ks where ks: "x = Some ks"
    using assms(6) by (cases x) (auto simp: transit_encrypt_def transit_rep_def)
  obtain later where "transit_rep B P c s' name (Some (ks @ later))"
    using vault.transit_run[OF v assms(7) x(1) k(2) x(2,3)] ks by (auto simp: ring_grows_def)
  then show ?thesis using vault.transit_decrypts[OF v x(2)[unfolded ks] assms(6)] by blast
qed

lemma demo_transit_empty: "transit_rep mem_badger demo_prims demo_crypto [] name None"
  by (rule demo_vault.transit_inv_empty(1)) simp

lemma demo_save_with: "key \<noteq> [] \<Longrightarrow> enc d = Some j \<Longrightarrow> rng i = Some bs \<Longrightarrow>
    \<exists>s'. save_doc mem_badger demo_prims demo_crypto enc s t rng i key d = Inr s'"
  by (simp add: save_doc_def seal_doc_def json_marshal_def crypto_encrypt_def derive_key_def aesgcm_encrypt_def
      demo_prims_def rand_read_def db_set_def lift_bdg_def mem_badger_def aes_key_ok_def)

lemma demo_save_doc: "key \<noteq> [] \<Longrightarrow> enc d = Some j \<Longrightarrow>
    \<exists>s'. save_doc mem_badger demo_prims demo_crypto enc s t demo_rng i key d = Inr s'"
  by (rule demo_save_with) (simp_all add: demo_rng_def)

lemma demo_create_with:
  assumes "load_transit mem_badger demo_prims demo_crypto s t name = Inl e" "time_ok t"
    and "rand_read rng 0 32 = Inr key" "rng 1 = Some bs"
  shows "\<exists>s1. transit_create mem_badger demo_prims demo_crypto s t rng name = Inr s1"
proof -
  let ?m = "\<lparr>tm_name = name, tm_current = 1, tm_versions = [\<lparr>tv_version = 1, tv_key = key, tv_created = t\<rparr>]\<rparr>"
  obtain j where j: "enc_tm demo_prims ?m = Some j"
    using assms(2) by (simp add: enc_tm_def enc_tv_def enc_time_def)
  have k: "transit_key name \<noteq> []" by simp
  obtain s1 where "save_transit mem_badger demo_prims demo_crypto s t rng 1 ?m = Inr s1"
    using demo_save_with[where key = "transit_key name" and enc = "enc_tm demo_prims" and d = ?m and rng = rng and i = 1 and bs = bs, OF k j assms(4)] by (fastforce simp: save_transit_def)
  with assms(1,3) show ?thesis by (simp add: transit_create_def)
qed

lemma demo_draw_key: "rand_read demo_rng 0 32 = Inr (fill 32 ''A'')"
  by code_simp

lemma demo_create_at:
  assumes "transit_rep mem_badger demo_prims demo_crypto s name None" "time_ok t"
  shows "\<exists>s1. transit_create mem_badger demo_prims demo_crypto s t demo_rng name = Inr s1"
  using demo_create_with[OF _ assms(2) demo_draw_key, of s name] assms(1) unfolding transit_rep_def by (simp add: demo_rng_def)

lemma demo_create:
  "\<exists>s1 k. transit_create mem_badger demo_prims demo_crypto [] 0 demo_rng ''k'' = Inr s1
     \<and> transit_rep mem_badger demo_prims demo_crypto s1 ''k'' (Some [(k, 0)])"
proof -
  have "time_ok 0" by (simp add: time_ok_def second_def)
  from demo_create_at[OF demo_transit_empty this, of "''k''"]
  obtain s1 where c: "transit_create mem_badger demo_prims demo_crypto [] 0 demo_rng ''k'' = Inr s1" ..
  then show ?thesis using demo_vault.transit_create_rep[OF c] by (auto simp: utf8_ok_all_ascii is_ascii_def)
qed

lemma demo_encrypts:
  assumes "transit_rep mem_badger demo_prims demo_crypto s name (Some ks)"
  shows "\<exists>ct. transit_encrypt mem_badger demo_prims demo_crypto s t demo_rng name pt = Done (Inr ct)"
proof -
  have "length (fst (last ks)) = 32"
    using demo_vault.transit_repD(2)[OF assms] by (cases ks rule: rev_cases) (auto simp: ring_ok_def)
  then have "aesgcm_encrypt_bytes demo_prims demo_rng 0 (fst (last ks)) pt \<noteq> Inl e" for e
    using demo_vault.encrypt_bytes_errors by (fastforce simp: demo_rng_def)
  then show ?thesis unfolding demo_vault.transit_encrypt_result[OF assms] by (auto split: sum.splits)
qed

theorem transit_decrypt_forever_witness:
  "\<exists>s ct. transit_create mem_badger demo_prims demo_crypto [] 0 demo_rng ''k'' = Inr s
     \<and> transit_encrypt mem_badger demo_prims demo_crypto s 1 demo_rng ''k'' ''hello'' = Done (Inr ct)
     \<and> transit_decrypt mem_badger demo_prims demo_crypto s 2 ''k'' ct = Inr ''hello''"
proof -
  obtain s k where s: "transit_create mem_badger demo_prims demo_crypto [] 0 demo_rng ''k'' = Inr s"
      "transit_rep mem_badger demo_prims demo_crypto s ''k'' (Some [(k, 0)])"
    using demo_create by blast
  obtain ct where ct: "transit_encrypt mem_badger demo_prims demo_crypto s 1 demo_rng ''k'' ''hello'' = Done (Inr ct)"
    using demo_encrypts[OF s(2)] by blast
  have u: "utf8_ok ''k''" by (simp add: utf8_ok_all_ascii is_ascii_def)
  have st: "(transit_step mem_badger demo_prims demo_crypto ^^ 1) [] s"
    using transit_step.step_create[OF u s(1)] by auto
  have z: "(transit_step mem_badger demo_prims demo_crypto ^^ 0) s s" by simp
  have "transit_decrypt mem_badger demo_prims demo_crypto s 2 ''k'' ct = Inr ''hello''"
    by (rule transit_decrypt_forever[OF mem_laws demo_laws _ st u ct z]) simp_all
  with s ct show ?thesis by blast
qed

text \<open>
  On a stored key Encrypt never dereferences a missing version: it fails only when no nonce
  can be drawn, and what it returns names the newest version.
\<close>

theorem transit_encrypt_current:
  assumes "badger_laws B E" and "prims_laws P" and "transit_rep B P c s name (Some ks)"
  shows "(rng 0 = None \<and> transit_encrypt B P c s t rng name plaintext = Done (Inl ErrRand))
    \<or> (\<exists>encoded. transit_encrypt B P c s t rng name plaintext = Done (Inr (format_vault (int (length ks)) encoded)))"
proof -
  note v = vaultI[OF assms(1,2)]
  have "length (fst (last ks)) = 32"
    using vault.transit_repD(2)[OF v assms(3)] by (cases ks rule: rev_cases) (auto simp: ring_ok_def)
  then show ?thesis
    using vault.encrypt_bytes_errors[OF v] vault.transit_encrypt_result[OF v assms(3)]
    by (fastforce split: sum.splits)
qed

theorem transit_encrypt_current_witness:
  "\<exists>s ct. transit_create mem_badger demo_prims demo_crypto [] 0 demo_rng ''k'' = Inr s
     \<and> transit_encrypt mem_badger demo_prims demo_crypto s 1 demo_rng ''k'' ''hello'' = Done (Inr (format_vault 1 ct))"
proof -
  obtain s k where s: "transit_create mem_badger demo_prims demo_crypto [] 0 demo_rng ''k'' = Inr s"
      "transit_rep mem_badger demo_prims demo_crypto s ''k'' (Some [(k, 0)])"
    using demo_create by blast
  with transit_encrypt_current[OF mem_laws demo_laws s(2), of demo_rng 1 "''hello''"] show ?thesis
    by (auto simp: demo_rng_def)
qed

text \<open>
  CreateKey never touches a key that it can read, and Rotate only appends: a successful
  CreateKey on an absent name stores exactly one version, on a stored name it fails; a
  successful Rotate keeps every version and adds one; neither changes another name.
\<close>

theorem transit_create_rotate:
  assumes "badger_laws B E" and "prims_laws P" and "transit_rep B P c s name x" and "utf8_ok name"
    and "int64_ok (int (ring_size x) + 1)" and "other \<noteq> name"
  shows "case x of
      None \<Rightarrow> transit_rotate B P c s t rng name = Inl (ErrTransitNotFound name)
        \<and> (\<forall>s'. transit_create B P c s t rng name = Inr s' \<longrightarrow>
            (\<exists>k. transit_rep B P c s' name (Some [(k, t)]))
            \<and> load_transit B P c s' t' other = load_transit B P c s t' other)
    | Some ks \<Rightarrow> transit_create B P c s t rng name = Inl (ErrTransitExists name)
        \<and> (\<forall>s'. transit_rotate B P c s t rng name = Inr s' \<longrightarrow>
            (\<exists>k. transit_rep B P c s' name (Some (ks @ [(k, t)])))
            \<and> load_transit B P c s' t' other = load_transit B P c s t' other)"
proof (cases x)
  case None
  have o: "load_transit B P c s' t' other = load_transit B P c s t' other"
    if "transit_create B P c s t rng name = Inr s'" for s'
    using vault.transit_rep_other[OF vaultI[OF assms(1,2)] disjI1[OF that] assms(6)] .
  show ?thesis
    using None assms(3) vault.transit_create_rep[OF vaultI[OF assms(1,2)] _ assms(4)] o
    by (auto simp: transit_rotate_def transit_rep_def)
next
  case (Some ks)
  have n: "int64_ok (int (length ks) + 1)" using assms(5) Some by (simp add: ring_size_def)
  have o: "load_transit B P c s' t' other = load_transit B P c s t' other"
    if "transit_rotate B P c s t rng name = Inr s'" for s'
    using vault.transit_rep_other[OF vaultI[OF assms(1,2)] disjI2 assms(6)] that assms(3) Some by blast
  have r: "\<exists>k. transit_rep B P c s' name (Some (ks @ [(k, t)]))"
    if "transit_rotate B P c s t rng name = Inr s'" for s'
    by (rule vault.transit_rotate_rep[OF vaultI[OF assms(1,2)] assms(3)[unfolded Some] that assms(4) n])
  have "transit_create B P c s t rng name = Inl (ErrTransitExists name)"
    using assms(3) Some by (simp add: transit_create_def transit_rep_def)
  with o r Some show ?thesis by simp
qed

theorem transit_create_rotate_witness:
  "\<exists>s. transit_create mem_badger demo_prims demo_crypto [] 0 demo_rng ''k'' = Inr s
     \<and> transit_create mem_badger demo_prims demo_crypto s 1 demo_rng ''k'' = Inl (ErrTransitExists ''k'')"
proof -
  obtain s k where s: "transit_create mem_badger demo_prims demo_crypto [] 0 demo_rng ''k'' = Inr s"
      "transit_rep mem_badger demo_prims demo_crypto s ''k'' (Some [(k, 0)])"
    using demo_create by blast
  have u: "utf8_ok ''k''" by (simp add: utf8_ok_all_ascii is_ascii_def)
  have n: "int64_ok (int (ring_size (Some [(k, 0)])) + 1)" by (simp add: ring_size_def int64_ok_def)
  show ?thesis
    using transit_create_rotate[OF mem_laws demo_laws s(2) u n, of "''z''" 1 demo_rng 1] s(1) by auto
qed

text \<open>
  C28: CreateKey takes every error of reading the record for the absence of the key. Where a
  record exists that does not decrypt or parse, it reports success and replaces the record, and
  with it every version of the key that was there.
\<close>

theorem transit_create_overwrites:
  assumes "badger_laws B E" and "prims_laws P" and "visible (E s) t (transit_key name) = Some old"
    and "load_transit B P c s t name = Inl e" and "utf8_ok name"
    and "transit_create B P c s t rng name = Inr s'"
  shows "\<exists>k sealed. transit_rep B P c s' name (Some [(k, t)]) \<and> E s' = (E s)(transit_key name \<mapsto> (sealed, None))"
proof -
  note v = vaultI[OF assms(1,2)]
  obtain m where "save_transit B P c s t rng 1 m = Inr s'" "tm_name m = name"
    using assms(4,6) by (auto simp: transit_create_def split: sum.splits)
  then have "\<exists>sealed. E s' = (E s)(transit_key name \<mapsto> (sealed, None))"
    using vault.save_transit_E[OF v] by blast
  then show ?thesis using vault.transit_create_rep[OF v assms(6,5)] by blast
qed

theorem transit_create_overwrites_witness:
  "\<exists>s'. transit_create mem_badger demo_prims demo_crypto [(transit_key ''k'', ''damaged'', None)] 0 demo_rng ''k'' = Inr s'
     \<and> (\<exists>k. transit_rep mem_badger demo_prims demo_crypto s' ''k'' (Some [(k, 0)]))"
proof -
  let ?s = "[(transit_key ''k'', ''damaged'', None)]"
  let ?m = "\<lparr>tm_name = ''k'', tm_current = 1, tm_versions = [\<lparr>tv_version = 1, tv_key = fill 32 ''A'', tv_created = 0\<rparr>]\<rparr>"
  have vis: "visible (map_of ?s) 0 (transit_key ''k'') = Some ''damaged''" by (simp add: visible_def)
  then have l: "load_transit mem_badger demo_prims demo_crypto ?s 0 ''k'' = Inl ErrCiphertextTooShort"
    by (simp add: load_transit_def load_doc_def mem.db_get_visible crypto_decrypt_def nonce_len_def)
  obtain j where j: "enc_tm demo_prims ?m = Some j"
    by (simp add: enc_tm_def enc_tv_def enc_time_def time_ok_def second_def)
  have k: "transit_key ''k'' \<noteq> []" by simp
  obtain s1 where "save_transit mem_badger demo_prims demo_crypto ?s 0 demo_rng 1 ?m = Inr s1"
    using demo_save_doc[of _ "enc_tm demo_prims" ?m, OF k j] by (fastforce simp: save_transit_def)
  moreover have "rand_read demo_rng 0 32 = Inr (fill 32 ''A'')" by code_simp
  ultimately have c: "transit_create mem_badger demo_prims demo_crypto ?s 0 demo_rng ''k'' = Inr s1"
    using l by (simp add: transit_create_def)
  have u: "utf8_ok ''k''" by (simp add: utf8_ok_all_ascii is_ascii_def)
  show ?thesis using transit_create_overwrites[OF mem_laws demo_laws vis l u c] c by blast
qed

section \<open>Concurrent rotations\<close>

text \<open>
  C24: Rotate reads the record and writes it back without a transaction or a lock. Two rotations that both
  read the record before either writes it both succeed, but the key of the first is lost: the ring has one new version, the
  second's, and what was encrypted in between is decrypted with that other key.
\<close>

theorem transit_lost_rotation:
  assumes "badger_laws B E" and "prims_laws P" and "load_transit B P c s t0 name = Inr m"
    and "transit_rep B P c s name (Some ks)" and "int64_ok (int (length ks) + 1)" and "utf8_ok name"
    and "transit_extend B P c s t1 rng1 m = Inr s1" and "transit_encrypt B P c s1 t rng name pt = Done (Inr ct)"
    and "transit_extend B P c s1 t2 rng2 m = Inr s2"
  shows "\<exists>k1 k2 data. rand_read rng1 0 32 = Inr k1 \<and> rand_read rng2 0 32 = Inr k2
    \<and> transit_rep B P c s2 name (Some (ks @ [(k2, t2)]))
    \<and> aesgcm_encrypt_bytes P rng 0 k1 pt = Inr data \<and> transit_decrypt B P c s2 t' name ct = aesgcm_decrypt_bytes P k2 data"
proof -
  note v = vaultI[OF assms(1,2)]
  have m: "m = ring_meta name ks" "ring_ok ks" using vault.transit_repD[OF v assms(4)] assms(3) by simp_all
  obtain k1 where k1: "rand_read rng1 0 32 = Inr k1" "transit_rep B P c s1 name (Some (ks @ [(k1, t1)]))"
    using vault.transit_extend_rep[OF v m(2) assms(7)[unfolded m(1)] assms(6,5)] by blast
  obtain k2 where k2: "rand_read rng2 0 32 = Inr k2" "transit_rep B P c s2 name (Some (ks @ [(k2, t2)]))"
    using vault.transit_extend_rep[OF v m(2) assms(9)[unfolded m(1)] assms(6,5)] by blast
  obtain data where "aesgcm_encrypt_bytes P rng 0 k1 pt = Inr data"
      "transit_decrypt B P c s2 t' name ct = aesgcm_decrypt_bytes P k2 data"
    by (rule vault.transit_decrypts_with[OF v k1(2) assms(8) k2(2), of t']) simp_all
  with k1(1) k2 show ?thesis by blast
qed

text \<open>With two different keys the ciphertext made in between cannot be decrypted.\<close>

definition demo_rng2 :: rng where
  "demo_rng2 = (\<lambda>i. Some [char_of (75 + i)])"

lemma demo_extend:
  assumes "time_ok t" "rand_read rng 0 32 = Inr key" "rng 1 = Some bs" "time_ok t0"
  shows "\<exists>s'. transit_extend mem_badger demo_prims demo_crypto s t rng (ring_meta name [(k, t0)]) = Inr s'"
proof -
  let ?m = "ring_meta name [(k, t0), (key, t)]"
  have "int64_ok 2" "time_ok t0" using assms(4) by (simp_all add: int64_ok_def)
  then obtain j where "enc_tm demo_prims ?m = Some j"
    using assms(1) by (auto simp: enc_tm_def enc_tv_def enc_time_def ring_meta_def)
  then obtain s' where "save_transit mem_badger demo_prims demo_crypto s t rng 1 ?m = Inr s'"
    using demo_save_with[of "transit_key (tm_name ?m)" "enc_tm demo_prims" ?m j rng 1 bs s t] assms(3) by (auto simp: save_transit_def)
  then show ?thesis using assms(2) \<open>int64_ok 2\<close> by (simp add: transit_extend_def ring_meta_def wrap64_id Let_def)
qed

theorem transit_lost_rotation_witness:
  "\<exists>s k s1 s2 ct. transit_rep mem_badger demo_prims demo_crypto s ''k'' (Some [(k, 0)])
    \<and> transit_extend mem_badger demo_prims demo_crypto s 1 demo_rng (ring_meta ''k'' [(k, 0)]) = Inr s1
    \<and> transit_encrypt mem_badger demo_prims demo_crypto s1 2 demo_rng ''k'' ''m'' = Done (Inr ct)
    \<and> transit_extend mem_badger demo_prims demo_crypto s1 3 demo_rng2 (ring_meta ''k'' [(k, 0)]) = Inr s2
    \<and> transit_decrypt mem_badger demo_prims demo_crypto s2 4 ''k'' ct = Inl ErrCipherOpen"
proof -
  obtain s k where r: "transit_rep mem_badger demo_prims demo_crypto s ''k'' (Some [(k, 0)])" using demo_create by blast
  have t: "time_ok 1" "time_ok 3" "time_ok 0" by (simp_all add: time_ok_def second_def)
  have draws: "rand_read demo_rng 0 32 = Inr (fill 32 ''A'')" "rand_read demo_rng2 0 32 = Inr (fill 32 ''K'')" by code_simp+
  obtain s1 where s1: "transit_extend mem_badger demo_prims demo_crypto s 1 demo_rng (ring_meta ''k'' [(k, 0)]) = Inr s1"
    using demo_extend[OF t(1) draws(1) _ t(3), of "[char_of 66]" s "''k''" k] unfolding demo_rng_def by auto
  obtain s2 where s2: "transit_extend mem_badger demo_prims demo_crypto s1 3 demo_rng2 (ring_meta ''k'' [(k, 0)]) = Inr s2"
    using demo_extend[OF t(2) draws(2) _ t(3), of "[char_of 76]" s1 "''k''" k] unfolding demo_rng2_def by auto
  have n: "int64_ok (int (length [(k, 0 :: int)]) + 1)" and u: "utf8_ok ''k''"
    by (simp_all add: int64_ok_def utf8_ok_all_ascii is_ascii_def)
  note m = demo_vault.transit_repD[OF r]
  obtain k1 where "transit_rep mem_badger demo_prims demo_crypto s1 ''k'' (Some ([(k, 0)] @ [(k1, 1)]))"
    using demo_vault.transit_extend_rep[OF m(2) s1 u n] by blast
  from demo_encrypts[OF this] obtain ct where ct: "transit_encrypt mem_badger demo_prims demo_crypto s1 2 demo_rng ''k'' ''m'' = Done (Inr ct)" by blast
  from transit_lost_rotation[OF mem_laws demo_laws m(1) r n u s1 ct s2, where t' = 4] obtain k1 k2 data where
    "rand_read demo_rng 0 32 = Inr k1" "rand_read demo_rng2 0 32 = Inr k2"
    "aesgcm_encrypt_bytes demo_prims demo_rng 0 k1 ''m'' = Inr data"
    "transit_decrypt mem_badger demo_prims demo_crypto s2 4 ''k'' ct = aesgcm_decrypt_bytes demo_prims k2 data" by blast
  moreover note draws
  moreover have "(case aesgcm_encrypt_bytes demo_prims demo_rng 0 (fill 32 ''A'') ''m'' of Inl e \<Rightarrow> False
     | Inr data \<Rightarrow> aesgcm_decrypt_bytes demo_prims (fill 32 ''K'') data = Inl ErrCipherOpen)" by code_simp
  ultimately have "transit_decrypt mem_badger demo_prims demo_crypto s2 4 ''k'' ct = Inl ErrCipherOpen" by auto
  with r s1 ct s2 show ?thesis by blast
qed

section \<open>Names that are not UTF-8\<close>

context vault
begin

text \<open>The name inside the record comes back from JSON with its invalid bytes replaced.\<close>

lemma enc_tm_sanitize:
  assumes "list_all tv_ok (tm_versions m)" "enc_tm P m = Some j"
  shows "enc_tm P (m\<lparr>tm_name := sanitize (tm_name m)\<rparr>) = Some (json_sanitize j)"
proof -
  obtain js where js: "enc_all (enc_tv P) (tm_versions m) = Some js" "\<forall>j\<in>set js. json_utf8 j"
    using enc_all_tv[OF assms(1)] by blast
  have n: "sanitize ''name'' = ''name''" "sanitize ''current_version'' = ''current_version''" "sanitize ''versions'' = ''versions''"
    by (rule sanitize_id, simp)+
  have "map json_sanitize js = js" using js(2) by (intro map_idI json_sanitize_id) auto
  then have "json_sanitize (JObj [(''name'', JStr (tm_name m)), (''current_version'', enc_int (tm_current m)), (''versions'', JArr js)]) =
      JObj [(''name'', JStr (sanitize (tm_name m))), (''current_version'', enc_int (tm_current m)), (''versions'', JArr js)]"
    unfolding json_sanitize.simps list.map prod.case n by (simp add: enc_int_def)
  with assms(2) js(1) show ?thesis by (auto simp: enc_tm_def)
qed

lemma save_transit_sanitized:
  assumes "save_transit B P c s t rng i m = Inr s'" "tm_ok (m\<lparr>tm_name := sanitize (tm_name m)\<rparr>)"
  shows "load_transit B P c s' t' (tm_name m) = Inr (m\<lparr>tm_name := sanitize (tm_name m)\<rparr>)"
proof -
  let ?key = "transit_key (tm_name m)"
  obtain data sealed where d: "json_marshal (enc_tm P) m = Inr data" "crypto_encrypt P c rng i ?key data = Inr sealed"
      "db_set B s t ?key sealed = Inr s'"
    using assms(1) by (auto simp: save_transit_def save_doc_def seal_doc_def split: sum.splits)
  obtain j where j: "enc_tm P m = Some j" using d(1) by (auto simp: json_marshal_def split: option.splits)
  have "list_all tv_ok (tm_versions m)" using assms(2) by (simp add: tm_ok_def)
  from transit.unmarshal_sanitized[OF assms(2) j enc_tm_sanitize[OF this j] d(1)]
  show ?thesis using db.get_after_set[OF _ d(3)] crypto_round_trip[OF d(2)] by (simp add: load_transit_def load_doc_def)
qed

lemma create_sanitized:
  assumes "transit_create B P c s t rng name = Inr s'"
  shows "\<exists>k. rand_read rng 0 32 = Inr k \<and> ring_ok [(k, t)]
    \<and> (\<forall>t'. load_transit B P c s' t' name = Inr (ring_meta (sanitize name) [(k, t)]))"
proof -
  obtain k where k: "rand_read rng 0 32 = Inr k" and w: "save_transit B P c s t rng 1 (ring_meta name [(k, t)]) = Inr s'"
    using assms by (auto simp: transit_create_def ring_meta_def split: sum.splits)
  have "time_ok t" using save_transit_time[OF w, of "\<lparr>tv_version = 1, tv_key = k, tv_created = t\<rparr>"]
    by (simp add: ring_meta_def)
  then have r: "ring_ok [(k, t)]" using rand_read_length[OF k] by (simp add: ring_ok_def int64_ok_def)
  have m: "(ring_meta name [(k, t)])\<lparr>tm_name := sanitize name\<rparr> = ring_meta (sanitize name) [(k, t)]" by (simp add: ring_meta_def)
  have "load_transit B P c s' t' name = Inr (ring_meta (sanitize name) [(k, t)])" for t'
    using save_transit_sanitized[OF w, of t'] tm_ok_ring[OF utf8_ok_sanitize r, of name] m by simp
  with k r show ?thesis by blast
qed

text \<open>Rotate writes the record back under the name that it read from it.\<close>

lemma rotate_sanitized:
  assumes "transit_create B P c s t1 rng1 name = Inr s1" "transit_rotate B P c s1 t2 rng2 name = Inr s2"
  obtains k1 k2 where "rand_read rng1 0 32 = Inr k1" "rand_read rng2 0 32 = Inr k2"
    "transit_rep B P c s2 (sanitize name) (Some [(k1, t1), (k2, t2)])"
    "\<And>t other. other \<noteq> sanitize name \<Longrightarrow> load_transit B P c s2 t other = load_transit B P c s1 t other"
proof -
  obtain k1 where k1: "rand_read rng1 0 32 = Inr k1" "ring_ok [(k1, t1)]"
      "\<And>t. load_transit B P c s1 t name = Inr (ring_meta (sanitize name) [(k1, t1)])"
    using create_sanitized[OF assms(1)] by blast
  then have x: "transit_extend B P c s1 t2 rng2 (ring_meta (sanitize name) [(k1, t1)]) = Inr s2"
    using assms(2) by (simp add: transit_rotate_def)
  obtain k2 where k2: "rand_read rng2 0 32 = Inr k2" "transit_rep B P c s2 (sanitize name) (Some ([(k1, t1)] @ [(k2, t2)]))"
    using transit_extend_rep[OF k1(2) x utf8_ok_sanitize] by (auto simp: int64_ok_def)
  obtain m where m: "save_transit B P c s1 t2 rng2 1 m = Inr s2" "tm_name m = sanitize name"
    using x by (auto simp: transit_extend_def Let_def split: sum.splits)
  from that[OF k1(1) k2(1)] k2(2) save_transit_other[OF m(1)] m(2) show thesis by simp
qed

text \<open>A ciphertext whose version the ring does not have is refused.\<close>

lemma transit_decrypt_past:
  assumes "transit_rep B P c s name (Some ks)" "transit_encrypt B P c s t rng name pt = Done (Inr ct)"
    and "transit_rep B P c s' name (Some ks')" "length ks' < length ks"
  shows "transit_decrypt B P c s' t' name ct = Inl (ErrTransitVersion (int (length ks)) name)"
proof -
  let ?n = "int (length ks)"
  obtain data where d: "ct = format_vault ?n (std_encode data)"
    using assms(2) transit_encrypt_result[OF assms(1)] by (auto split: sum.splits)
  have n: "1 \<le> ?n" "int64_ok ?n" using transit_repD(2)[OF assms(1)] by (auto simp: ring_ok_def Suc_le_eq)
  then have "key_version (ring_from 1 ks') ?n = None" using assms(4) by (simp add: key_version_ring)
  with d n transit_repD(1)[OF assms(3), of t'] parse_format_vault[of ?n "std_encode data"] show ?thesis
    by (simp add: transit_decrypt_def)
qed

end

text \<open>
  C40: Rotate stores the record under the name inside it, and that name comes back from JSON with the bytes that
  are no UTF-8 replaced by U+FFFD. A key whose name is not UTF-8, created and then rotated, therefore replaces the ring of the
  other key that has the replaced name: its versions are lost, both calls report success, and the rotated key has got no new version.
  A ciphertext made under the other name is opened with one of the two keys of the first one, or refused for its version.
\<close>

theorem transit_rotate_overwrites:
  assumes "badger_laws B E" and "prims_laws P" and "sanitize name \<noteq> name"
    and "transit_rep B P c s (sanitize name) (Some ks)"
    and "transit_encrypt B P c s t rng (sanitize name) pt = Done (Inr ct)"
    and "transit_create B P c s t1 rng1 name = Inr s1" and "transit_rotate B P c s1 t2 rng2 name = Inr s2"
  shows "\<exists>k1 k2. rand_read rng1 0 32 = Inr k1 \<and> rand_read rng2 0 32 = Inr k2
    \<and> transit_rep B P c s1 (sanitize name) (Some ks)
    \<and> transit_rep B P c s2 (sanitize name) (Some [(k1, t1), (k2, t2)])
    \<and> load_transit B P c s2 t' name = load_transit B P c s1 t' name
    \<and> (if length ks \<le> 2 then \<exists>data. aesgcm_encrypt_bytes P rng 0 (fst (last ks)) pt = Inr data
          \<and> transit_decrypt B P c s2 t' (sanitize name) ct = aesgcm_decrypt_bytes P ([k1, k2] ! (length ks - 1)) data
       else transit_decrypt B P c s2 t' (sanitize name) ct = Inl (ErrTransitVersion (int (length ks)) (sanitize name)))"
proof -
  note v = vaultI[OF assms(1,2)]
  obtain k1 k2 where k: "rand_read rng1 0 32 = Inr k1" "rand_read rng2 0 32 = Inr k2"
    and r: "transit_rep B P c s2 (sanitize name) (Some [(k1, t1), (k2, t2)])"
    and o: "load_transit B P c s2 t' name = load_transit B P c s1 t' name"
    using vault.rotate_sanitized[OF v assms(6,7)] assms(3) by metis
  have "load_transit B P c s1 t (sanitize name) = load_transit B P c s t (sanitize name)" for t
    by (rule vault.transit_rep_other[OF v disjI1[OF assms(6)] assms(3)])
  from vault.transit_rep_same[OF v assms(4) this] have old: "transit_rep B P c s1 (sanitize name) (Some ks)" .
  have "if length ks \<le> 2 then \<exists>data. aesgcm_encrypt_bytes P rng 0 (fst (last ks)) pt = Inr data
          \<and> transit_decrypt B P c s2 t' (sanitize name) ct = aesgcm_decrypt_bytes P ([k1, k2] ! (length ks - 1)) data
       else transit_decrypt B P c s2 t' (sanitize name) ct = Inl (ErrTransitVersion (int (length ks)) (sanitize name))"
  proof (cases "length ks \<le> 2")
    case True
    then have "length ks \<le> length [(k1, t1), (k2, t2)]" by simp
    from vault.transit_decrypts_with[OF v assms(4,5) r this, of t'] obtain data where
      "aesgcm_encrypt_bytes P rng 0 (fst (last ks)) pt = Inr data"
      "transit_decrypt B P c s2 t' (sanitize name) ct = aesgcm_decrypt_bytes P (fst ([(k1, t1), (k2, t2)] ! (length ks - 1))) data"
      by blast
    moreover have "length ks - 1 = 0 \<or> length ks - 1 = 1" using True by linarith
    then have "fst ([(k1, t1), (k2, t2)] ! (length ks - 1)) = [k1, k2] ! (length ks - 1)" by auto
    ultimately show ?thesis using True by simp
  next
    case False
    with vault.transit_decrypt_past[OF v assms(4,5) r] show ?thesis by simp
  qed
  with k r o old show ?thesis by blast
qed

theorem transit_rotate_overwrites_witness:
  "\<exists>s ct s1 s2. transit_encrypt mem_badger demo_prims demo_crypto s 1 demo_rng (''k'' @ replacement) ''m'' = Done (Inr ct)
    \<and> transit_decrypt mem_badger demo_prims demo_crypto s 1 (''k'' @ replacement) ct = Inr ''m''
    \<and> transit_create mem_badger demo_prims demo_crypto s 2 demo_rng2 (''k'' @ [CHR 0xFF]) = Inr s1
    \<and> transit_rotate mem_badger demo_prims demo_crypto s1 3 demo_rng (''k'' @ [CHR 0xFF]) = Inr s2
    \<and> transit_decrypt mem_badger demo_prims demo_crypto s2 4 (''k'' @ replacement) ct = Inl ErrCipherOpen"
proof -
  let ?bad = "''k'' @ [CHR 0xFF]" and ?good = "''k'' @ replacement"
  have t: "time_ok 0" "time_ok 2" "time_ok 3" by (simp_all add: time_ok_def second_def)
  have names: "sanitize ?bad = ?good" "?good \<noteq> ?bad" by code_simp+
  have u: "utf8_ok ?good" using utf8_ok_sanitize[of ?bad] names(1) by simp
  have draw: "rand_read demo_rng2 0 32 = Inr (fill 32 ''K'')" by code_simp
  obtain s where s: "transit_create mem_badger demo_prims demo_crypto [] 0 demo_rng ?good = Inr s"
    using demo_create_at[OF demo_transit_empty t(1)] by blast
  then have r: "transit_rep mem_badger demo_prims demo_crypto s ?good (Some [(fill 32 ''A'', 0)])"
    using demo_vault.create_sanitized[OF s] sanitize_id[OF u] demo_draw_key by (auto simp: transit_rep_def)
  have "load_transit mem_badger demo_prims demo_crypto s 2 ?bad = load_transit mem_badger demo_prims demo_crypto [] 2 ?bad"
    by (rule demo_vault.transit_rep_other[OF disjI1[OF s]]) (use names(2) in simp)
  then have "load_transit mem_badger demo_prims demo_crypto s 2 ?bad = Inl (ErrTransitNotFound ?bad)"
    using demo_transit_empty[of ?bad] by (simp add: transit_rep_def)
  from demo_create_with[OF this t(2) draw] obtain s1 where s1: "transit_create mem_badger demo_prims demo_crypto s 2 demo_rng2 ?bad = Inr s1"
    by (auto simp: demo_rng2_def)
  obtain k1 where "load_transit mem_badger demo_prims demo_crypto s1 3 ?bad = Inr (ring_meta (sanitize ?bad) [(k1, 2)])"
    using demo_vault.create_sanitized[OF s1] by blast
  then obtain s2 where s2: "transit_rotate mem_badger demo_prims demo_crypto s1 3 demo_rng ?bad = Inr s2"
    using demo_extend[OF t(3) demo_draw_key _ t(2), of _ s1 "sanitize ?bad" k1] by (auto simp: transit_rotate_def demo_rng_def)
  from demo_encrypts[OF r] obtain ct where ct: "transit_encrypt mem_badger demo_prims demo_crypto s 1 demo_rng ?good ''m'' = Done (Inr ct)" by blast
  have d: "transit_decrypt mem_badger demo_prims demo_crypto s 1 ?good ct = Inr ''m''"
    using demo_vault.transit_decrypts[OF r ct, of s "[]" 1] r by simp
  have g: "(case aesgcm_encrypt_bytes demo_prims demo_rng 0 (fill 32 ''A'') ''m'' of Inl e \<Rightarrow> False
     | Inr data \<Rightarrow> aesgcm_decrypt_bytes demo_prims (fill 32 ''K'') data = Inl ErrCipherOpen)" by code_simp
  from transit_rotate_overwrites[OF mem_laws demo_laws _ r[folded names(1)] ct[folded names(1)] s1 s2, of 4] names
  have "transit_decrypt mem_badger demo_prims demo_crypto s2 4 ?good ct = Inl ErrCipherOpen"
    using g draw by (auto split: sum.splits)
  with ct d s1 s2 show ?thesis by blast
qed

text \<open>
  C29: The parser accepts exactly the strings of the form vault:vN:data whose middle part has
  no colon and scans as a version, and it inverts the format that Encrypt prints.
\<close>

theorem parse_vault_iff:
  "(parse_vault ct = Inr (v, encoded) \<longleftrightarrow>
     (\<exists>b. ct = ''vault:'' @ b @ '':'' @ encoded \<and> CHR '':'' \<notin> set b \<and> sscanf_v b = Some v))
   \<and> (0 \<le> v \<and> int64_ok v \<longrightarrow> parse_vault (format_vault v encoded) = Inr (v, encoded))"
  using parse_vault_Inr parse_format_vault by blast

theorem parse_vault_iff_witness:
  "parse_vault (format_vault 12 ''QUJD'') = Inr (12, ''QUJD'') \<and> parse_vault ''vault:v1'' \<noteq> Inr (1, ''x'')"
proof -
  have "0 \<le> (12 :: int) \<and> int64_ok 12" by (simp add: int64_ok_def)
  moreover have "\<not> (\<exists>b. ''vault:v1'' = ''vault:'' @ b @ '':'' @ ''x'' \<and> CHR '':'' \<notin> set b \<and> sscanf_v b = Some 1)"
    by (auto simp: Cons_eq_append_conv)
  ultimately show ?thesis using parse_vault_iff[of _ 12 "''QUJD''"] parse_vault_iff[of "''vault:v1''" 1 "''x''"] by blast
qed

text \<open>
  Info gives the name, the version numbers and the creation times of a key and none of its
  bytes.
\<close>

theorem transit_info_no_keys:
  "case transit_info B P c s t name of
     Inl e \<Rightarrow> load_transit B P c s t name = Inl e
   | Inr info \<Rightarrow> set (map tv_key (tm_versions info)) \<subseteq> {[]}
       \<and> (\<exists>m. load_transit B P c s t name = Inr m \<and> tm_name info = tm_name m \<and> tm_current info = tm_current m
            \<and> map (\<lambda>v. (tv_version v, tv_created v)) (tm_versions info)
              = map (\<lambda>v. (tv_version v, tv_created v)) (tm_versions m))"
  by (auto simp: transit_info_def split: sum.splits)

end
