(* ===== verification/Go_Path.thy ===== *)
theory Go_Path
  imports Go_Strings
begin

text \<open>
  Go's path.Clean and filepath.Join on slash-separated paths: the path is cut into segments,
  empty and "." segments are dropped, ".." removes the segment before it (and stays at the
  front of a relative path), and an empty result is ".".
\<close>

fun segments :: "string \<Rightarrow> string list" where
  "segments [] = [[]]"
| "segments (c # s) = (case segments s of
     [] \<Rightarrow> [[c]]
   | x # xs \<Rightarrow> if c = CHR ''/'' then [] # x # xs else (c # x) # xs)"

fun join_segments :: "string list \<Rightarrow> string" where
  "join_segments [] = []"
| "join_segments [x] = x"
| "join_segments (x # y # xs) = x @ ''/'' @ join_segments (y # xs)"

text \<open>The segments kept so far, last first.\<close>

fun clean_segments :: "bool \<Rightarrow> string list \<Rightarrow> string list \<Rightarrow> string list" where
  "clean_segments rooted out [] = rev out"
| "clean_segments rooted out (x # xs) =
     (if x = [] \<or> x = ''.'' then clean_segments rooted out xs
      else if x = ''..'' then
        (if out \<noteq> [] \<and> hd out \<noteq> ''..'' then clean_segments rooted (tl out) xs
         else if rooted then clean_segments rooted out xs
         else clean_segments rooted (x # out) xs)
      else clean_segments rooted (x # out) xs)"

definition path_clean :: "string \<Rightarrow> string" where
  "path_clean s =
     (let rooted = has_prefix s ''/'';
          r = (if rooted then ''/'' else []) @ join_segments (clean_segments rooted [] (segments s))
      in if r = [] then ''.'' else r)"

text \<open>filepath.Join of two elements: empty elements are ignored.\<close>

definition path_join :: "string \<Rightarrow> string \<Rightarrow> string" where
  "path_join a b = (if a = [] \<and> b = [] then [] else if a = [] then path_clean b
     else if b = [] then path_clean a else path_clean (a @ ''/'' @ b))"

lemma segments_nonempty [simp]: "segments s \<noteq> []"
  by (induction s) (auto split: list.splits)

lemma join_segments_inverse: "join_segments (segments s) = s"
proof (induction s)
  case (Cons c s)
  then show ?case by (cases "segments s") (auto, case_tac list, auto)
qed simp

text \<open>A path joined with a plain name ends in the name.\<close>

definition plain_name :: "string \<Rightarrow> bool" where
  "plain_name b \<longleftrightarrow> b \<noteq> [] \<and> b \<noteq> ''.'' \<and> b \<noteq> ''..'' \<and> CHR ''/'' \<notin> set b"

lemma segments_plain: "CHR ''/'' \<notin> set b \<Longrightarrow> segments b = [b]"
  by (induction b) auto

lemma segments_append: "segments (a @ CHR ''/'' # b) = segments a @ segments b"
proof (induction a)
  case Nil
  then show ?case by (cases "segments b") auto
next
  case (Cons c a)
  then show ?case by (cases "segments a") auto
qed

lemma clean_segments_last:
  "plain_name b \<Longrightarrow> \<exists>ys. clean_segments rooted out (xs @ [b]) = ys @ [b]"
  by (induction rooted out xs rule: clean_segments.induct) (auto simp: plain_name_def)

lemma join_segments_last: "\<exists>p. join_segments (ys @ [b]) = p @ b"
proof (induction ys)
  case (Cons y ys)
  then obtain p where "join_segments (ys @ [b]) = p @ b" by blast
  then show ?case by (cases ys) (auto intro: exI[of _ "y @ ''/'' @ p"])
qed simp

lemma path_join_ends:
  assumes "plain_name b"
  shows "\<exists>p. path_join a b = p @ b"
proof -
  have "\<exists>p. path_clean x = p @ b" if "segments x = xs @ [b]" for x xs
  proof -
    obtain ys p where "clean_segments (has_prefix x ''/'') [] (xs @ [b]) = ys @ [b]" "join_segments (ys @ [b]) = p @ b"
      using clean_segments_last[OF assms] join_segments_last by metis
    then show ?thesis using that assms
      by (auto simp: path_clean_def Let_def plain_name_def intro: exI[of _ "''/'' @ p"])
  qed
  note ends = this
  show ?thesis
  proof (cases "a = []")
    case True
    then show ?thesis using ends[of b "[]"] assms segments_plain[of b] by (simp add: path_join_def plain_name_def)
  next
    case False
    have "segments (a @ ''/'' @ b) = segments a @ [b]"
      using assms segments_plain[of b] segments_append[of a b] by (simp add: plain_name_def)
    then show ?thesis using ends False assms by (simp add: path_join_def plain_name_def)
  qed
qed

end
