(* ===== verification/Http.thy ===== *)
theory Http
  imports Go_Path Go_Json
begin

text \<open>
  What the API uses of net/http and net/url: requests as the server hands them to a handler,
  responses as a status and a body, query parameters, and http.ServeMux on patterns without
  methods and wildcards. internal/api/response.go writes the responses.
\<close>

section \<open>Requests and responses\<close>

text \<open>
  \<open>req_path\<close> is URL.Path and \<open>req_escaped\<close> is URL.EscapedPath(): the parser of net/url keeps
  them consistent, and nothing here depends on it. Header names are canonical. The body is what
  can be read of it.
\<close>

record request =
  req_method :: string
  req_path :: string
  req_escaped :: string
  req_query :: string
  req_headers :: "(string \<times> string) list"
  req_body :: bytes
  req_remote :: string

record response =
  resp_status :: nat
  resp_type :: string
  resp_body :: bytes

definition header_get :: "request \<Rightarrow> string \<Rightarrow> string" where
  "header_get r name = (case map_of (req_headers r) name of None \<Rightarrow> [] | Some v \<Rightarrow> v)"

section \<open>Query parameters\<close>

text \<open>url.PathUnescape, and url.QueryUnescape, for which a plus sign is a space.\<close>

fun url_unescape :: "bool \<Rightarrow> string \<Rightarrow> string option" where
  "url_unescape query [] = Some []"
| "url_unescape query (c # s) =
     (if c = CHR ''%'' then
        (case s of a # b # r \<Rightarrow>
           (case (hex_val a, hex_val b) of
              (Some x, Some y) \<Rightarrow> map_option ((#) (char_of (16 * x + y))) (url_unescape query r)
            | _ \<Rightarrow> None)
         | _ \<Rightarrow> None)
      else map_option ((#) (if query \<and> c = CHR ''+'' then CHR '' '' else c)) (url_unescape query s))"

text \<open>strings.Cut at a byte, without the report whether it was found.\<close>

definition cut_at :: "char \<Rightarrow> string \<Rightarrow> string \<times> string" where
  "cut_at c s = (takeWhile (\<lambda>x. x \<noteq> c) s, drop 1 (dropWhile (\<lambda>x. x \<noteq> c) s))"

text \<open>url.ParseQuery: a setting with a semicolon or a bad escape is skipped.\<close>

definition parse_setting :: "string \<Rightarrow> (string \<times> string) option" where
  "parse_setting s =
     (if CHR '';'' \<in> set s \<or> s = [] then None
      else (let (k, v) = cut_at (CHR ''='') s in
        case (url_unescape True k, url_unescape True v) of
          (Some k', Some v') \<Rightarrow> Some (k', v') | _ \<Rightarrow> None))"

definition parse_query :: "string \<Rightarrow> (string \<times> string) list" where
  "parse_query q = List.map_filter parse_setting (split_n q (CHR ''&'') (length q + 1))"

definition query_get :: "request \<Rightarrow> string \<Rightarrow> string" where
  "query_get r name = (case map_of (parse_query (req_query r)) name of None \<Rightarrow> [] | Some v \<Rightarrow> v)"

section \<open>ServeMux\<close>

text \<open>
  The matcher walks the escaped path segment by segment, each one unescaped on its own (and
  left as it is when its escapes are bad). A trailing slash is a segment of its own.
\<close>

definition segment_text :: "string \<Rightarrow> string" where
  "segment_text s = (case url_unescape False s of None \<Rightarrow> s | Some t \<Rightarrow> t)"

function path_segments :: "string \<Rightarrow> string list" where
  "path_segments p = (if p = [] then [] else if p = ''/'' then [''/'']
     else segment_text (takeWhile (\<lambda>c. c \<noteq> CHR ''/'') (tl p))
        # path_segments (dropWhile (\<lambda>c. c \<noteq> CHR ''/'') (tl p)))"
  by pat_completeness auto
termination
proof (relation "measure length")
  fix p :: string assume "p \<noteq> []"
  then have "length (tl p) < length p" by (cases p) auto
  then show "(dropWhile (\<lambda>c. c \<noteq> CHR ''/'') (tl p), p) \<in> measure length"
    using length_dropWhile_le[of "\<lambda>c. c \<noteq> CHR ''/''" "tl p"] by simp
qed simp

declare path_segments.simps [simp del]

text \<open>A pattern is its segments and whether it ends in a slash and so covers a subtree.\<close>

type_synonym 'h patterns = "((string list \<times> bool) \<times> 'h) list"

text \<open>The tree walk: a longer literal match first, then the subtree pattern at this place.\<close>

fun mux_find :: "'h patterns \<Rightarrow> string list \<Rightarrow> string list \<Rightarrow> 'h option" where
  "mux_find ps seen [] = map_of ps (seen, False)"
| "mux_find ps seen (x # xs) = (case mux_find ps (seen @ [x]) xs of
     Some h \<Rightarrow> Some h | None \<Rightarrow> map_of ps (seen, True))"

text \<open>net/http's cleanPath: path.Clean, with the trailing slash put back.\<close>

definition clean_url :: "string \<Rightarrow> string" where
  "clean_url p =
     (if p = [] then ''/'' else
       (let p = (if hd p = CHR ''/'' then p else CHR ''/'' # p); np = path_clean p in
        if last p = CHR ''/'' \<and> np \<noteq> ''/'' then np @ ''/'' else np))"

datatype 'h mux_result = MuxHandler 'h | MuxRedirect | MuxNotFound | MuxBadRequest

definition mux_route :: "'h patterns \<Rightarrow> request \<Rightarrow> 'h mux_result" where
  "mux_route ps r =
     (if req_escaped r = ''*'' then MuxBadRequest
      else
       (let path = (if req_method r = ''CONNECT'' then req_escaped r else clean_url (req_escaped r));
            segs = path_segments path in
        if \<not> has_suffix path ''/'' \<and> map_of ps (segs, False) = None \<and> map_of ps (segs, True) \<noteq> None
        then MuxRedirect
        else if path \<noteq> req_escaped r then MuxRedirect
        else (case mux_find ps [] segs of None \<Rightarrow> MuxNotFound | Some h \<Rightarrow> MuxHandler h)))"

text \<open>
  The answers of the mux itself. The address of a redirect and its page are not modelled.
\<close>

definition plain_response :: "nat \<Rightarrow> string \<Rightarrow> response" where
  "plain_response status text = \<lparr>resp_status = status, resp_type = ''text/plain; charset=utf-8'', resp_body = text\<rparr>"

definition not_found_response :: response where
  "not_found_response = plain_response 404 (''404 page not found'' @ [CHR 0x0A])"

section \<open>response.go\<close>

definition envelope :: "json \<Rightarrow> json \<Rightarrow> string \<Rightarrow> json" where
  "envelope data e request_id = JObj [(''data'', data), (''error'', e), (''request_id'', JStr request_id)]"

text \<open>Encoder.Encode writes nothing when a value cannot be marshalled, and ends with a newline.\<close>

definition encode_body :: "json option \<Rightarrow> bytes" where
  "encode_body j = (case j of None \<Rightarrow> [] | Some j \<Rightarrow> json_print j @ [CHR 0x0A])"

definition json_response :: "nat \<Rightarrow> json option \<Rightarrow> response" where
  "json_response status j = \<lparr>resp_status = status, resp_type = ''application/json'', resp_body = encode_body j\<rparr>"

definition write_json :: "string \<Rightarrow> nat \<Rightarrow> json option \<Rightarrow> response" where
  "write_json request_id status data =
     json_response status (map_option (\<lambda>d. envelope d JNull request_id) data)"

definition write_error :: "nat \<Rightarrow> string \<Rightarrow> response" where
  "write_error status msg = json_response status (Some (envelope JNull (JStr msg) []))"

definition write_error_rid :: "string \<Rightarrow> nat \<Rightarrow> string \<Rightarrow> response" where
  "write_error_rid request_id status msg = json_response status (Some (envelope JNull (JStr msg) request_id))"

lemma response_status [simp]:
  "resp_status (plain_response st x) = st" "resp_status (write_json rid st d) = st"
  "resp_status (write_error st m) = st" "resp_status (write_error_rid rid st m) = st"
  "resp_status not_found_response = 404"
  by (simp_all add: plain_response_def write_json_def write_error_def write_error_rid_def json_response_def
      not_found_response_def)

section \<open>Lemmas on routing\<close>

lemma mux_find_literal:
  "mux_find ps seen segs = Some h \<Longrightarrow>
   (\<exists>pre post. segs = pre @ post \<and> (map_of ps (seen @ pre, post \<noteq> []) = Some h))"
proof (induction ps seen segs rule: mux_find.induct)
  case (2 ps seen x xs)
  show ?case
  proof (cases "mux_find ps (seen @ [x]) xs")
    case None
    then show ?thesis using "2.prems" by (intro exI[of _ "[]"] exI[of _ "x # xs"]) simp
  next
    case (Some h')
    then have "mux_find ps (seen @ [x]) xs = Some h" using "2.prems" by simp
    from "2.IH"[OF this] obtain pre post where "xs = pre @ post" "map_of ps ((seen @ [x]) @ pre, post \<noteq> []) = Some h"
      by blast
    then show ?thesis by (intro exI[of _ "x # pre"] exI[of _ post]) simp
  qed
qed simp

text \<open>An exact pattern wins, and otherwise the deepest subtree pattern.\<close>

lemma mux_find_exact: "map_of ps (seen @ segs, False) = Some h \<Longrightarrow> mux_find ps seen segs = Some h"
  by (induction ps seen segs rule: mux_find.induct) auto

lemma mux_find_subtree:
  assumes "map_of ps (seen @ pre, True) = Some h" "post \<noteq> []"
    and "\<And>pre' post'. post = pre' @ post' \<Longrightarrow> pre' \<noteq> [] \<Longrightarrow> map_of ps (seen @ pre @ pre', post' \<noteq> []) = None"
  shows "mux_find ps seen (pre @ post) = Some h"
  using assms
proof (induction pre arbitrary: seen)
  case Nil
  obtain x xs where post: "post = x # xs" using Nil(2) by (cases post) auto
  have "mux_find ps (seen @ [x]) xs = None"
  proof (rule ccontr)
    assume "mux_find ps (seen @ [x]) xs \<noteq> None"
    then obtain h' where h': "mux_find ps (seen @ [x]) xs = Some h'" by blast
    from mux_find_literal[OF h'] obtain a b where "xs = a @ b" "map_of ps ((seen @ [x]) @ a, b \<noteq> []) = Some h'"
      by blast
    then show False using Nil(3)[of "x # a" b] post by simp
  qed
  then show ?case using Nil(1) by (simp add: post)
next
  case (Cons y pre)
  have "mux_find ps (seen @ [y]) (pre @ post) = Some h" using Cons by (intro Cons.IH) auto
  then show ?case by simp
qed

end
