(* ===== verification/Policy.thy ===== *)
theory Policy
  imports Go_Path
begin

text \<open>
  internal/policy/policy.go: capabilities, rules and policies, the three built-in policies, the
  engine that holds the policies loaded from YAML files, and the decision Allowed. The file
  system and the YAML parser are parameters (\<open>policy_files\<close>).
\<close>

section \<open>Policies\<close>

type_synonym capability = string

definition CapRead :: capability where "CapRead = ''read''"
definition CapWrite :: capability where "CapWrite = ''write''"
definition CapDelete :: capability where "CapDelete = ''delete''"
definition CapList :: capability where "CapList = ''list''"
definition CapEncrypt :: capability where "CapEncrypt = ''encrypt''"
definition CapDecrypt :: capability where "CapDecrypt = ''decrypt''"

lemmas cap_defs = CapRead_def CapWrite_def CapDelete_def CapList_def CapEncrypt_def CapDecrypt_def

record rule =
  rule_path :: string
  rule_caps :: "capability list"
  rule_deny :: bool

record policy =
  policy_name :: string
  policy_desc :: string
  policy_rules :: "rule list"

definition builtins :: "string \<Rightarrow> policy option" where
  "builtins = [
     ''readonly'' \<mapsto> \<lparr>policy_name = ''readonly'', policy_desc = ''Read and list all KV secrets'',
       policy_rules = [\<lparr>rule_path = ''secrets/kv/*'', rule_caps = [CapRead, CapList], rule_deny = False\<rparr>]\<rparr>,
     ''readwrite'' \<mapsto> \<lparr>policy_name = ''readwrite'',
       policy_desc = ''Full access to KV secrets and transit encrypt/decrypt'',
       policy_rules = [
         \<lparr>rule_path = ''secrets/kv/*'', rule_caps = [CapRead, CapWrite, CapDelete, CapList], rule_deny = False\<rparr>,
         \<lparr>rule_path = ''secrets/transit/*'', rule_caps = [CapEncrypt, CapDecrypt], rule_deny = False\<rparr>]\<rparr>,
     ''admin'' \<mapsto> \<lparr>policy_name = ''admin'', policy_desc = ''Full access to all secret engines'',
       policy_rules = [
         \<lparr>rule_path = ''secrets/kv/*'', rule_caps = [CapRead, CapWrite, CapDelete, CapList], rule_deny = False\<rparr>,
         \<lparr>rule_path = ''secrets/transit/*'', rule_caps = [CapEncrypt, CapDecrypt], rule_deny = False\<rparr>]\<rparr>]"

definition builtin_names :: "string list" where
  "builtin_names = [''readonly'', ''readwrite'', ''admin'']"

section \<open>Decisions\<close>

definition match_path :: "string \<Rightarrow> string \<Rightarrow> bool" where
  "match_path pattern path =
     (if has_suffix pattern ''/*'' then
        (let prefix = trim_suffix pattern ''/*'' in
         has_prefix path (prefix @ ''/'') \<or> path = prefix)
      else pattern = path)"

fun has_capability :: "capability list \<Rightarrow> capability \<Rightarrow> bool" where
  "has_capability [] target = False"
| "has_capability (c # cs) target = (if c = target then True else has_capability cs target)"

text \<open>The loop of Allowed over the rules.\<close>

fun rules_allow :: "rule list \<Rightarrow> string \<Rightarrow> capability \<Rightarrow> bool \<Rightarrow> bool" where
  "rules_allow [] path cap allowed = allowed"
| "rules_allow (r # rs) path cap allowed =
     (if \<not> match_path (rule_path r) path then rules_allow rs path cap allowed
      else if rule_deny r then False
      else if has_capability (rule_caps r) cap then rules_allow rs path cap True
      else rules_allow rs path cap allowed)"

record engine =
  policies :: "string \<Rightarrow> policy option"
  policy_dir :: string

definition new_engine :: "string \<Rightarrow> engine" where
  "new_engine dir = \<lparr>policies = Map.empty, policy_dir = dir\<rparr>"

definition policy_get :: "engine \<Rightarrow> string \<Rightarrow> policy option" where
  "policy_get e name = policies e name"

definition policy_allowed :: "engine \<Rightarrow> string \<Rightarrow> string \<Rightarrow> capability \<Rightarrow> bool" where
  "policy_allowed e name path cap =
     (if name = ''root'' then True
      else (case policies e name of
        Some p \<Rightarrow> rules_allow (policy_rules p) path cap False
      | None \<Rightarrow> (case builtins name of
          None \<Rightarrow> False
        | Some p \<Rightarrow> rules_allow (policy_rules p) path cap False)))"

section \<open>Loading\<close>

text \<open>
  What the loader sees of the world: os.ReadDir of a directory (absent, unreadable, or its
  entries in name order), os.ReadFile, and yaml.Unmarshal into a Policy.
\<close>

record dir_entry =
  entry_name :: string
  entry_is_dir :: bool

datatype dir_result = DirMissing | DirUnreadable | DirEntries "dir_entry list"

record policy_files =
  read_dir :: "string \<Rightarrow> dir_result"
  read_file :: "string \<Rightarrow> bytes option"
  yaml_policy :: "bytes \<Rightarrow> policy option"

definition is_yaml :: "string \<Rightarrow> bool" where
  "is_yaml name \<longleftrightarrow> has_suffix name ''.yaml'' \<or> has_suffix name ''.yml''"

definition load_file :: "policy_files \<Rightarrow> string \<Rightarrow> err + policy" where
  "load_file F path = (case read_file F path of
     None \<Rightarrow> Inl (ErrFile path)
   | Some data \<Rightarrow> (case yaml_policy F data of
        None \<Rightarrow> Inl ErrYaml
      | Some p \<Rightarrow> if policy_name p = [] then Inl (ErrMissingPolicyName path) else Inr p))"

fun load_entries ::
  "policy_files \<Rightarrow> string \<Rightarrow> dir_entry list \<Rightarrow> (string \<Rightarrow> policy option) \<Rightarrow> err + (string \<Rightarrow> policy option)" where
  "load_entries F dir [] loaded = Inr loaded"
| "load_entries F dir (entry # entries) loaded =
     (if entry_is_dir entry \<or> \<not> is_yaml (entry_name entry) then load_entries F dir entries loaded
      else (case load_file F (path_join dir (entry_name entry)) of
        Inl err \<Rightarrow> Inl (Wrapped (''load policy '' @ entry_name entry) err)
      | Inr p \<Rightarrow> load_entries F dir entries (loaded(policy_name p \<mapsto> p))))"

definition load_all :: "policy_files \<Rightarrow> engine \<Rightarrow> err + engine" where
  "load_all F e = (case read_dir F (policy_dir e) of
     DirMissing \<Rightarrow> Inr e
   | DirUnreadable \<Rightarrow> Inl (Wrapped (''read policy dir '' @ policy_dir e) (ErrFile (policy_dir e)))
   | DirEntries entries \<Rightarrow> (case load_entries F (policy_dir e) entries Map.empty of
        Inl err \<Rightarrow> Inl err
      | Inr loaded \<Rightarrow> Inr (e\<lparr>policies := loaded\<rparr>)))"

definition load_policy :: "policy_files \<Rightarrow> engine \<Rightarrow> string \<Rightarrow> err + engine" where
  "load_policy F e path = (case load_file F path of
     Inl err \<Rightarrow> Inl err
   | Inr p \<Rightarrow> Inr (e\<lparr>policies := (policies e)(policy_name p \<mapsto> p)\<rparr>))"

definition set_policy :: "engine \<Rightarrow> policy \<Rightarrow> engine" where
  "set_policy e p = e\<lparr>policies := (policies e)(policy_name p \<mapsto> p)\<rparr>"

section \<open>Lemmas of the decision\<close>

lemma has_capability_iff: "has_capability cs target \<longleftrightarrow> target \<in> set cs"
  by (induction cs) auto

definition applies :: "string \<Rightarrow> rule \<Rightarrow> bool" where
  "applies path r \<longleftrightarrow> match_path (rule_path r) path"

lemma rules_allow_iff:
  "rules_allow rs path cap acc \<longleftrightarrow>
     (acc \<or> (\<exists>r\<in>set rs. applies path r \<and> cap \<in> set (rule_caps r)))
     \<and> \<not> (\<exists>r\<in>set rs. applies path r \<and> rule_deny r)"
  by (induction rs arbitrary: acc) (auto simp: applies_def has_capability_iff)

text \<open>The policy a name stands for: the loaded one, or else the built-in one.\<close>

definition effective :: "engine \<Rightarrow> string \<Rightarrow> policy option" where
  "effective e = builtins ++ policies e"

lemma policy_allowed_effective:
  "policy_allowed e name path cap \<longleftrightarrow> name = ''root'' \<or>
     (\<exists>p. effective e name = Some p \<and> rules_allow (policy_rules p) path cap False)"
  by (auto simp: policy_allowed_def effective_def map_add_def split: option.splits)

lemma match_path_star:
  "match_path (p @ ''/*'') path \<longleftrightarrow> path = p \<or> (\<exists>r. path = p @ ''/'' @ r)"
  by (auto simp: match_path_def has_prefix_iff)

lemma match_path_exact: "\<not> has_suffix pattern ''/*'' \<Longrightarrow> match_path pattern path \<longleftrightarrow> path = pattern"
  by (auto simp: match_path_def)

lemma builtins_root: "builtins ''root'' = None"
  by (simp add: builtins_def)

text \<open>
  The names under which an engine holds its policies are the policies' own.
\<close>

definition engine_wf :: "engine \<Rightarrow> bool" where
  "engine_wf e \<longleftrightarrow> (\<forall>n p. policies e n = Some p \<longrightarrow> policy_name p = n)"

lemma engine_wf_new [simp]: "engine_wf (new_engine dir)"
  by (simp add: engine_wf_def new_engine_def)

lemma engine_wf_set [simp]: "engine_wf e \<Longrightarrow> engine_wf (set_policy e p)"
  by (auto simp: engine_wf_def set_policy_def)

lemma load_file_name: "load_file F path = Inr p \<Longrightarrow> policy_name p \<noteq> []"
  by (auto simp: load_file_def split: option.splits if_splits)

lemma engine_wf_load: "engine_wf e \<Longrightarrow> load_policy F e path = Inr e' \<Longrightarrow> engine_wf e'"
  by (auto simp: engine_wf_def load_policy_def split: sum.splits if_splits)

text \<open>The entries of a directory that LoadAll reads, and the loading of one.\<close>

definition policy_entries :: "dir_entry list \<Rightarrow> dir_entry list" where
  "policy_entries entries = filter (\<lambda>x. \<not> entry_is_dir x \<and> is_yaml (entry_name x)) entries"

definition load_entry :: "policy_files \<Rightarrow> string \<Rightarrow> dir_entry \<Rightarrow> err + policy" where
  "load_entry F dir x = load_file F (path_join dir (entry_name x))"

definition by_name :: "policy list \<Rightarrow> string \<Rightarrow> policy option" where
  "by_name ps = map_of (rev (map (\<lambda>p. (policy_name p, p)) ps))"

lemma by_name_Cons: "m(policy_name p \<mapsto> p) ++ by_name ps = m ++ by_name (p # ps)"
  by (auto simp: by_name_def map_add_def fun_eq_iff split: option.splits)

lemma policy_entries_Cons:
  "policy_entries (x # xs) = (if \<not> entry_is_dir x \<and> is_yaml (entry_name x)
     then x # policy_entries xs else policy_entries xs)"
  by (simp add: policy_entries_def)

lemma load_entries_Inr:
  "load_entries F dir entries m = Inr loaded \<longleftrightarrow>
   (\<exists>ps. map (load_entry F dir) (policy_entries entries) = map Inr ps \<and> loaded = m ++ by_name ps)"
proof (induction entries arbitrary: m)
  case Nil
  then show ?case by (auto simp: policy_entries_def by_name_def)
next
  case (Cons x xs)
  show ?case
  proof (cases "\<not> entry_is_dir x \<and> is_yaml (entry_name x)")
    case False
    then show ?thesis using Cons by (auto simp: policy_entries_Cons)
  next
    case t: True
    show ?thesis
    proof (cases "load_entry F dir x")
      case (Inl err)
      with t show ?thesis by (auto simp: policy_entries_Cons load_entry_def Cons_eq_map_conv)
    next
      case (Inr p)
      have "(\<exists>ps. load_entry F dir x # map (load_entry F dir) (policy_entries xs) = map Inr ps \<and> loaded = m ++ by_name ps)
        \<longleftrightarrow> (\<exists>ps. map (load_entry F dir) (policy_entries xs) = map Inr ps \<and> loaded = m ++ by_name (p # ps))"
        unfolding Inr by (auto simp: Cons_eq_map_conv)
      moreover have s: "load_entries F dir (x # xs) m = load_entries F dir xs (m(policy_name p \<mapsto> p))"
        using t Inr by (simp add: load_entry_def)
      moreover have "policy_entries (x # xs) = x # policy_entries xs" using t by (simp add: policy_entries_Cons)
      ultimately show ?thesis unfolding s Cons.IH by_name_Cons by simp
    qed
  qed
qed

lemma load_entries_Inl:
  "load_entries F dir entries m = Inl err \<longleftrightarrow>
   (\<exists>pre x post err'. policy_entries entries = pre @ x # post
      \<and> (\<forall>y\<in>set pre. \<exists>p. load_entry F dir y = Inr p)
      \<and> load_entry F dir x = Inl err' \<and> err = Wrapped (''load policy '' @ entry_name x) err')"
    (is "_ \<longleftrightarrow> ?R (policy_entries entries)")
proof (induction entries arbitrary: m)
  case Nil
  then show ?case by (simp add: policy_entries_def)
next
  case (Cons x xs)
  show ?case
  proof (cases "\<not> entry_is_dir x \<and> is_yaml (entry_name x)")
    case False
    then show ?thesis using Cons by (auto simp: policy_entries_Cons)
  next
    case t: True
    show ?thesis
    proof (cases "load_entry F dir x")
      case (Inl err')
      have "?R (x # policy_entries xs) \<longleftrightarrow> err = Wrapped (''load policy '' @ entry_name x) err'"
      proof
        assume "?R (x # policy_entries xs)"
        then obtain pre y post e where r: "x # policy_entries xs = pre @ y # post"
            "\<forall>y\<in>set pre. \<exists>p. load_entry F dir y = Inr p" "load_entry F dir y = Inl e"
            "err = Wrapped (''load policy '' @ entry_name y) e" by blast
        then have "pre = []" using Inl by (cases pre) auto
        with r Inl show "err = Wrapped (''load policy '' @ entry_name x) err'" by auto
      next
        assume "err = Wrapped (''load policy '' @ entry_name x) err'"
        with Inl show "?R (x # policy_entries xs)" by (intro exI[of _ "[]"]) auto
      qed
      then show ?thesis using t Inl by (simp add: policy_entries_Cons load_entry_def eq_commute[of err])
    next
      case (Inr p)
      then have "?R (x # policy_entries xs) \<longleftrightarrow> ?R (policy_entries xs)"
        by (auto simp: Cons_eq_append_conv) (metis list.set_intros(1) set_ConsD)+
      then show ?thesis using t Inr Cons.IH by (simp add: policy_entries_Cons load_entry_def)
    qed
  qed
qed

section \<open>Properties\<close>

text \<open>
  C9: Allowed grants a capability exactly when the policy name is root, or the policy the name
  stands for (a loaded policy before a built-in one) has a rule matching the path that lists
  the capability and no matching rule that denies.
\<close>

theorem policy_allowed_iff:
  "policy_allowed e name path cap \<longleftrightarrow> name = ''root'' \<or>
     (\<exists>p. effective e name = Some p
        \<and> (\<exists>r\<in>set (policy_rules p). applies path r \<and> cap \<in> set (rule_caps r))
        \<and> (\<nexists>r. r \<in> set (policy_rules p) \<and> applies path r \<and> rule_deny r))"
  unfolding policy_allowed_effective rules_allow_iff by blast

text \<open>
  A rule that denies decides: with a matching deny rule anywhere in the policy, no order of
  the rules and no other rule grants anything on that path.
\<close>

theorem deny_overrides:
  assumes "r \<in> set rs" and "rule_deny r" and "match_path (rule_path r) path" and "name \<noteq> ''root''"
  shows "\<not> policy_allowed (set_policy e \<lparr>policy_name = name, policy_desc = d, policy_rules = rs\<rparr>) name path cap"
  using assms by (auto simp: policy_allowed_def set_policy_def rules_allow_iff applies_def)

theorem deny_overrides_witness:
  "\<not> policy_allowed (set_policy (new_engine ''p'') \<lparr>policy_name = ''ops'', policy_desc = [], policy_rules =
       [\<lparr>rule_path = ''secrets/kv/*'', rule_caps = [CapRead], rule_deny = False\<rparr>,
        \<lparr>rule_path = ''secrets/kv/prod/*'', rule_caps = [], rule_deny = True\<rparr>]\<rparr>)
     ''ops'' ''secrets/kv/prod/db'' CapRead"
  by (rule deny_overrides[of "\<lparr>rule_path = ''secrets/kv/prod/*'', rule_caps = [], rule_deny = True\<rparr>"])
    (simp_all add: match_path_def has_suffix_def trim_suffix_def has_prefix_def)

text \<open>
  Only the set of rules matters: two policies of one name whose rules are the same up to
  order and repetition decide alike.
\<close>

theorem rule_order_irrelevant:
  assumes "set (policy_rules p) = set (policy_rules q)" and "policy_name p = policy_name q"
  shows "policy_allowed (set_policy e p) name path cap = policy_allowed (set_policy e q) name path cap"
  using assms by (simp add: policy_allowed_def set_policy_def rules_allow_iff)

theorem rule_order_irrelevant_witness:
  "policy_allowed (set_policy (new_engine ''p'') \<lparr>policy_name = ''ops'', policy_desc = [], policy_rules =
       [\<lparr>rule_path = ''x'', rule_caps = [CapRead], rule_deny = False\<rparr>,
        \<lparr>rule_path = ''x'', rule_caps = [], rule_deny = True\<rparr>]\<rparr>) ''ops'' ''x'' CapRead =
   policy_allowed (set_policy (new_engine ''p'') \<lparr>policy_name = ''ops'', policy_desc = [], policy_rules =
       [\<lparr>rule_path = ''x'', rule_caps = [], rule_deny = True\<rparr>,
        \<lparr>rule_path = ''x'', rule_caps = [CapRead], rule_deny = False\<rparr>]\<rparr>) ''ops'' ''x'' CapRead"
  by (rule rule_order_irrelevant) auto

text \<open>
  A pattern that ends in a wildcard matches the path before the wildcard and everything
  below it, on segment boundaries; any other pattern matches itself alone.
\<close>

theorem match_path_iff:
  "match_path pattern path \<longleftrightarrow>
     (if has_suffix pattern ''/*''
      then \<exists>p. pattern = p @ ''/*'' \<and> (path = p \<or> (\<exists>r. path = p @ ''/'' @ r))
      else path = pattern)"
  using match_path_star match_path_exact[of pattern path] by (auto simp: has_suffix_iff)

text \<open>
  C27: LoadAll over a readable directory either fails and names the first policy file that does
  not load, or leaves exactly the policies of the directory's YAML files: what was loaded or
  set before is gone, and of two files with one policy name the later one counts.
\<close>

theorem load_all_exact:
  assumes "read_dir F (policy_dir e) = DirEntries entries"
  shows "(load_all F e = Inr e' \<longleftrightarrow>
      (\<exists>ps. map (load_entry F (policy_dir e)) (policy_entries entries) = map Inr ps
         \<and> e' = e\<lparr>policies := by_name ps\<rparr>))
    \<and> (load_all F e = Inl err \<longleftrightarrow>
      (\<exists>pre x post err'. policy_entries entries = pre @ x # post
         \<and> (\<forall>y\<in>set pre. \<exists>p. load_entry F (policy_dir e) y = Inr p)
         \<and> load_entry F (policy_dir e) x = Inl err'
         \<and> err = Wrapped (''load policy '' @ entry_name x) err'))"
proof -
  have "load_all F e = Inr e' \<longleftrightarrow> (\<exists>loaded.
      load_entries F (policy_dir e) entries Map.empty = Inr loaded \<and> e' = e\<lparr>policies := loaded\<rparr>)"
    and "load_all F e = Inl err \<longleftrightarrow> load_entries F (policy_dir e) entries Map.empty = Inl err"
    using assms by (auto simp: load_all_def split: sum.splits)
  then show ?thesis unfolding load_entries_Inr load_entries_Inl by auto
qed

definition demo_files :: policy_files where
  "demo_files = \<lparr>
     read_dir = (\<lambda>d. if d = ''p'' then DirEntries [
         \<lparr>entry_name = ''a.yaml'', entry_is_dir = False\<rparr>, \<lparr>entry_name = ''b.yml'', entry_is_dir = False\<rparr>,
         \<lparr>entry_name = ''notes.txt'', entry_is_dir = False\<rparr>, \<lparr>entry_name = ''z.yaml'', entry_is_dir = True\<rparr>]
       else DirMissing),
     read_file = (\<lambda>f. if f = ''p/a.yaml'' \<or> f = ''p/b.yml'' then Some f else None),
     yaml_policy = (\<lambda>d. Some \<lparr>policy_name = ''ops'', policy_desc = d, policy_rules = []\<rparr>)\<rparr>"

theorem load_all_exact_witness:
  "load_all demo_files (set_policy (new_engine ''p'') \<lparr>policy_name = ''old'', policy_desc = [], policy_rules = []\<rparr>)
   = Inr ((new_engine ''p'')\<lparr>policies := [''ops'' \<mapsto> \<lparr>policy_name = ''ops'', policy_desc = ''p/b.yml'', policy_rules = []\<rparr>]\<rparr>)"
proof -
  let ?e = "set_policy (new_engine ''p'') \<lparr>policy_name = ''old'', policy_desc = [], policy_rules = []\<rparr>"
  let ?p = "\<lambda>d. \<lparr>policy_name = ''ops'', policy_desc = d, policy_rules = []\<rparr>"
  obtain entries where d: "read_dir demo_files (policy_dir ?e) = DirEntries entries"
      and l: "map (load_entry demo_files (policy_dir ?e)) (policy_entries entries) = map Inr [?p ''p/a.yaml'', ?p ''p/b.yml'']"
    by (simp add: demo_files_def set_policy_def new_engine_def policy_entries_def is_yaml_def has_suffix_def
        load_entry_def load_file_def path_join_def path_clean_def has_prefix_def)
  have "?e\<lparr>policies := by_name [?p ''p/a.yaml'', ?p ''p/b.yml'']\<rparr>
      = (new_engine ''p'')\<lparr>policies := [''ops'' \<mapsto> ?p ''p/b.yml'']\<rparr>"
    by (simp add: by_name_def set_policy_def new_engine_def fun_eq_iff)
  with conjunct1[OF load_all_exact[OF d]] l show ?thesis by metis
qed

text \<open>The steps an engine can take.\<close>

inductive engine_step :: "policy_files \<Rightarrow> engine \<Rightarrow> engine \<Rightarrow> bool" for F where
  step_load_all: "load_all F e = Inr e' \<Longrightarrow> engine_step F e e'"
| step_load_policy: "load_policy F e path = Inr e' \<Longrightarrow> engine_step F e e'"
| step_set_policy: "engine_step F e (set_policy e p)"

lemma by_name_wf: "by_name ps n = Some p \<Longrightarrow> policy_name p = n"
  by (auto simp: by_name_def dest: map_of_SomeD)

lemma engine_step_wf: "engine_step F e e' \<Longrightarrow> engine_wf e \<Longrightarrow> engine_wf e'"
proof (induction rule: engine_step.induct)
  case (step_load_all e e')
  then show ?case
    by (auto simp: load_all_def load_entries_Inr engine_wf_def dest: by_name_wf
        split: dir_result.splits sum.splits)
qed (auto intro: engine_wf_load)

text \<open>
  The engine keeps every policy under the policy's own name, whatever sequence of loads and
  registrations it goes through.
\<close>

theorem engine_names:
  assumes "(engine_step F)\<^sup>*\<^sup>* (new_engine dir) e" and "policy_get e name = Some p"
  shows "policy_name p = name"
proof -
  have "engine_wf e" using assms(1) by (induction rule: rtranclp_induct) (auto dest: engine_step_wf)
  with assms(2) show ?thesis by (simp add: engine_wf_def policy_get_def)
qed

theorem engine_names_witness:
  "policy_name \<lparr>policy_name = ''ops'', policy_desc = [], policy_rules = []\<rparr> = ''ops''"
proof (rule engine_names[of demo_files "''p''"])
  show "(engine_step demo_files)\<^sup>*\<^sup>* (new_engine ''p'')
      (set_policy (new_engine ''p'') \<lparr>policy_name = ''ops'', policy_desc = [], policy_rules = []\<rparr>)"
    by (intro r_into_rtranclp step_set_policy)
qed (simp add: policy_get_def set_policy_def)

text \<open>
  A loaded policy replaces the built-in policy of its name completely and changes no other
  name; only root stays beyond reach, since a policy registered under that name is never looked
  at.
\<close>

theorem loaded_overrides_builtin:
  "policy_allowed (set_policy e p) name path cap =
     (if name = ''root'' then True
      else if name = policy_name p then rules_allow (policy_rules p) path cap False
      else policy_allowed e name path cap)"
  by (simp add: policy_allowed_def set_policy_def)

text \<open>
  Without a file that overrides it, the built-in policy readonly grants reading and listing
  below secrets/kv and nothing else anywhere.
\<close>

theorem builtin_readonly:
  assumes "policies e ''readonly'' = None"
  shows "policy_allowed e ''readonly'' path cap \<longleftrightarrow>
    (cap = ''read'' \<or> cap = ''list'') \<and> (path = ''secrets/kv'' \<or> has_prefix path ''secrets/kv/'')"
proof -
  have "match_path ''secrets/kv/*'' path \<longleftrightarrow> path = ''secrets/kv'' \<or> has_prefix path ''secrets/kv/''"
    using match_path_star[of "''secrets/kv''" path] by (auto simp: has_prefix_iff)
  with assms show ?thesis by (auto simp: policy_allowed_def builtins_def cap_defs)
qed

theorem builtin_readonly_witness:
  "policy_allowed (new_engine ''p'') ''readonly'' ''secrets/kv/app/db'' ''read''
   \<and> \<not> policy_allowed (new_engine ''p'') ''readonly'' ''secrets/kv/app/db'' ''write''
   \<and> \<not> policy_allowed (new_engine ''p'') ''readonly'' ''secrets/kvx/app'' ''read''"
proof -
  have n: "policies (new_engine ''p'') ''readonly'' = None" by (simp add: new_engine_def)
  show ?thesis by (simp add: builtin_readonly[OF n] has_prefix_def)
qed

text \<open>
  The built-in policy admin, described as full access to all secret engines, grants neither
  the write capability that creating and rotating transit keys needs nor the read capability
  that their description needs.
\<close>

theorem builtin_admin_transit:
  assumes "policies e ''admin'' = None"
  shows "policy_allowed e ''admin'' (''secrets/transit/'' @ name) cap \<longleftrightarrow> cap = CapEncrypt \<or> cap = CapDecrypt"
proof -
  have "match_path ''secrets/transit/*'' (''secrets/transit/'' @ name)"
    using match_path_star[of "''secrets/transit''"] by auto
  moreover have "\<not> match_path ''secrets/kv/*'' (''secrets/transit/'' @ name)"
    using match_path_star[of "''secrets/kv''"] by auto
  ultimately show ?thesis using assms by (auto simp: policy_allowed_def builtins_def)
qed

theorem builtin_admin_transit_witness:
  "\<not> policy_allowed (new_engine ''p'') ''admin'' ''secrets/transit/k'' CapWrite
   \<and> policy_allowed (new_engine ''p'') ''admin'' ''secrets/transit/k'' CapEncrypt"
proof -
  have n: "policies (new_engine ''p'') ''admin'' = None" by (simp add: new_engine_def)
  show ?thesis using builtin_admin_transit[OF n, of "''k''"] by (simp add: cap_defs)
qed

end
