(* ===== verification/Auth_Records.thy ===== *)
theory Auth_Records
  imports Records
begin

text \<open>
  The records of internal/auth lie in the database as plain JSON. \<open>read_rec\<close> and \<open>put_rec\<close> are
  the steps that all authenticators share; they meet the same contract \<open>doc_store\<close> as the
  encrypted records of the secret engines.
\<close>

definition read_rec :: "'s badger \<Rightarrow> (json \<Rightarrow> 'd option) \<Rightarrow> 's \<Rightarrow> time \<Rightarrow> string \<Rightarrow> err + 'd" where
  "read_rec B dec s t key = (case db_get B s t key of
     Inl e \<Rightarrow> Inl e | Inr data \<Rightarrow> json_unmarshal dec data)"

definition put_rec :: "'s badger \<Rightarrow> ('d \<Rightarrow> json option) \<Rightarrow> 's \<Rightarrow> time \<Rightarrow> string \<Rightarrow> 'd \<Rightarrow> err + 's" where
  "put_rec B enc s t key d = (case json_marshal enc d of
     Inl e \<Rightarrow> Inl e | Inr data \<Rightarrow> db_set B s t key data)"

text \<open>The loops over all records below a prefix skip what cannot be read.\<close>

fun read_all ::
  "'s badger \<Rightarrow> (json \<Rightarrow> 'd option) \<Rightarrow> 's \<Rightarrow> time \<Rightarrow> string list \<Rightarrow> (string \<times> 'd) list" where
  "read_all B dec s t [] = []"
| "read_all B dec s t (k # ks) = (case read_rec B dec s t k of
     Inl _ \<Rightarrow> read_all B dec s t ks
   | Inr d \<Rightarrow> (k, d) # read_all B dec s t ks)"

lemma read_all_set:
  "(k, d) \<in> set (read_all B dec s t ks) \<longleftrightarrow> k \<in> set ks \<and> read_rec B dec s t k = Inr d"
  by (induction ks) (auto split: sum.splits)

context badger_laws
begin

lemma read_rec_absent: "key \<noteq> [] \<Longrightarrow> read_rec B dec s t key = Inl ErrNotFound \<longleftrightarrow> visible (E s) t key = None"
proof -
  have "json_unmarshal dec data \<noteq> Inl ErrNotFound" for data
    by (auto simp: json_unmarshal_def split: option.splits)
  then show "key \<noteq> [] \<Longrightarrow> ?thesis"
    by (auto simp: read_rec_def db_get_visible split: option.splits)
qed

lemma db_kvdb: "kvdb (db_get B) (db_set B) (db_set_with_ttl B) (db_delete B) (db_list B) E"
  by (rule db.kvdb_axioms)

lemma put_rec_E: "put_rec B enc s t key d = Inr s' \<longleftrightarrow>
   (\<exists>data. json_marshal enc d = Inr data \<and> db_set B s t key data = Inr s')"
  by (auto simp: put_rec_def split: sum.splits)

lemma rec_store_codec:
  assumes "codec enc dec ok"
  shows "doc_store (read_rec B dec) (\<lambda>s t r i. put_rec B enc s t) ok E"
proof
  show "put_rec B enc s t key d = Inr s' \<Longrightarrow> \<exists>x. E s' = (E s)(key \<mapsto> (x, None))" for s t key d s'
    using db.set_key_E by (auto simp: put_rec_E)
  show "key \<noteq> [] \<Longrightarrow> ok d \<Longrightarrow> put_rec B enc s t key d = Inr s' \<Longrightarrow> read_rec B dec s' t' key = Inr d"
    for key d s t s' t'
    using codec.unmarshal_marshal[OF assms] db.get_after_set by (auto simp: put_rec_E read_rec_def)
  show "key \<noteq> [] \<Longrightarrow> visible (E s) t key = visible (E s') t' key \<Longrightarrow> read_rec B dec s t key = read_rec B dec s' t' key"
    for key s t s' t' by (simp add: read_rec_def db_get_visible)
  show "key \<noteq> [] \<Longrightarrow> read_rec B dec s t key = Inl ErrNotFound \<longleftrightarrow> visible (E s) t key = None" for key s t
    by (rule read_rec_absent)
qed

lemma read_rec_frame:
  "key' \<noteq> [] \<Longrightarrow> key' \<noteq> key \<Longrightarrow> E s' = (E s)(key := x) \<Longrightarrow> read_rec B dec s' t key' = read_rec B dec s t key'"
  by (simp add: read_rec_def db_get_visible)

end

text \<open>A database with the laws of Badger beside primitives with their laws.\<close>

locale auth_base = badger_laws B E + prims_laws P
  for B :: "'s badger" and E :: "'s \<Rightarrow> contents" and P :: prims

context auth_base
begin

lemma hash_accepts:
  assumes "hash_argon2id P rng i pw = Inr h"
  shows "verify_argon2id P attempt h \<longleftrightarrow>
    argon2_idkey P attempt (take salt_len h) = argon2_idkey P pw (take salt_len h)"
  using hash_argon2id_parts[OF prims_laws_axioms assms] by (auto simp: verify_argon2id_def subtle32_equal_eq)

lemma hash_accepts_own:
  "hash_argon2id P rng i token = Inr h \<Longrightarrow> verify_argon2id P token h"
  by (simp add: hash_accepts)

end

interpretation demo_auth: auth_base mem_badger map_of demo_prims
  by unfold_locales

sublocale vault \<subseteq> auth: auth_base B E P
  by unfold_locales

lemma auth_iff: "auth_base B E P \<longleftrightarrow> badger_laws B E \<and> prims_laws P"
  by (auto simp: auth_base_def)

lemmas authI = auth_iff[THEN iffD2, OF conjI]

text \<open>On the demonstration database every record that can be marshalled can be put.\<close>

lemma demo_put: "key \<noteq> [] \<Longrightarrow> enc d = Some j \<Longrightarrow> \<exists>s'. put_rec mem_badger enc s t key d = Inr s'"
  by (simp add: put_rec_def json_marshal_def db_set_def lift_bdg_def mem_badger_def)

lemma demo_draw: "rand_read demo_rng 0 32 = Inr (fill 32 ''A'')"
  by code_simp

lemma auth_field_names [simp]:
  "utf8_ok ''identity''" "utf8_ok ''auth_method''" "utf8_ok ''policy''" "utf8_ok ''issued_at''"
  "utf8_ok ''expires_at''" "utf8_ok ''token_hash''" "utf8_ok ''name''" "utf8_ok ''created_at''"
  "utf8_ok ''hash''" "utf8_ok ''username''" "utf8_ok ''disabled''" "utf8_ok ''public_key''" "utf8_ok ''secret''"
  by (simp_all add: utf8_ok_all_ascii is_ascii_def)

end
