(* ===== verification/Auth_Session.thy ===== *)
theory Auth_Session
  imports Auth_Records
begin

text \<open>
  internal/auth/session.go: session tokens. A token is a prefix and 32 random bytes in base64; the
  record under the SHA-256 of the token holds an Argon2id hash of it and expires with the
  session.
\<close>

definition sessionTokenPrefix :: string where
  "sessionTokenPrefix = ''lvt_''"

record session_meta =
  sess_identity :: string
  sess_method :: string
  sess_policy :: string
  sess_issued :: time
  sess_expires :: time
  sess_hash :: bytes

definition enc_session :: "prims \<Rightarrow> session_meta \<Rightarrow> json option" where
  "enc_session P m = (case (enc_time P (sess_issued m), enc_time P (sess_expires m)) of
     (Some issued, Some expires) \<Rightarrow> Some (JObj [(''identity'', JStr (sess_identity m)),
       (''auth_method'', JStr (sess_method m)), (''policy'', JStr (sess_policy m)),
       (''issued_at'', issued), (''expires_at'', expires), (''token_hash'', enc_bytes (sess_hash m))])
   | _ \<Rightarrow> None)"

definition dec_session :: "prims \<Rightarrow> json \<Rightarrow> session_meta option" where
  "dec_session P j = (case members j of None \<Rightarrow> None | Some ms \<Rightarrow>
     (case (obj_get ''identity'' dec_str [] ms, obj_get ''auth_method'' dec_str [] ms,
            obj_get ''policy'' dec_str [] ms, obj_get ''issued_at'' (dec_time P) zero_time ms,
            obj_get ''expires_at'' (dec_time P) zero_time ms, obj_get ''token_hash'' dec_bytes [] ms) of
        (Some identity, Some method, Some policy, Some issued, Some expires, Some hash) \<Rightarrow>
          Some \<lparr>sess_identity = identity, sess_method = method, sess_policy = policy,
            sess_issued = issued, sess_expires = expires, sess_hash = hash\<rparr>
      | _ \<Rightarrow> None))"

definition session_key :: "prims \<Rightarrow> string \<Rightarrow> string" where
  "session_key P token = ''auth/sessions/'' @ hex_encode (sha256 P token)"

text \<open>Issue: draw 0 is the token, draw 1 the salt of its hash. The store's \<open>ttl\<close> is a parameter.\<close>

definition session_issue ::
  "'s badger \<Rightarrow> prims \<Rightarrow> duration \<Rightarrow> 's \<Rightarrow> time \<Rightarrow> rng \<Rightarrow> string \<Rightarrow> string \<Rightarrow> string \<Rightarrow> err + 's \<times> string" where
  "session_issue B P ttl s t rng identity authMethod policy = (case rand_read rng 0 32 of
     Inl e \<Rightarrow> Inl (Wrapped ''generate session token'' e)
   | Inr raw \<Rightarrow>
      (let token = sessionTokenPrefix @ raw_url_encode raw in
       case hash_argon2id P rng 1 token of
         Inl e \<Rightarrow> Inl (Wrapped ''hash session token'' e)
       | Inr hash \<Rightarrow>
          (case json_marshal (enc_session P) \<lparr>sess_identity = identity, sess_method = authMethod,
               sess_policy = policy, sess_issued = t, sess_expires = t + ttl, sess_hash = hash\<rparr> of
             Inl e \<Rightarrow> Inl e
           | Inr data \<Rightarrow> (case db_set_with_ttl B s t (session_key P token) data ttl of
                Inl e \<Rightarrow> Inl (Wrapped ''store session'' e)
              | Inr s' \<Rightarrow> Inr (s', token)))))"

text \<open>Validate deletes an expired record it still finds; a failed deletion is ignored.\<close>

definition session_validate ::
  "'s badger \<Rightarrow> prims \<Rightarrow> 's \<Rightarrow> time \<Rightarrow> string \<Rightarrow> 's \<times> (err + session_meta)" where
  "session_validate B P s t token =
     (if length token < length sessionTokenPrefix \<or> take (length sessionTokenPrefix) token \<noteq> sessionTokenPrefix
      then (s, Inl ErrTokenFormat)
      else (case db_get B s t (session_key P token) of
        Inl e \<Rightarrow> (s, Inl (if is_not_found e then ErrSessionNotFound else e))
      | Inr data \<Rightarrow> (case json_unmarshal (dec_session P) data of
           Inl e \<Rightarrow> (s, Inl e)
         | Inr m \<Rightarrow>
            if \<not> verify_argon2id P token (sess_hash m) then (s, Inl ErrSessionToken)
            else if sess_expires m < t
            then (case db_delete B s t (session_key P token) of Inl _ \<Rightarrow> s | Inr s' \<Rightarrow> s', Inl ErrSessionExpired)
            else (s, Inr m))))"

definition session_revoke :: "'s badger \<Rightarrow> prims \<Rightarrow> 's \<Rightarrow> time \<Rightarrow> string \<Rightarrow> err + 's" where
  "session_revoke B P s t token = db_delete B s t (session_key P token)"

section \<open>Lemmas\<close>

definition session_ok :: "session_meta \<Rightarrow> bool" where
  "session_ok m \<longleftrightarrow> utf8_ok (sess_identity m) \<and> utf8_ok (sess_method m) \<and> utf8_ok (sess_policy m)
     \<and> time_ok (sess_issued m) \<and> time_ok (sess_expires m)"

sublocale prims_laws \<subseteq> session: codec "enc_session P" "dec_session P" session_ok
proof
  fix m assume "session_ok m"
  then show "\<exists>j. enc_session P m = Some j \<and> json_ok j \<and> dec_session P j = Some m"
    by (auto simp: session_ok_def enc_session_def dec_session_def enc_time_ok json_ok_def time_text max_depth_def)
qed

lemma session_key_nonempty [simp]: "session_key P token \<noteq> []"
  by (simp add: session_key_def)

lemma session_key_inject: "session_key P a = session_key P b \<longleftrightarrow> sha256 P a = sha256 P b"
  by (simp add: session_key_def hex_encode_inject)

lemma session_key_prefix [simp]: "has_prefix (session_key P token) ''auth/sessions/''"
  unfolding session_key_def by (rule has_prefix_append)

context auth_base
begin

lemma issue_cases:
  assumes "session_issue B P ttl s t rng identity meth pol = Inr (s', token)"
  obtains raw h data where "rand_read rng 0 32 = Inr raw" "token = sessionTokenPrefix @ raw_url_encode raw"
    "hash_argon2id P rng 1 token = Inr h"
    "json_marshal (enc_session P) \<lparr>sess_identity = identity, sess_method = meth, sess_policy = pol,
       sess_issued = t, sess_expires = t + ttl, sess_hash = h\<rparr> = Inr data"
    "db_set_with_ttl B s t (session_key P token) data ttl = Inr s'"
    "time_ok t" "time_ok (t + ttl)"
proof -
  obtain raw h data where *: "rand_read rng 0 32 = Inr raw" "token = sessionTokenPrefix @ raw_url_encode raw"
    "hash_argon2id P rng 1 token = Inr h"
    "json_marshal (enc_session P) \<lparr>sess_identity = identity, sess_method = meth, sess_policy = pol,
       sess_issued = t, sess_expires = t + ttl, sess_hash = h\<rparr> = Inr data"
    "db_set_with_ttl B s t (session_key P token) data ttl = Inr s'"
    using assms by (auto simp: session_issue_def Let_def split: sum.splits)
  then have "time_ok t" "time_ok (t + ttl)"
    by (auto simp: json_marshal_def enc_session_def dest: enc_time_SomeD split: option.splits)
  with * show thesis by (rule that)
qed

lemma token_format: "length token < length sessionTokenPrefix \<or> take (length sessionTokenPrefix) token \<noteq> sessionTokenPrefix
    \<longleftrightarrow> \<not> has_prefix token sessionTokenPrefix"
  by (auto simp: has_prefix_def)

lemma issue_E:
  assumes "session_issue B P ttl s t rng identity meth pol = Inr (s', token)"
    and "utf8_ok identity" "utf8_ok meth" "utf8_ok pol"
  obtains h data e where "hash_argon2id P rng 1 token = Inr h"
    "json_unmarshal (dec_session P) data = Inr \<lparr>sess_identity = identity, sess_method = meth,
       sess_policy = pol, sess_issued = t, sess_expires = t + ttl, sess_hash = h\<rparr>"
    "E s' = (E s)(session_key P token \<mapsto> (data, Some e))" "e \<le> t + ttl" "has_prefix token sessionTokenPrefix"
    "db_set_with_ttl B s t (session_key P token) data ttl = Inr s'"
  using assms(1)
proof (cases rule: issue_cases)
  case (1 raw h data)
  let ?m = "\<lparr>sess_identity = identity, sess_method = meth, sess_policy = pol, sess_issued = t,
    sess_expires = t + ttl, sess_hash = h\<rparr>"
  have "session_ok ?m" using 1(6,7) assms(2-4) by (simp add: session_ok_def)
  then have "json_unmarshal (dec_session P) data = Inr ?m" using session.unmarshal_marshal 1(4) by blast
  moreover obtain e where "e \<le> t + ttl" "E s' = (E s)(session_key P token \<mapsto> (data, Some e))"
    using db.set_ttl_E[OF 1(5)] by blast
  moreover have "has_prefix token sessionTokenPrefix" using 1(2) by simp
  ultimately show thesis using that 1(3,5) by blast
qed

lemma validate_iff:
  "session_validate B P s t token = (s', Inr m) \<longleftrightarrow> s' = s \<and> has_prefix token sessionTokenPrefix \<and>
     (\<exists>data. visible (E s) t (session_key P token) = Some data \<and> json_unmarshal (dec_session P) data = Inr m
        \<and> verify_argon2id P token (sess_hash m) \<and> t \<le> sess_expires m)"
proof (cases "visible (E s) t (session_key P token)")
  case (Some data)
  then show ?thesis
    by (auto simp: session_validate_def token_format db_get_visible not_less split: sum.splits if_splits)
qed (auto simp: session_validate_def token_format db_get_visible)

lemma validate_absent:
  "visible (E s) t (session_key P token) = None \<Longrightarrow> has_prefix token sessionTokenPrefix \<Longrightarrow>
   session_validate B P s t token = (s, Inl ErrSessionNotFound)"
  by (simp add: session_validate_def token_format db_get_visible)

lemma validate_E:
  "session_validate B P s t token = (s', r) \<Longrightarrow>
   s' = s \<or> (r = Inl ErrSessionExpired \<and> E s' = (E s)(session_key P token := None))"
  using db.del_E by (auto simp: session_validate_def split: if_splits sum.splits)

lemma revoke_E: "session_revoke B P s t token = Inr s' \<Longrightarrow> E s' = (E s)(session_key P token := None)"
  using db.del_E by (simp add: session_revoke_def)

lemma session_life:
  assumes "session_issue B P ttl s t rng identity meth pol = Inr (s', token)"
    and "utf8_ok identity" "utf8_ok meth" "utf8_ok pol"
  shows "(t' + second \<le> t + ttl \<longrightarrow> (\<exists>h. session_validate B P s' t' token = (s', Inr \<lparr>sess_identity = identity,
        sess_method = meth, sess_policy = pol, sess_issued = t, sess_expires = t + ttl, sess_hash = h\<rparr>)))
    \<and> (t + ttl \<le> t' \<longrightarrow> session_validate B P s' t' token = (s', Inl ErrSessionNotFound))"
  using assms
proof (rule issue_E)
  fix h data e
  assume h: "hash_argon2id P rng 1 token = Inr h"
    and m: "json_unmarshal (dec_session P) data = Inr \<lparr>sess_identity = identity, sess_method = meth,
       sess_policy = pol, sess_issued = t, sess_expires = t + ttl, sess_hash = h\<rparr>"
    and E: "E s' = (E s)(session_key P token \<mapsto> (data, Some e))" "e \<le> t + ttl"
    and p: "has_prefix token sessionTokenPrefix" and set: "db_set_with_ttl B s t (session_key P token) data ttl = Inr s'"
  have late: "session_validate B P s' t' token = (s', Inl ErrSessionNotFound)" if "t + ttl \<le> t'"
    using that E p by (intro validate_absent) (auto simp: visible_def)
  have early: "session_validate B P s' t' token = (s', Inr \<lparr>sess_identity = identity,
        sess_method = meth, sess_policy = pol, sess_issued = t, sess_expires = t + ttl, sess_hash = h\<rparr>)"
    if t': "t' + second \<le> t + ttl"
  proof -
    have "db_get B s' t' (session_key P token) = Inr data" using db.get_within_ttl[OF _ set t'] by simp
    then have "visible (E s') t' (session_key P token) = Some data"
      by (auto simp: db_get_visible split: option.splits)
    then show ?thesis using m p hash_accepts_own[OF h] t' by (simp add: validate_iff second_def)
  qed
  show ?thesis using late early by blast
qed

end

section \<open>Properties\<close>

text \<open>
  C30: A token that Issue returned validates to the identity, method and policy it was issued for
  until a second before its lifetime ends, and from that end on it is unknown.
\<close>

theorem session_lifetime:
  assumes "badger_laws B E" and "prims_laws P" and "session_issue B P ttl s t rng identity meth pol = Inr (s', token)"
    and "utf8_ok identity" and "utf8_ok meth" and "utf8_ok pol"
  shows "(t' + second \<le> t + ttl \<longrightarrow> (\<exists>h. session_validate B P s' t' token = (s', Inr \<lparr>sess_identity = identity,
        sess_method = meth, sess_policy = pol, sess_issued = t, sess_expires = t + ttl, sess_hash = h\<rparr>)))
    \<and> (t + ttl \<le> t' \<longrightarrow> session_validate B P s' t' token = (s', Inl ErrSessionNotFound))"
  by (rule auth_base.session_life[OF authI[OF assms(1,2)] assms(3-6)])

lemma demo_issue:
  "\<exists>s' token. session_issue mem_badger demo_prims hour [] 0 demo_rng ''ada'' ''user'' ''readonly'' = Inr (s', token)"
  by (simp add: session_issue_def Let_def rand_read_def demo_rng_def hash_argon2id_def json_marshal_def
      enc_session_def enc_time_def time_ok_def second_def hour_def minute_def db_set_with_ttl_def lift_bdg_def mem_badger_def)

lemma demo_identity_ok: "utf8_ok ''ada''" "utf8_ok ''user''" "utf8_ok ''readonly''"
  by (simp_all add: utf8_ok_all_ascii is_ascii_def)

theorem session_lifetime_witness:
  "\<exists>s' token m. session_issue mem_badger demo_prims hour [] 0 demo_rng ''ada'' ''user'' ''readonly'' = Inr (s', token)
     \<and> session_validate mem_badger demo_prims s' minute token = (s', Inr m) \<and> sess_policy m = ''readonly''
     \<and> session_validate mem_badger demo_prims s' hour token = (s', Inl ErrSessionNotFound)"
proof -
  obtain s' token where i: "session_issue mem_badger demo_prims hour [] 0 demo_rng ''ada'' ''user'' ''readonly'' = Inr (s', token)"
    using demo_issue by blast
  note l = session_lifetime[OF mem_laws demo_laws i demo_identity_ok]
  have "\<exists>m. session_validate mem_badger demo_prims s' minute token = (s', Inr m) \<and> sess_policy m = ''readonly''"
    using l[of minute] by (fastforce simp: minute_def hour_def second_def)
  moreover have "session_validate mem_badger demo_prims s' hour token = (s', Inl ErrSessionNotFound)"
    using l[of hour] by simp
  ultimately show ?thesis using i by blast
qed

text \<open>
  After Revoke a token is unknown for good, and tokens with another SHA-256 digest validate as
  before.
\<close>

theorem session_revoked:
  assumes "badger_laws B E" and "prims_laws P" and "session_revoke B P s t token = Inr s'"
    and "has_prefix token sessionTokenPrefix" and "sha256 P other \<noteq> sha256 P token"
  shows "session_validate B P s' t' token = (s', Inl ErrSessionNotFound)
    \<and> snd (session_validate B P s' t' other) = snd (session_validate B P s t' other)"
proof -
  have E: "E s' = (E s)(session_key P token := None)"
    by (rule auth_base.revoke_E[OF authI[OF assms(1,2)] assms(3)])
  then have "db_get B s' t' (session_key P other) = db_get B s t' (session_key P other)"
    using assms(5) badger_laws.db_get_visible[OF assms(1)] by (simp add: session_key_inject)
  then have "snd (session_validate B P s' t' other) = snd (session_validate B P s t' other)"
    by (simp add: session_validate_def split: sum.splits)
  moreover have "session_validate B P s' t' token = (s', Inl ErrSessionNotFound)"
    using E by (intro auth_base.validate_absent[OF authI[OF assms(1,2)] _ assms(4)]) simp
  ultimately show ?thesis by simp
qed

theorem session_revoked_witness:
  "\<exists>s' token s''. session_issue mem_badger demo_prims hour [] 0 demo_rng ''ada'' ''user'' ''readonly'' = Inr (s', token)
     \<and> session_revoke mem_badger demo_prims s' minute token = Inr s''
     \<and> session_validate mem_badger demo_prims s'' minute token = (s'', Inl ErrSessionNotFound)"
proof -
  obtain s' token where i: "session_issue mem_badger demo_prims hour [] 0 demo_rng ''ada'' ''user'' ''readonly'' = Inr (s', token)"
    using demo_issue by blast
  obtain s'' where r: "session_revoke mem_badger demo_prims s' minute token = Inr s''"
    by (simp add: session_revoke_def db_delete_def lift_bdg_def mem_badger_def)
  have p: "has_prefix token sessionTokenPrefix"
    using demo_auth.issue_E[OF i demo_identity_ok] by blast
  have "token = sessionTokenPrefix @ raw_url_encode (fill 32 ''A'')"
    using i by (auto elim!: demo_auth.issue_cases simp: demo_draw)
  then have "sha256 demo_prims ''z'' \<noteq> sha256 demo_prims token"
    by (simp add: demo_prims_def sessionTokenPrefix_def fill_def)
  then have "session_validate mem_badger demo_prims s'' minute token = (s'', Inl ErrSessionNotFound)"
    using session_revoked[OF mem_laws demo_laws r p] by blast
  with i r show ?thesis by blast
qed

section \<open>Whole runs\<close>

text \<open>
  The states a store reaches from one without sessions, with the log of what Issue returned:
  the token, the identity, the method, the policy and the time.
\<close>

inductive session_run ::
  "'s badger \<Rightarrow> prims \<Rightarrow> duration \<Rightarrow> 's \<Rightarrow> 's \<Rightarrow> (string \<times> string \<times> string \<times> string \<times> time) list \<Rightarrow> bool"
  for B P ttl s0 where
  run_start: "session_run B P ttl s0 s0 []"
| run_issue: "session_run B P ttl s0 s log \<Longrightarrow> utf8_ok identity \<Longrightarrow> utf8_ok meth \<Longrightarrow> utf8_ok pol \<Longrightarrow>
    session_issue B P ttl s t rng identity meth pol = Inr (s', token) \<Longrightarrow>
    session_run B P ttl s0 s' ((token, identity, meth, pol, t) # log)"
| run_validate: "session_run B P ttl s0 s log \<Longrightarrow> session_validate B P s t token = (s', r) \<Longrightarrow> session_run B P ttl s0 s' log"
| run_revoke: "session_run B P ttl s0 s log \<Longrightarrow> session_revoke B P s t token = Inr s' \<Longrightarrow> session_run B P ttl s0 s' log"

text \<open>A record is explained by a log when one of its tokens was stored there with that content.\<close>

definition explained ::
  "prims \<Rightarrow> duration \<Rightarrow> (string \<times> string \<times> string \<times> string \<times> time) list \<Rightarrow> string \<Rightarrow> bytes \<Rightarrow> bool" where
  "explained P ttl log k v \<longleftrightarrow>
     (\<exists>(token, identity, meth, pol, t)\<in>set log. k = session_key P token \<and>
        (\<exists>rng h. hash_argon2id P rng 1 token = Inr h
          \<and> json_unmarshal (dec_session P) v = Inr \<lparr>sess_identity = identity, sess_method = meth,
              sess_policy = pol, sess_issued = t, sess_expires = t + ttl, sess_hash = h\<rparr>))"

definition log_explains ::
  "prims \<Rightarrow> duration \<Rightarrow> (string \<times> string \<times> string \<times> string \<times> time) list \<Rightarrow> contents \<Rightarrow> bool" where
  "log_explains P ttl log c \<longleftrightarrow>
     (\<forall>k v e. has_prefix k ''auth/sessions/'' \<longrightarrow> c k = Some (v, e) \<longrightarrow> explained P ttl log k v)"

lemma explained_Cons: "explained P ttl log k v \<Longrightarrow> explained P ttl (x # log) k v"
  unfolding explained_def by simp

lemma log_explainsD:
  "log_explains P ttl log c \<Longrightarrow> has_prefix k ''auth/sessions/'' \<Longrightarrow> c k = Some (v, e) \<Longrightarrow> explained P ttl log k v"
  unfolding log_explains_def by simp

lemma log_explains_del: "log_explains P ttl log c \<Longrightarrow> log_explains P ttl log (c(k := None))"
  unfolding log_explains_def by simp

lemma log_explains_set:
  "log_explains P ttl log c \<Longrightarrow> explained P ttl (x # log) k v \<Longrightarrow> log_explains P ttl (x # log) (c(k \<mapsto> (v, e)))"
  unfolding log_explains_def using explained_Cons by simp

lemma session_run_explained:
  assumes "auth_base B E P" and "session_run B P ttl s0 s log" and "\<And>k. has_prefix k ''auth/sessions/'' \<Longrightarrow> E s0 k = None"
  shows "log_explains P ttl log (E s)"
  using assms(2)
proof (induction rule: session_run.induct)
  case run_start
  then show ?case using assms(3) by (simp add: log_explains_def)
next
  case (run_issue s log identity meth pol t rng s' token)
  show ?case
  proof (rule auth_base.issue_E[OF assms(1) run_issue(5,2,3,4)])
    fix h data e
    assume "hash_argon2id P rng 1 token = Inr h"
      and "json_unmarshal (dec_session P) data = Inr \<lparr>sess_identity = identity, sess_method = meth,
         sess_policy = pol, sess_issued = t, sess_expires = t + ttl, sess_hash = h\<rparr>"
      and E: "E s' = (E s)(session_key P token \<mapsto> (data, Some e))"
    then have "explained P ttl ((token, identity, meth, pol, t) # log) (session_key P token) data"
      unfolding explained_def by auto
    with run_issue.IH show ?thesis unfolding E by (rule log_explains_set)
  qed
next
  case (run_validate s log t token s' r)
  from auth_base.validate_E[OF assms(1) run_validate(2)] show ?case
  proof
    assume "r = Inl ErrSessionExpired \<and> E s' = (E s)(session_key P token := None)"
    then have E: "E s' = (E s)(session_key P token := None)" by blast
    show ?case unfolding E by (rule log_explains_del[OF run_validate.IH])
  qed (use run_validate.IH in simp)
next
  case (run_revoke s log t token s')
  show ?case unfolding auth_base.revoke_E[OF assms(1) run_revoke(2)]
    by (rule log_explains_del[OF run_revoke.IH])
qed

text \<open>
  C21: On a store that started without sessions, whatever calls were made, Validate accepts only
  what Issue has handed out: the accepted token shares the SHA-256 digest and the salted hash of
  an issued one, it answers with that session's identity, method and policy, and it does so
  within the session's lifetime.
\<close>

theorem session_authentic:
  assumes "badger_laws B E" and "prims_laws P" and "\<And>k. has_prefix k ''auth/sessions/'' \<Longrightarrow> E s0 k = None"
    and "session_run B P ttl s0 s log" and "session_validate B P s t attempt = (s', Inr m)"
  shows "\<exists>token issued salt. (token, sess_identity m, sess_method m, sess_policy m, issued) \<in> set log
    \<and> sha256 P attempt = sha256 P token \<and> argon2_idkey P attempt salt = argon2_idkey P token salt
    \<and> t \<le> issued + ttl \<and> s' = s"
proof -
  note a = authI[OF assms(1,2)]
  obtain data where d: "visible (E s) t (session_key P attempt) = Some data" "json_unmarshal (dec_session P) data = Inr m"
      "verify_argon2id P attempt (sess_hash m)" "t \<le> sess_expires m" "s' = s"
    using auth_base.validate_iff[OF a, THEN iffD1, OF assms(5)] by blast
  obtain x where "E s (session_key P attempt) = Some (data, x)" using d(1) by (auto simp: visible_expires)
  then have "explained P ttl log (session_key P attempt) data"
    using log_explainsD[OF session_run_explained[OF a assms(4,3)]] by simp
  then obtain token identity meth pol u rng h where e: "(token, identity, meth, pol, u) \<in> set log"
      "session_key P attempt = session_key P token" "hash_argon2id P rng 1 token = Inr h"
      "m = \<lparr>sess_identity = identity, sess_method = meth, sess_policy = pol, sess_issued = u,
         sess_expires = u + ttl, sess_hash = h\<rparr>"
    using d(2) unfolding explained_def by auto
  then show ?thesis using d(3,4,5) auth_base.hash_accepts[OF a e(3), of attempt]
    by (intro exI[of _ token] exI[of _ u] exI[of _ "take salt_len h"]) (simp add: session_key_inject)
qed

theorem session_authentic_witness:
  "\<exists>s' token m. session_issue mem_badger demo_prims hour [] 0 demo_rng ''ada'' ''user'' ''readonly'' = Inr (s', token)
     \<and> session_validate mem_badger demo_prims s' minute token = (s', Inr m) \<and> sess_identity m = ''ada''"
proof -
  obtain s' token where i: "session_issue mem_badger demo_prims hour [] 0 demo_rng ''ada'' ''user'' ''readonly'' = Inr (s', token)"
    using demo_issue by blast
  obtain m where v: "session_validate mem_badger demo_prims s' minute token = (s', Inr m)"
    using demo_auth.session_life[OF i demo_identity_ok, of minute] by (fastforce simp: minute_def hour_def second_def)
  have r: "session_run mem_badger demo_prims hour [] s' [(token, ''ada'', ''user'', ''readonly'', 0)]"
    using run_issue[OF run_start demo_identity_ok i] .
  have "sess_identity m = ''ada''" using session_authentic[OF mem_laws demo_laws _ r v] by auto
  with i v show ?thesis by blast
qed

end
