(* ===== verification/Auth_Admin.thy ===== *)
theory Auth_Admin
  imports Auth_Records
begin

text \<open>
  internal/auth/admin.go: admin tokens. A record per admin name holds the Argon2id hash of the
  token; a presented token is tried against every record.
\<close>

definition adminTokenPrefix :: string where
  "adminTokenPrefix = ''lkat_''"

record admin_record =
  admin_name :: string
  admin_policy :: string
  admin_created :: time
  admin_hash :: bytes

definition enc_admin :: "prims \<Rightarrow> admin_record \<Rightarrow> json option" where
  "enc_admin P r = map_option (\<lambda>created. JObj [(''name'', JStr (admin_name r)), (''policy'', JStr (admin_policy r)),
     (''created_at'', created), (''hash'', enc_bytes (admin_hash r))]) (enc_time P (admin_created r))"

definition dec_admin :: "prims \<Rightarrow> json \<Rightarrow> admin_record option" where
  "dec_admin P j = (case members j of None \<Rightarrow> None | Some ms \<Rightarrow>
     (case (obj_get ''name'' dec_str [] ms, obj_get ''policy'' dec_str [] ms,
            obj_get ''created_at'' (dec_time P) zero_time ms, obj_get ''hash'' dec_bytes [] ms) of
        (Some name, Some policy, Some created, Some hash) \<Rightarrow>
          Some \<lparr>admin_name = name, admin_policy = policy, admin_created = created, admin_hash = hash\<rparr>
      | _ \<Rightarrow> None))"

definition admin_key :: "string \<Rightarrow> string" where
  "admin_key name = ''auth/admins/'' @ name"

definition has_admins :: "'s badger \<Rightarrow> 's \<Rightarrow> time \<Rightarrow> err + bool" where
  "has_admins B s t = (case db_list B s t ''auth/admins/'' of
     Inl e \<Rightarrow> Inl e | Inr keys \<Rightarrow> Inr (0 < length keys))"

text \<open>Create: draw 0 is the token, draw 1 the salt. An existing record of the name is replaced.\<close>

definition admin_create ::
  "'s badger \<Rightarrow> prims \<Rightarrow> 's \<Rightarrow> time \<Rightarrow> rng \<Rightarrow> string \<Rightarrow> string \<Rightarrow> err + 's \<times> string" where
  "admin_create B P s t rng name policy = (case rand_read rng 0 32 of
     Inl e \<Rightarrow> Inl (Wrapped ''generate admin token'' e)
   | Inr raw \<Rightarrow>
      (let token = adminTokenPrefix @ raw_url_encode raw in
       case hash_argon2id P rng 1 token of
         Inl e \<Rightarrow> Inl (Wrapped ''hash admin token'' e)
       | Inr hash \<Rightarrow>
          (case put_rec B (enc_admin P) s t (admin_key name)
               \<lparr>admin_name = name, admin_policy = policy, admin_created = t, admin_hash = hash\<rparr> of
             Inl e \<Rightarrow> Inl e | Inr s' \<Rightarrow> Inr (s', token))))"

fun admin_scan :: "'s badger \<Rightarrow> prims \<Rightarrow> 's \<Rightarrow> time \<Rightarrow> string \<Rightarrow> string list \<Rightarrow> admin_record option" where
  "admin_scan B P s t token [] = None"
| "admin_scan B P s t token (key # keys) = (case read_rec B (dec_admin P) s t key of
     Inl _ \<Rightarrow> admin_scan B P s t token keys
   | Inr r \<Rightarrow> if verify_argon2id P token (admin_hash r) then Some r else admin_scan B P s t token keys)"

definition admin_verify :: "'s badger \<Rightarrow> prims \<Rightarrow> 's \<Rightarrow> time \<Rightarrow> string \<Rightarrow> err + admin_record" where
  "admin_verify B P s t token =
     (if length token < length adminTokenPrefix \<or> take (length adminTokenPrefix) token \<noteq> adminTokenPrefix
      then Inl ErrTokenFormat
      else (case db_list B s t ''auth/admins/'' of
        Inl e \<Rightarrow> Inl e
      | Inr keys \<Rightarrow> (case admin_scan B P s t token keys of None \<Rightarrow> Inl ErrAdminToken | Some r \<Rightarrow> Inr r)))"

definition admin_delete :: "'s badger \<Rightarrow> 's \<Rightarrow> time \<Rightarrow> string \<Rightarrow> err + 's" where
  "admin_delete B s t name = (case db_get B s t (admin_key name) of
     Inl e \<Rightarrow> Inl (if is_not_found e then ErrAdminNotFound name else e)
   | Inr _ \<Rightarrow> db_delete B s t (admin_key name))"

definition admin_get :: "'s badger \<Rightarrow> prims \<Rightarrow> 's \<Rightarrow> time \<Rightarrow> string \<Rightarrow> err + admin_record" where
  "admin_get B P s t name = (case read_rec B (dec_admin P) s t (admin_key name) of
     Inl e \<Rightarrow> Inl (if is_not_found e then ErrAdminNotFound name else e) | Inr r \<Rightarrow> Inr r)"

section \<open>Lemmas\<close>

definition admin_ok :: "admin_record \<Rightarrow> bool" where
  "admin_ok r \<longleftrightarrow> utf8_ok (admin_name r) \<and> utf8_ok (admin_policy r) \<and> time_ok (admin_created r)"

sublocale prims_laws \<subseteq> admin: codec "enc_admin P" "dec_admin P" admin_ok
proof
  fix r assume "admin_ok r"
  then show "\<exists>j. enc_admin P r = Some j \<and> json_ok j \<and> dec_admin P j = Some r"
    by (auto simp: admin_ok_def enc_admin_def dec_admin_def enc_time_ok json_ok_def time_text max_depth_def)
qed

sublocale auth_base \<subseteq> ar: doc_store "read_rec B (dec_admin P)" "\<lambda>s t r i. put_rec B (enc_admin P) s t" admin_ok E
  by (rule rec_store_codec) (rule admin.codec_axioms)

lemma admin_key_simps [simp]: "admin_key a = admin_key b \<longleftrightarrow> a = b" "admin_key a \<noteq> []"
  "has_prefix (admin_key a) ''auth/admins/''"
  by (simp_all add: admin_key_def has_prefix_def)

lemma admin_key_all: "has_prefix k ''auth/admins/'' \<longleftrightarrow> (\<exists>name. k = admin_key name)"
  by (auto simp: admin_key_def has_prefix_iff)

lemma admin_scan_Some: "admin_scan B P s t token keys = Some r \<Longrightarrow>
    \<exists>key\<in>set keys. read_rec B (dec_admin P) s t key = Inr r \<and> verify_argon2id P token (admin_hash r)"
  by (induction keys) (auto split: sum.splits if_splits)

lemma admin_scan_None: "admin_scan B P s t token keys = None \<longleftrightarrow>
    (\<forall>key\<in>set keys. \<forall>r. read_rec B (dec_admin P) s t key = Inr r \<longrightarrow> \<not> verify_argon2id P token (admin_hash r))"
  by (induction keys) (auto split: sum.splits if_splits)

lemma admin_key_le [simp]: "admin_key a \<le> admin_key b \<longleftrightarrow> a \<le> b"
  by (simp add: admin_key_def)

text \<open>The names whose record accepts a token.\<close>

definition admin_accepts ::
  "'s badger \<Rightarrow> prims \<Rightarrow> 's \<Rightarrow> time \<Rightarrow> string \<Rightarrow> string \<Rightarrow> admin_record \<Rightarrow> bool" where
  "admin_accepts B P s t token name r \<longleftrightarrow>
     read_rec B (dec_admin P) s t (admin_key name) = Inr r \<and> verify_argon2id P token (admin_hash r)"

text \<open>The scan answers with the first record that accepts.\<close>

lemma admin_scan_first:
  "sorted_wrt (<) keys \<Longrightarrow> admin_scan B P s t token keys = Some r \<Longrightarrow>
    \<exists>key\<in>set keys. read_rec B (dec_admin P) s t key = Inr r \<and> verify_argon2id P token (admin_hash r)
      \<and> (\<forall>k\<in>set keys. \<forall>r'. read_rec B (dec_admin P) s t k = Inr r' \<and> verify_argon2id P token (admin_hash r') \<longrightarrow> key \<le> k)"
  by (induction keys) (auto split: sum.splits if_splits)

context auth_base
begin

lemma admin_listed:
  "\<exists>keys. db_list B s t ''auth/admins/'' = Inr keys \<and>
     (\<forall>r. (\<exists>k\<in>set keys. read_rec B (dec_admin P) s t k = Inr r) \<longleftrightarrow>
        (\<exists>name. read_rec B (dec_admin P) s t (admin_key name) = Inr r))"
proof -
  obtain keys where k: "db_list B s t ''auth/admins/'' = Inr keys"
      "set keys = {k. has_prefix k ''auth/admins/'' \<and> visible (E s) t k \<noteq> None}"
    using db_list_prefix by blast
  have "visible (E s) t (admin_key name) \<noteq> None" if "read_rec B (dec_admin P) s t (admin_key name) = Inr r" for name r
    using that read_rec_absent[of "admin_key name" "dec_admin P" s t] by auto
  then have "\<forall>r. (\<exists>k\<in>set keys. read_rec B (dec_admin P) s t k = Inr r) \<longleftrightarrow>
      (\<exists>name. read_rec B (dec_admin P) s t (admin_key name) = Inr r)"
    unfolding k(2) admin_key_all by blast
  with k(1) show ?thesis by blast
qed

lemma admin_verify_sound:
  assumes "admin_verify B P s t token = Inr r"
  shows "has_prefix token adminTokenPrefix \<and> (\<exists>name. admin_accepts B P s t token name r)"
proof -
  obtain keys where k: "db_list B s t ''auth/admins/'' = Inr keys"
    "\<forall>r. (\<exists>k\<in>set keys. read_rec B (dec_admin P) s t k = Inr r) \<longleftrightarrow>
        (\<exists>name. read_rec B (dec_admin P) s t (admin_key name) = Inr r)" using admin_listed by blast
  then have "admin_scan B P s t token keys = Some r" "has_prefix token adminTokenPrefix"
    using assms by (auto simp: admin_verify_def has_prefix_def split: if_splits option.splits)
  with k(2) admin_scan_Some[of B P s t token keys r] show ?thesis by (auto simp: admin_accepts_def)
qed

lemma admin_verify_complete:
  assumes "admin_accepts B P s t token name r" "has_prefix token adminTokenPrefix"
  shows "\<exists>r'. admin_verify B P s t token = Inr r'"
proof -
  obtain keys where k: "db_list B s t ''auth/admins/'' = Inr keys"
    "\<forall>r. (\<exists>k\<in>set keys. read_rec B (dec_admin P) s t k = Inr r) \<longleftrightarrow>
        (\<exists>name. read_rec B (dec_admin P) s t (admin_key name) = Inr r)" using admin_listed by blast
  then have "admin_scan B P s t token keys \<noteq> None"
    using assms(1) unfolding admin_scan_None admin_accepts_def by blast
  then show ?thesis using k(1) assms(2) by (auto simp: admin_verify_def has_prefix_def)
qed

text \<open>Keys come in their order, so it is the first in the order of the names.\<close>

lemma admin_verify_first:
  assumes "admin_verify B P s t token = Inr r"
  shows "\<exists>name. admin_accepts B P s t token name r \<and> (\<forall>other r'. admin_accepts B P s t token other r' \<longrightarrow> name \<le> other)"
proof -
  obtain keys where k: "db_list B s t ''auth/admins/'' = Inr keys" "sorted_wrt (<) keys"
      "set keys = {k. has_prefix k ''auth/admins/'' \<and> visible (E s) t k \<noteq> None}"
    using db_list_prefix by blast
  have "admin_scan B P s t token keys = Some r" using assms k(1) by (auto simp: admin_verify_def split: if_splits option.splits)
  from admin_scan_first[OF k(2) this] obtain key where key: "key \<in> set keys" "read_rec B (dec_admin P) s t key = Inr r"
      "verify_argon2id P token (admin_hash r)"
    and first: "\<And>k r'. k \<in> set keys \<Longrightarrow> read_rec B (dec_admin P) s t k = Inr r' \<Longrightarrow> verify_argon2id P token (admin_hash r') \<Longrightarrow> key \<le> k"
    by blast
  obtain name where n: "key = admin_key name" using key(1) k(3) admin_key_all by auto
  have "name \<le> other" if "admin_accepts B P s t token other r'" for other r'
  proof -
    have "visible (E s) t (admin_key other) \<noteq> None"
      using that read_rec_absent[of "admin_key other" "dec_admin P" s t] by (auto simp: admin_accepts_def)
    then have "admin_key other \<in> set keys" unfolding k(3) by simp
    from first[OF this] that n show ?thesis by (auto simp: admin_accepts_def)
  qed
  with key n show ?thesis by (auto simp: admin_accepts_def)
qed

lemma admin_accepts_one: "admin_accepts B P s t token name r \<Longrightarrow> admin_accepts B P s t token name r' \<Longrightarrow> r = r'"
  by (simp add: admin_accepts_def)

lemma admin_verify_error:
  assumes "admin_verify B P s t token = Inl e"
  shows "e = (if has_prefix token adminTokenPrefix then ErrAdminToken else ErrTokenFormat)"
proof -
  obtain keys where "db_list B s t ''auth/admins/'' = Inr keys" using db_list_prefix by blast
  with assms show ?thesis by (auto simp: admin_verify_def has_prefix_def split: if_splits option.splits)
qed

lemma has_admins_iff: "has_admins B s t = Inr (\<exists>name. visible (E s) t (admin_key name) \<noteq> None)"
proof -
  obtain keys where "db_list B s t ''auth/admins/'' = Inr keys"
      "set keys = {k. has_prefix k ''auth/admins/'' \<and> visible (E s) t k \<noteq> None}"
    using db_list_prefix by blast
  moreover have "keys \<noteq> [] \<longleftrightarrow> (\<exists>k. k \<in> set keys)" by (cases keys) auto
  ultimately have "keys \<noteq> [] \<longleftrightarrow> (\<exists>name. visible (E s) t (admin_key name) \<noteq> None)"
    unfolding admin_key_all by auto
  then show ?thesis using \<open>db_list B s t ''auth/admins/'' = Inr keys\<close> by (simp add: has_admins_def)
qed

lemma admin_create_cases:
  assumes "admin_create B P s t rng name policy = Inr (s', token)" "utf8_ok name" "utf8_ok policy"
  obtains h x where "hash_argon2id P rng 1 token = Inr h" "has_prefix token adminTokenPrefix"
    "read_rec B (dec_admin P) s' t' (admin_key name) =
       Inr \<lparr>admin_name = name, admin_policy = policy, admin_created = t, admin_hash = h\<rparr>"
    "E s' = (E s)(admin_key name \<mapsto> x)" "snd x = None"
proof -
  obtain raw h where *: "token = adminTokenPrefix @ raw_url_encode raw" "hash_argon2id P rng 1 token = Inr h"
    "put_rec B (enc_admin P) s t (admin_key name)
       \<lparr>admin_name = name, admin_policy = policy, admin_created = t, admin_hash = h\<rparr> = Inr s'"
    using assms(1) by (auto simp: admin_create_def Let_def split: sum.splits)
  then have "time_ok t" by (auto simp: put_rec_E json_marshal_def enc_admin_def dest: enc_time_SomeD split: option.splits)
  then have "admin_ok \<lparr>admin_name = name, admin_policy = policy, admin_created = t, admin_hash = h\<rparr>"
    using assms(2,3) by (simp add: admin_ok_def)
  moreover obtain x where "E s' = (E s)(admin_key name \<mapsto> (x, None))" using ar.save_E[OF *(3)] by blast
  ultimately show thesis
    using that[of h "(x, None)"] * ar.load_save[OF _ _ *(3), of t'] by simp
qed

text \<open>The first administrator's token is accepted at any time, as that administrator.\<close>

lemma admin_first:
  assumes "admin_create B P s t rng name policy = Inr (s', token)" "utf8_ok name" "utf8_ok policy"
    and "\<And>other. E s (admin_key other) = None"
  shows "has_prefix token adminTokenPrefix \<and> (\<exists>rec. admin_verify B P s' t' token = Inr rec
    \<and> admin_name rec = name \<and> admin_policy rec = policy)"
  using assms(1-3)
proof (rule admin_create_cases[where t' = t'])
  fix h x
  let ?r = "\<lparr>admin_name = name, admin_policy = policy, admin_created = t, admin_hash = h\<rparr>"
  assume h: "hash_argon2id P rng 1 token = Inr h" "has_prefix token adminTokenPrefix"
    "read_rec B (dec_admin P) s' t' (admin_key name) = Inr ?r" "E s' = (E s)(admin_key name \<mapsto> x)"
  have acc: "admin_accepts B P s' t' token name ?r" using h by (simp add: admin_accepts_def hash_accepts)
  obtain rec where r: "admin_verify B P s' t' token = Inr rec" using admin_verify_complete[OF acc h(2)] by blast
  obtain other where n: "read_rec B (dec_admin P) s' t' (admin_key other) = Inr rec"
    using admin_verify_sound[OF r] by (auto simp: admin_accepts_def)
  then have "visible (E s') t' (admin_key other) \<noteq> None"
    using read_rec_absent[of "admin_key other" "dec_admin P" s' t'] by auto
  then have "other = name" using h(4) assms(4) by (auto simp: visible_def split: if_splits)
  with n h r show ?thesis by auto
qed

lemma admin_delete_E:
  assumes "admin_delete B s t name = Inr s'"
  shows "E s' = (E s)(admin_key name := None)"
  using assms db.del_E by (auto simp: admin_delete_def split: sum.splits)

end

section \<open>Properties\<close>

text \<open>
  C32: Verify accepts a token with the admin prefix exactly when some stored admin record holds a
  hash that accepts it, and it answers with the first such record in the order of the names: its name is the
  least of the names whose records accept the token. A token without the prefix, and one that no
  record accepts, is refused with its own error.
\<close>

theorem admin_verify_iff:
  assumes "badger_laws B E" and "prims_laws P"
  shows "((\<exists>r. admin_verify B P s t token = Inr r) \<longleftrightarrow>
      has_prefix token adminTokenPrefix \<and> (\<exists>name r. admin_accepts B P s t token name r))
    \<and> (\<forall>r. admin_verify B P s t token = Inr r \<longleftrightarrow> has_prefix token adminTokenPrefix
        \<and> (\<exists>name. admin_accepts B P s t token name r
             \<and> (\<forall>other r'. admin_accepts B P s t token other r' \<longrightarrow> name \<le> other)))
    \<and> (\<forall>e. admin_verify B P s t token = Inl e \<longrightarrow>
        e = (if has_prefix token adminTokenPrefix then ErrAdminToken else ErrTokenFormat))"
proof -
  note a = authI[OF assms]
  have found: "(\<exists>r. admin_verify B P s t token = Inr r) \<longleftrightarrow>
      has_prefix token adminTokenPrefix \<and> (\<exists>name r. admin_accepts B P s t token name r)"
    using auth_base.admin_verify_sound[OF a] auth_base.admin_verify_complete[OF a] by blast
  have "admin_verify B P s t token = Inr r" if p: "has_prefix token adminTokenPrefix" and acc: "admin_accepts B P s t token name r"
    and least: "\<And>other r'. admin_accepts B P s t token other r' \<Longrightarrow> name \<le> other" for r name
  proof -
    obtain r0 where r0: "admin_verify B P s t token = Inr r0" using found p acc by blast
    then obtain name0 where n: "admin_accepts B P s t token name0 r0" "name0 \<le> name"
      using auth_base.admin_verify_first[OF a] acc by blast
    from order_antisym[OF n(2) least[OF n(1)]] have "name0 = name" .
    with n(1) acc r0 show ?thesis using auth_base.admin_accepts_one[OF a] by metis
  qed
  with found auth_base.admin_verify_sound[OF a] auth_base.admin_verify_first[OF a] auth_base.admin_verify_error[OF a]
  show ?thesis by meson
qed

lemma demo_admin_create_at:
  "\<exists>s'. admin_create mem_badger demo_prims s 0 demo_rng name pol = Inr (s', adminTokenPrefix @ raw_url_encode (fill 32 ''A''))"
proof -
  obtain h where h: "hash_argon2id demo_prims demo_rng 1 (adminTokenPrefix @ raw_url_encode (fill 32 ''A'')) = Inr h"
    by (simp add: hash_argon2id_def rand_read_def demo_rng_def)
  let ?r = "\<lparr>admin_name = name, admin_policy = pol, admin_created = 0, admin_hash = h\<rparr>"
  obtain j where j: "enc_admin demo_prims ?r = Some j" by (simp add: enc_admin_def enc_time_def time_ok_def second_def)
  obtain s' where "put_rec mem_badger (enc_admin demo_prims) s 0 (admin_key name) ?r = Inr s'"
    using demo_put[of _ "enc_admin demo_prims" ?r, OF admin_key_simps(2) j] by blast
  then show ?thesis using h by (simp add: admin_create_def demo_draw)
qed

lemma demo_admin_create:
  "\<exists>s' token. admin_create mem_badger demo_prims [] 0 demo_rng name pol = Inr (s', token)"
  using demo_admin_create_at by blast

lemma demo_admin_names: "utf8_ok ''root''" "utf8_ok ''admin''"
  by (simp_all add: utf8_ok_all_ascii is_ascii_def)

text \<open>Two records accept the token; the answer is the one whose name comes first, which was stored last.\<close>

theorem admin_verify_iff_witness:
  "\<exists>s1 s2 token r. admin_create mem_badger demo_prims [] 0 demo_rng ''root'' ''admin'' = Inr (s1, token)
     \<and> admin_create mem_badger demo_prims s1 0 demo_rng ''admin'' ''readonly'' = Inr (s2, token)
     \<and> admin_verify mem_badger demo_prims s2 1 token = Inr r \<and> admin_name r = ''admin''"
proof -
  obtain token s1 s2 where c: "admin_create mem_badger demo_prims [] 0 demo_rng ''root'' ''admin'' = Inr (s1, token)"
    "admin_create mem_badger demo_prims s1 0 demo_rng ''admin'' ''readonly'' = Inr (s2, token)"
    using demo_admin_create_at by metis
  have u: "utf8_ok ''readonly''" by (simp add: utf8_ok_all_ascii is_ascii_def)
  obtain h where h: "hash_argon2id demo_prims demo_rng 1 token = Inr h" "has_prefix token adminTokenPrefix"
    "read_rec mem_badger (dec_admin demo_prims) s2 1 (admin_key ''admin'') =
       Inr \<lparr>admin_name = ''admin'', admin_policy = ''readonly'', admin_created = 0, admin_hash = h\<rparr>" (is "_ = Inr ?r")
    and s2: "\<exists>x. map_of s2 = (map_of s1)(admin_key ''admin'' \<mapsto> x)"
    by (rule demo_auth.admin_create_cases[OF c(2) demo_admin_names(2) u, where t' = 1]) blast
  obtain x where s1: "map_of s1 = (map_of [])(admin_key ''root'' \<mapsto> x)"
    by (rule demo_auth.admin_create_cases[OF c(1) demo_admin_names]) blast
  have a: "admin_accepts mem_badger demo_prims s2 1 token ''admin'' ?r"
    using h by (simp add: admin_accepts_def demo_auth.hash_accepts)
  have "''admin'' \<le> other" if "admin_accepts mem_badger demo_prims s2 1 token other r" for other r
  proof -
    have "visible (map_of s2) 1 (admin_key other) \<noteq> None"
      using that badger_laws.read_rec_absent[OF mem_laws, of "admin_key other" "dec_admin demo_prims" s2 1] by (auto simp: admin_accepts_def)
    then have "other = ''admin'' \<or> other = ''root''" using s1 s2 by (auto simp: visible_def split: if_splits)
    moreover have "''admin'' \<le> ''root''" by code_simp
    ultimately show ?thesis by auto
  qed
  with a h(2) admin_verify_iff[OF mem_laws demo_laws, of s2 1 token] have "admin_verify mem_badger demo_prims s2 1 token = Inr ?r"
    by blast
  with c show ?thesis by (intro exI[of _ s1] exI[of _ s2] exI[of _ token] exI[of _ ?r]) simp
qed

text \<open>
  A token that Create returned is accepted from then on. Create replaces the record of an
  existing name without a check: what the old record accepted is accepted under that name only
  if Argon2id maps it to the new token's hash, and no other name's record changes.
\<close>

theorem admin_create_replaces:
  assumes "badger_laws B E" and "prims_laws P" and "admin_create B P s t rng name policy = Inr (s', token)"
    and "utf8_ok name" and "utf8_ok policy"
  shows "(\<exists>r. admin_verify B P s' t' token = Inr r)
    \<and> (\<exists>h. \<forall>old. admin_accepts B P s' t' old name h \<longleftrightarrow>
        admin_accepts B P s' t' token name h
        \<and> argon2_idkey P old (take salt_len (admin_hash h)) = argon2_idkey P token (take salt_len (admin_hash h)))
    \<and> (\<forall>other r. other \<noteq> name \<longrightarrow>
        admin_accepts B P s' t' old other r = admin_accepts B P s t' old other r)"
proof -
  note a = authI[OF assms(1,2)]
  obtain h x where h: "hash_argon2id P rng 1 token = Inr h" and p: "has_prefix token adminTokenPrefix"
    and r: "read_rec B (dec_admin P) s' t' (admin_key name) =
       Inr \<lparr>admin_name = name, admin_policy = policy, admin_created = t, admin_hash = h\<rparr>"
    and E: "E s' = (E s)(admin_key name \<mapsto> x)" and "snd x = None"
    by (rule auth_base.admin_create_cases[OF a assms(3-5)])
  let ?r = "\<lparr>admin_name = name, admin_policy = policy, admin_created = t, admin_hash = h\<rparr>"
  have acc: "admin_accepts B P s' t' old name ?r \<longleftrightarrow>
      argon2_idkey P old (take salt_len h) = argon2_idkey P token (take salt_len h)" for old
    using r by (simp add: admin_accepts_def auth_base.hash_accepts[OF a h])
  then have "\<exists>r. admin_verify B P s' t' token = Inr r"
    using auth_base.admin_verify_complete[OF a _ p] by blast
  moreover have "\<exists>h. \<forall>old. admin_accepts B P s' t' old name h \<longleftrightarrow>
        admin_accepts B P s' t' token name h
        \<and> argon2_idkey P old (take salt_len (admin_hash h)) = argon2_idkey P token (take salt_len (admin_hash h))"
    by (intro exI[of _ ?r]) (simp add: acc)
  moreover have "admin_accepts B P s' t' old other r = admin_accepts B P s t' old other r" if "other \<noteq> name" for other r
    using badger_laws.read_rec_frame[OF assms(1) _ _ E, of "admin_key other" "dec_admin P" t'] that
    by (simp add: admin_accepts_def)
  ultimately show ?thesis by blast
qed

theorem admin_create_replaces_witness:
  "\<exists>s' token. admin_create mem_badger demo_prims [] 0 demo_rng ''root'' ''admin'' = Inr (s', token)
     \<and> (\<exists>r. admin_verify mem_badger demo_prims s' 1 token = Inr r)"
proof -
  obtain s' token where c: "admin_create mem_badger demo_prims [] 0 demo_rng ''root'' ''admin'' = Inr (s', token)"
    using demo_admin_create by blast
  with admin_create_replaces[OF mem_laws demo_laws c demo_admin_names, of 1] show ?thesis by blast
qed

text \<open>
  C33: HasAdmins says whether any admin record is left. After the record of the only admin is
  deleted it says no again, although the server takes that answer for a fresh installation.
\<close>

theorem admin_bootstrap_reopens:
  assumes "badger_laws B E" and "prims_laws P" and "admin_delete B s t name = Inr s'"
    and "\<And>other. other \<noteq> name \<Longrightarrow> E s (admin_key other) = None"
  shows "has_admins B s t = Inr True \<and> has_admins B s' t' = Inr False
    \<and> (\<forall>token. \<exists>e. admin_verify B P s' t' token = Inl e)"
proof -
  note a = authI[OF assms(1,2)]
  have E: "E s' = (E s)(admin_key name := None)" by (rule auth_base.admin_delete_E[OF a assms(3)])
  have gone: "visible (E s') t' (admin_key other) = None" for other
    using assms(4)[of other] by (cases "other = name") (simp_all add: E visible_def)
  obtain v where "db_get B s t (admin_key name) = Inr v"
    using assms(3) by (auto simp: admin_delete_def split: sum.splits)
  then have "visible (E s) t (admin_key name) \<noteq> None"
    by (auto simp: badger_laws.db_get_visible[OF assms(1)] split: option.splits)
  then have "has_admins B s t = Inr True" using auth_base.has_admins_iff[OF a, of s t] by auto
  moreover have "has_admins B s' t' = Inr False" using auth_base.has_admins_iff[OF a, of s' t'] gone by simp
  moreover have "\<exists>e. admin_verify B P s' t' token = Inl e" for token
  proof (cases "admin_verify B P s' t' token")
    case (Inr r)
    then obtain n where "read_rec B (dec_admin P) s' t' (admin_key n) = Inr r"
      using auth_base.admin_verify_sound[OF a Inr] by (auto simp: admin_accepts_def)
    then show ?thesis using badger_laws.read_rec_absent[OF assms(1), of "admin_key n" "dec_admin P" s' t'] gone by simp
  qed auto
  ultimately show ?thesis by blast
qed

theorem admin_bootstrap_reopens_witness:
  "\<exists>s' token s''. admin_create mem_badger demo_prims [] 0 demo_rng ''root'' ''admin'' = Inr (s', token)
     \<and> admin_delete mem_badger s' 1 ''root'' = Inr s'' \<and> has_admins mem_badger s'' 2 = Inr False"
proof -
  obtain s' token where c: "admin_create mem_badger demo_prims [] 0 demo_rng ''root'' ''admin'' = Inr (s', token)"
    using demo_admin_create by blast
  obtain h x where "hash_argon2id demo_prims demo_rng 1 token = Inr h" "has_prefix token adminTokenPrefix"
    "read_rec mem_badger (dec_admin demo_prims) s' 1 (admin_key ''root'') =
       Inr \<lparr>admin_name = ''root'', admin_policy = ''admin'', admin_created = 0, admin_hash = h\<rparr>"
    and E: "map_of s' = (map_of [])(admin_key ''root'' \<mapsto> x)" "snd x = None"
    by (rule demo_auth.admin_create_cases[OF c demo_admin_names])
  obtain s'' where d: "admin_delete mem_badger s' 1 ''root'' = Inr s''"
    using E by (cases x) (auto simp: admin_delete_def db_get_def db_delete_def lift_bdg_def mem_badger_def visible_def)
  have "has_admins mem_badger s'' 2 = Inr False"
    using admin_bootstrap_reopens[OF mem_laws demo_laws d, of 2] E by simp
  with c d show ?thesis by blast
qed

end
