(* ===== verification/Auth_User.thy ===== *)
theory Auth_User
  imports Auth_Records
begin

text \<open>
  internal/auth/user.go: users with a password hash, a policy and a disabled mark, one record
  per username.
\<close>

record user_record =
  user_name :: string
  user_policy :: string
  user_created :: time
  user_hash :: bytes
  user_disabled :: bool

definition enc_user :: "prims \<Rightarrow> user_record \<Rightarrow> json option" where
  "enc_user P r = map_option (\<lambda>created. JObj [(''username'', JStr (user_name r)), (''policy'', JStr (user_policy r)),
     (''created_at'', created), (''hash'', enc_bytes (user_hash r)), (''disabled'', JBool (user_disabled r))])
     (enc_time P (user_created r))"

definition dec_user :: "prims \<Rightarrow> json \<Rightarrow> user_record option" where
  "dec_user P j = (case members j of None \<Rightarrow> None | Some ms \<Rightarrow>
     (case (obj_get ''username'' dec_str [] ms, obj_get ''policy'' dec_str [] ms,
            obj_get ''created_at'' (dec_time P) zero_time ms, obj_get ''hash'' dec_bytes [] ms,
            obj_get ''disabled'' dec_bool False ms) of
        (Some name, Some policy, Some created, Some hash, Some disabled) \<Rightarrow>
          Some \<lparr>user_name = name, user_policy = policy, user_created = created, user_hash = hash,
            user_disabled = disabled\<rparr>
      | _ \<Rightarrow> None))"

definition user_key :: "string \<Rightarrow> string" where
  "user_key name = ''auth/users/'' @ name"

definition user_get :: "'s badger \<Rightarrow> prims \<Rightarrow> 's \<Rightarrow> time \<Rightarrow> string \<Rightarrow> err + user_record" where
  "user_get B P s t name = (case read_rec B (dec_user P) s t (user_key name) of
     Inl e \<Rightarrow> Inl (if is_not_found e then ErrUserNotFound name else e) | Inr r \<Rightarrow> Inr r)"

definition user_create ::
  "'s badger \<Rightarrow> prims \<Rightarrow> 's \<Rightarrow> time \<Rightarrow> rng \<Rightarrow> string \<Rightarrow> string \<Rightarrow> string \<Rightarrow> err + 's" where
  "user_create B P s t rng name password policy = (case db_get B s t (user_key name) of
     Inr _ \<Rightarrow> Inl (ErrUserExists name)
   | Inl _ \<Rightarrow> (case hash_argon2id P rng 0 password of
        Inl e \<Rightarrow> Inl (Wrapped ''hash password'' e)
      | Inr hash \<Rightarrow> put_rec B (enc_user P) s t (user_key name) \<lparr>user_name = name, user_policy = policy,
          user_created = t, user_hash = hash, user_disabled = False\<rparr>))"

definition user_verify :: "'s badger \<Rightarrow> prims \<Rightarrow> 's \<Rightarrow> time \<Rightarrow> string \<Rightarrow> string \<Rightarrow> err + user_record" where
  "user_verify B P s t name password = (case user_get B P s t name of
     Inl _ \<Rightarrow> Inl ErrCredentials
   | Inr r \<Rightarrow> if user_disabled r then Inl ErrCredentials
       else if \<not> verify_argon2id P password (user_hash r) then Inl ErrCredentials
       else Inr r)"

definition user_list :: "'s badger \<Rightarrow> prims \<Rightarrow> 's \<Rightarrow> time \<Rightarrow> err + user_record list" where
  "user_list B P s t = (case db_list B s t ''auth/users/'' of
     Inl e \<Rightarrow> Inl e
   | Inr keys \<Rightarrow> Inr (map (\<lambda>(k, r). r\<lparr>user_hash := []\<rparr>) (read_all B (dec_user P) s t keys)))"

definition user_delete :: "'s badger \<Rightarrow> 's \<Rightarrow> time \<Rightarrow> string \<Rightarrow> err + 's" where
  "user_delete B s t name = (case db_get B s t (user_key name) of
     Inl e \<Rightarrow> Inl (if is_not_found e then ErrUserNotFound name else e)
   | Inr _ \<Rightarrow> db_delete B s t (user_key name))"

definition user_change_policy ::
  "'s badger \<Rightarrow> prims \<Rightarrow> 's \<Rightarrow> time \<Rightarrow> string \<Rightarrow> string \<Rightarrow> err + 's" where
  "user_change_policy B P s t name policy = (case user_get B P s t name of
     Inl e \<Rightarrow> Inl e
   | Inr r \<Rightarrow> put_rec B (enc_user P) s t (user_key name) (r\<lparr>user_policy := policy\<rparr>))"

definition user_change_password ::
  "'s badger \<Rightarrow> prims \<Rightarrow> 's \<Rightarrow> time \<Rightarrow> rng \<Rightarrow> string \<Rightarrow> string \<Rightarrow> err + 's" where
  "user_change_password B P s t rng name newPassword = (case user_get B P s t name of
     Inl e \<Rightarrow> Inl e
   | Inr r \<Rightarrow> (case hash_argon2id P rng 0 newPassword of
        Inl e \<Rightarrow> Inl (Wrapped ''hash password'' e)
      | Inr hash \<Rightarrow> put_rec B (enc_user P) s t (user_key name) (r\<lparr>user_hash := hash\<rparr>)))"

section \<open>Lemmas\<close>

definition user_ok :: "user_record \<Rightarrow> bool" where
  "user_ok r \<longleftrightarrow> utf8_ok (user_name r) \<and> utf8_ok (user_policy r) \<and> time_ok (user_created r)"

sublocale prims_laws \<subseteq> user: codec "enc_user P" "dec_user P" user_ok
proof
  fix r assume "user_ok r"
  then show "\<exists>j. enc_user P r = Some j \<and> json_ok j \<and> dec_user P j = Some r"
    by (auto simp: user_ok_def enc_user_def dec_user_def enc_time_ok json_ok_def time_text max_depth_def)
qed

sublocale auth_base \<subseteq> ur: doc_store "read_rec B (dec_user P)" "\<lambda>s t r i. put_rec B (enc_user P) s t" user_ok E
  by (rule rec_store_codec) (rule user.codec_axioms)

lemma user_key_simps [simp]: "user_key a = user_key b \<longleftrightarrow> a = b" "user_key a \<noteq> []"
  "has_prefix (user_key a) ''auth/users/''"
  by (simp_all add: user_key_def has_prefix_def)

lemma user_key_all: "has_prefix k ''auth/users/'' \<longleftrightarrow> (\<exists>name. k = user_key name)"
  by (auto simp: user_key_def has_prefix_iff)

text \<open>What is stored for a username: a record that Get returns at any time, or nothing.\<close>

definition user_rep :: "'s badger \<Rightarrow> prims \<Rightarrow> ('s \<Rightarrow> contents) \<Rightarrow> 's \<Rightarrow> string \<Rightarrow> user_record option \<Rightarrow> bool" where
  "user_rep B P E s name x \<longleftrightarrow> (case x of
     None \<Rightarrow> E s (user_key name) = None
   | Some r \<Rightarrow> user_ok r \<and> user_name r = name \<and> (\<forall>t. user_get B P s t name = Inr r))"

context auth_base
begin

lemma user_get_absent: "E s (user_key name) = None \<Longrightarrow> user_get B P s t name = Inl (ErrUserNotFound name)"
  using read_rec_absent[of "user_key name" "dec_user P" s t] by (simp add: user_get_def visible_def)

lemma user_get_frame: "E s' = (E s)(user_key name := x) \<Longrightarrow> other \<noteq> name \<Longrightarrow>
    user_get B P s' t other = user_get B P s t other"
  using read_rec_frame[of "user_key other" "user_key name" s' s x "dec_user P" t] by (simp add: user_get_def)

lemma put_user:
  assumes "put_rec B (enc_user P) s t (user_key name) r = Inr s'" "user_name r = name" "utf8_ok name" "utf8_ok (user_policy r)"
  shows "user_rep B P E s' name (Some r)" and "\<exists>x. E s' = (E s)(user_key name := x)"
proof -
  have "time_ok (user_created r)"
    using assms(1) by (auto simp: put_rec_E json_marshal_def enc_user_def dest: enc_time_SomeD split: option.splits)
  then have ok: "user_ok r" using assms(2-4) by (simp add: user_ok_def)
  have "user_get B P s' t' name = Inr r" for t'
    using ur.load_save[OF _ ok assms(1), of t'] by (simp add: user_get_def)
  then show "user_rep B P E s' name (Some r)" using ok assms(2) by (simp add: user_rep_def)
  show "\<exists>x. E s' = (E s)(user_key name := x)" using ur.save_E[OF assms(1)] by blast
qed

lemma user_create_rep:
  assumes "user_create B P s t rng name password policy = Inr s'" "utf8_ok name" "utf8_ok policy"
  shows "\<exists>h. hash_argon2id P rng 0 password = Inr h \<and> user_rep B P E s' name (Some \<lparr>user_name = name,
      user_policy = policy, user_created = t, user_hash = h, user_disabled = False\<rparr>)"
  using assms put_user(1)[of s t name _ s'] by (fastforce simp: user_create_def split: sum.splits)

lemma user_writes:
  assumes "user_create B P s t rng name password policy = Inr s' \<or> user_delete B s t name = Inr s'
    \<or> user_change_policy B P s t name policy = Inr s' \<or> user_change_password B P s t rng name password = Inr s'"
  shows "\<exists>x. E s' = (E s)(user_key name := x)"
proof -
  have "(\<exists>r. put_rec B (enc_user P) s t (user_key name) r = Inr s') \<or> db_delete B s t (user_key name) = Inr s'"
    using assms by (auto simp: user_create_def user_delete_def user_change_policy_def user_change_password_def
      split: sum.splits)
  then show ?thesis using ur.save_E db.del_E by blast
qed

lemma user_repD:
  "user_rep B P E s name (Some r) \<Longrightarrow> user_get B P s t name = Inr r"
  "user_rep B P E s name (Some r) \<Longrightarrow> user_ok r \<and> user_name r = name"
  by (simp_all add: user_rep_def)

end

section \<open>Properties\<close>

text \<open>
  C34: Verify after Create: the new user logs in with exactly the passwords that Argon2id maps to
  the stored hash, the given password among them, and every refusal, of an unknown user, a
  disabled one or a wrong password, is the same error.
\<close>

theorem user_login:
  assumes "badger_laws B E" and "prims_laws P" and "user_create B P s t rng name password policy = Inr s'"
    and "utf8_ok name" and "utf8_ok policy"
  shows "\<exists>r. user_policy r = policy
    \<and> (\<forall>attempt. user_verify B P s' t' name attempt =
        (if argon2_idkey P attempt (take salt_len (user_hash r)) = argon2_idkey P password (take salt_len (user_hash r))
         then Inr r else Inl ErrCredentials))
    \<and> (\<forall>other attempt e. user_verify B P s' t' other attempt = Inl e \<longrightarrow> e = ErrCredentials)"
proof -
  note a = authI[OF assms(1,2)]
  obtain h where h: "hash_argon2id P rng 0 password = Inr h"
    and r: "user_rep B P E s' name (Some \<lparr>user_name = name, user_policy = policy, user_created = t,
        user_hash = h, user_disabled = False\<rparr>)"
    using auth_base.user_create_rep[OF a assms(3-5)] by blast
  have "user_verify B P s' t' name attempt =
      (if argon2_idkey P attempt (take salt_len h) = argon2_idkey P password (take salt_len h)
       then Inr \<lparr>user_name = name, user_policy = policy, user_created = t, user_hash = h, user_disabled = False\<rparr>
       else Inl ErrCredentials)" for attempt
    using auth_base.user_repD(1)[OF a r, of t'] by (simp add: user_verify_def auth_base.hash_accepts[OF a h])
  moreover have "user_verify B P s' t' other attempt = Inl e \<Longrightarrow> e = ErrCredentials" for other attempt e
    by (auto simp: user_verify_def split: sum.splits if_splits)
  ultimately show ?thesis
    by (intro exI[of _ "\<lparr>user_name = name, user_policy = policy, user_created = t, user_hash = h, user_disabled = False\<rparr>"]) auto
qed

lemma demo_hash: "hash_argon2id demo_prims demo_rng 0 ''pw'' = Inr (fill 32 ''A'' @ fill 32 (''pw'' @ fill 32 ''A''))"
  by code_simp

lemma demo_user_create: "\<exists>s'. user_create mem_badger demo_prims [] 0 demo_rng ''ada'' ''pw'' ''readonly'' = Inr s'"
proof -
  let ?r = "\<lparr>user_name = ''ada'', user_policy = ''readonly'', user_created = 0,
    user_hash = fill 32 ''A'' @ fill 32 (''pw'' @ fill 32 ''A''), user_disabled = False\<rparr>"
  obtain j where j: "enc_user demo_prims ?r = Some j" by (simp add: enc_user_def enc_time_def time_ok_def second_def)
  obtain s' where "put_rec mem_badger (enc_user demo_prims) [] 0 (user_key ''ada'') ?r = Inr s'"
    using demo_put[of _ "enc_user demo_prims" ?r, OF user_key_simps(2) j] by blast
  then show ?thesis
    by (simp add: user_create_def demo_hash db_get_def mem_badger_def visible_def)
qed

lemma demo_user_names: "utf8_ok ''ada''" "utf8_ok ''readonly''" "utf8_ok ''admin''"
  by (simp_all add: utf8_ok_all_ascii is_ascii_def)

theorem user_login_witness:
  "\<exists>s' r. user_create mem_badger demo_prims [] 0 demo_rng ''ada'' ''pw'' ''readonly'' = Inr s'
     \<and> user_verify mem_badger demo_prims s' 1 ''ada'' ''pw'' = Inr r \<and> user_policy r = ''readonly''"
proof -
  obtain s' where c: "user_create mem_badger demo_prims [] 0 demo_rng ''ada'' ''pw'' ''readonly'' = Inr s'"
    using demo_user_create by blast
  with user_login[OF mem_laws demo_laws c demo_user_names(1,2), of 1] show ?thesis by auto
qed

text \<open>
  ChangePolicy and ChangePassword change one field of a stored user: after the first the same
  passwords log in and get the new policy, after the second exactly the passwords that match the
  new hash log in, with the old policy.
\<close>

theorem user_changes:
  assumes "badger_laws B E" and "prims_laws P" and "user_rep B P E s name (Some r)" and "utf8_ok policy"
    and "user_disabled r = False"
  shows "(\<forall>s'. user_change_policy B P s t name policy = Inr s' \<longrightarrow> (\<forall>attempt.
        user_verify B P s' t' name attempt = (if verify_argon2id P attempt (user_hash r)
          then Inr (r\<lparr>user_policy := policy\<rparr>) else Inl ErrCredentials)))
    \<and> (\<forall>s'. user_change_password B P s t rng name new = Inr s' \<longrightarrow> (\<exists>h. \<forall>attempt.
        user_verify B P s' t' name attempt =
          (if argon2_idkey P attempt (take salt_len h) = argon2_idkey P new (take salt_len h)
           then Inr (r\<lparr>user_hash := h\<rparr>) else Inl ErrCredentials)))"
proof -
  note a = authI[OF assms(1,2)]
  note g = auth_base.user_repD(1)[OF a assms(3)] and ok = auth_base.user_repD(2)[OF a assms(3)]
  have u: "utf8_ok name" "utf8_ok (user_policy r)" using ok by (auto simp: user_ok_def)
  have "user_verify B P s' t' name attempt = (if verify_argon2id P attempt (user_hash r)
          then Inr (r\<lparr>user_policy := policy\<rparr>) else Inl ErrCredentials)"
    if "user_change_policy B P s t name policy = Inr s'" for s' attempt
  proof -
    have w: "put_rec B (enc_user P) s t (user_key name) (r\<lparr>user_policy := policy\<rparr>) = Inr s'"
      using that g[of t] by (simp add: user_change_policy_def)
    have "user_rep B P E s' name (Some (r\<lparr>user_policy := policy\<rparr>))"
      using auth_base.put_user(1)[OF a w] ok u assms(4) by simp
    then show ?thesis using auth_base.user_repD(1)[OF a, of s' name "r\<lparr>user_policy := policy\<rparr>" t'] assms(5)
      by (simp add: user_verify_def)
  qed
  moreover have "\<exists>h. \<forall>attempt. user_verify B P s' t' name attempt =
          (if argon2_idkey P attempt (take salt_len h) = argon2_idkey P new (take salt_len h)
           then Inr (r\<lparr>user_hash := h\<rparr>) else Inl ErrCredentials)"
    if cp: "user_change_password B P s t rng name new = Inr s'" for s'
  proof -
    obtain h where h: "hash_argon2id P rng 0 new = Inr h"
        and w: "put_rec B (enc_user P) s t (user_key name) (r\<lparr>user_hash := h\<rparr>) = Inr s'"
      using cp g[of t] by (auto simp: user_change_password_def split: sum.splits)
    have "user_rep B P E s' name (Some (r\<lparr>user_hash := h\<rparr>))"
      using auth_base.put_user(1)[OF a w] ok u by simp
    then show ?thesis using auth_base.user_repD(1)[OF a, of s' name "r\<lparr>user_hash := h\<rparr>" t'] assms(5)
      by (intro exI[of _ h]) (simp add: user_verify_def auth_base.hash_accepts[OF a h])
  qed
  ultimately show ?thesis by blast
qed

theorem user_changes_witness:
  "\<exists>s' r s''. user_create mem_badger demo_prims [] 0 demo_rng ''ada'' ''pw'' ''readonly'' = Inr s'
     \<and> user_change_policy mem_badger demo_prims s' 1 ''ada'' ''admin'' = Inr s''
     \<and> user_verify mem_badger demo_prims s'' 2 ''ada'' ''pw'' = Inr r \<and> user_policy r = ''admin''"
proof -
  obtain s' where c: "user_create mem_badger demo_prims [] 0 demo_rng ''ada'' ''pw'' ''readonly'' = Inr s'"
    using demo_user_create by blast
  obtain h where h: "hash_argon2id demo_prims demo_rng 0 ''pw'' = Inr h"
    and r: "user_rep mem_badger demo_prims map_of s' ''ada'' (Some \<lparr>user_name = ''ada'', user_policy = ''readonly'',
      user_created = 0, user_hash = h, user_disabled = False\<rparr>)"
    using demo_auth.user_create_rep[OF c demo_user_names(1,2)] by blast
  let ?r = "\<lparr>user_name = ''ada'', user_policy = ''readonly'', user_created = 0, user_hash = h, user_disabled = False\<rparr>"
  let ?q = "\<lparr>user_name = ''ada'', user_policy = ''admin'', user_created = (0::int), user_hash = h, user_disabled = False\<rparr>"
  obtain j where j: "enc_user demo_prims ?q = Some j" by (simp add: enc_user_def enc_time_def time_ok_def second_def)
  obtain s'' where "put_rec mem_badger (enc_user demo_prims) s' 1 (user_key ''ada'') ?q = Inr s''"
    using demo_put[of _ "enc_user demo_prims" ?q, OF user_key_simps(2) j] by blast
  then have p: "user_change_policy mem_badger demo_prims s' 1 ''ada'' ''admin'' = Inr s''"
    using demo_auth.user_repD(1)[OF r, of 1] by (simp add: user_change_policy_def)
  have d: "user_disabled ?r = False" by simp
  have "user_verify mem_badger demo_prims s'' 2 ''ada'' ''pw'' = Inr (?r\<lparr>user_policy := ''admin''\<rparr>)"
    using user_changes[OF mem_laws demo_laws r demo_user_names(3) d, of 1 2] p demo_auth.hash_accepts_own[OF h] by auto
  with c p show ?thesis by (intro exI[of _ s'] exI[of _ "?r\<lparr>user_policy := ''admin''\<rparr>"] exI[of _ s'']) simp
qed

text \<open>
  Create refuses a username that has a record; Delete makes every login of the user fail and
  the name free again; and no operation on one user changes what is stored for another.
\<close>

theorem user_delete_frees:
  assumes "badger_laws B E" and "prims_laws P" and "user_rep B P E s name (Some r)" and "other \<noteq> name"
  shows "user_create B P s t rng name password policy = Inl (ErrUserExists name)
    \<and> (\<forall>s'. user_delete B s t name = Inr s' \<longrightarrow>
        user_rep B P E s' name None \<and> user_verify B P s' t' name password = Inl ErrCredentials)
    \<and> (\<forall>s'. user_create B P s t rng name password policy = Inr s' \<or> user_delete B s t name = Inr s'
          \<or> user_change_policy B P s t name policy = Inr s' \<or> user_change_password B P s t rng name password = Inr s'
        \<longrightarrow> user_get B P s' t' other = user_get B P s t' other)"
proof -
  note a = authI[OF assms(1,2)]
  have "db_get B s t (user_key name) \<noteq> Inl e" for e
    using auth_base.user_repD(1)[OF a assms(3), of t] by (auto simp: user_get_def read_rec_def)
  then have "user_create B P s t rng name password policy = Inl (ErrUserExists name)"
    by (auto simp: user_create_def split: sum.splits)
  moreover have "user_rep B P E s' name None \<and> user_verify B P s' t' name password = Inl ErrCredentials"
    if "user_delete B s t name = Inr s'" for s'
  proof -
    have "db_delete B s t (user_key name) = Inr s'" using that by (auto simp: user_delete_def split: sum.splits)
    then have "E s' (user_key name) = None" using kvdb.del_E[OF badger_laws.db_kvdb[OF assms(1)]] by simp
    then show ?thesis using auth_base.user_get_absent[OF a] by (simp add: user_rep_def user_verify_def)
  qed
  moreover have "user_get B P s' t' other = user_get B P s t' other"
    if w: "user_create B P s t rng name password policy = Inr s' \<or> user_delete B s t name = Inr s'
          \<or> user_change_policy B P s t name policy = Inr s' \<or> user_change_password B P s t rng name password = Inr s'" for s'
  proof -
    obtain x where E: "E s' = (E s)(user_key name := x)" using auth_base.user_writes[OF a w] by blast
    show ?thesis by (rule auth_base.user_get_frame[OF a E assms(4)])
  qed
  ultimately show ?thesis by blast
qed

theorem user_delete_frees_witness:
  "\<exists>s' s''. user_create mem_badger demo_prims [] 0 demo_rng ''ada'' ''pw'' ''readonly'' = Inr s'
     \<and> user_delete mem_badger s' 1 ''ada'' = Inr s''
     \<and> user_verify mem_badger demo_prims s'' 2 ''ada'' ''pw'' = Inl ErrCredentials"
proof -
  obtain s' where c: "user_create mem_badger demo_prims [] 0 demo_rng ''ada'' ''pw'' ''readonly'' = Inr s'"
    using demo_user_create by blast
  then obtain r where r: "user_rep mem_badger demo_prims map_of s' ''ada'' (Some r)"
    using demo_auth.user_create_rep[OF c demo_user_names(1,2)] by blast
  have "db_get mem_badger s' 1 (user_key ''ada'') \<noteq> Inl e" for e
    using demo_auth.user_repD(1)[OF r, of 1] by (auto simp: user_get_def read_rec_def)
  then obtain v where "db_get mem_badger s' 1 (user_key ''ada'') = Inr v" by (metis sum.exhaust)
  then obtain s'' where d: "user_delete mem_badger s' 1 ''ada'' = Inr s''"
    by (simp add: user_delete_def db_delete_def lift_bdg_def mem_badger_def)
  have "user_verify mem_badger demo_prims s'' 2 ''ada'' ''pw'' = Inl ErrCredentials"
    using user_delete_frees[OF mem_laws demo_laws r, of "''bob''" 1] d by simp
  with c d show ?thesis by blast
qed

end
