(* ===== verification/Auth_Ed25519.thy ===== *)
theory Auth_Ed25519
  imports Auth_Records
begin

text \<open>
  internal/auth/ed25519.go: services prove possession of a key by signing a challenge. Pending
  challenges live in memory, keyed by the hex of the challenge; services live in the database.
  GenerateChallenge starts a goroutine that prunes; here pruning is a step of its own that may
  come at any time.
\<close>

definition challengeLen :: nat where
  "challengeLen = 32"

definition challengeTTL :: duration where
  "challengeTTL = 60 * second"

record service_record =
  svc_name :: string
  svc_public_key :: bytes
  svc_policy :: string

record pending_challenge =
  pc_challenge :: bytes
  pc_service :: string
  pc_expires :: time

type_synonym challenges = "string \<Rightarrow> pending_challenge option"

definition enc_service :: "service_record \<Rightarrow> json option" where
  "enc_service r = Some (JObj [(''name'', JStr (svc_name r)), (''public_key'', enc_bytes (svc_public_key r)),
     (''policy'', JStr (svc_policy r))])"

definition dec_service :: "json \<Rightarrow> service_record option" where
  "dec_service j = (case members j of None \<Rightarrow> None | Some ms \<Rightarrow>
     (case (obj_get ''name'' dec_str [] ms, obj_get ''public_key'' dec_bytes [] ms, obj_get ''policy'' dec_str [] ms) of
        (Some name, Some key, Some policy) \<Rightarrow>
          Some \<lparr>svc_name = name, svc_public_key = key, svc_policy = policy\<rparr>
      | _ \<Rightarrow> None))"

definition service_key :: "string \<Rightarrow> string" where
  "service_key name = ''auth/services/'' @ name"

definition get_service :: "'s badger \<Rightarrow> 's \<Rightarrow> time \<Rightarrow> string \<Rightarrow> err + service_record" where
  "get_service B s t name = (case read_rec B dec_service s t (service_key name) of
     Inl e \<Rightarrow> Inl (if is_not_found e then ErrServiceNotFound name else e) | Inr r \<Rightarrow> Inr r)"

definition register_service :: "'s badger \<Rightarrow> 's \<Rightarrow> time \<Rightarrow> service_record \<Rightarrow> err + 's" where
  "register_service B s t r = put_rec B enc_service s t (service_key (svc_name r)) r"

definition delete_service :: "'s badger \<Rightarrow> 's \<Rightarrow> time \<Rightarrow> string \<Rightarrow> err + 's" where
  "delete_service B s t name = db_delete B s t (service_key name)"

definition generate_challenge ::
  "'s badger \<Rightarrow> 's \<Rightarrow> time \<Rightarrow> rng \<Rightarrow> challenges \<Rightarrow> string \<Rightarrow> err + challenges \<times> bytes" where
  "generate_challenge B s t rng ch name = (case get_service B s t name of
     Inl _ \<Rightarrow> Inl (ErrUnknownService name)
   | Inr _ \<Rightarrow> (case rand_read rng 0 challengeLen of
        Inl e \<Rightarrow> Inl e
      | Inr c \<Rightarrow> Inr (ch(hex_encode c \<mapsto>
          \<lparr>pc_challenge = c, pc_service = name, pc_expires = t + challengeTTL\<rparr>), c)))"

text \<open>crypto/ed25519 panics on a public key that does not have 32 bytes.\<close>

definition service_verify ::
  "'s badger \<Rightarrow> prims \<Rightarrow> 's \<Rightarrow> time \<Rightarrow> challenges \<Rightarrow> bytes \<Rightarrow> bytes \<Rightarrow> challenges \<times> (err + service_record) outcome" where
  "service_verify B P s t ch challenge signature =
     (let key = hex_encode challenge in
      case ch key of
        None \<Rightarrow> (ch, Done (Inl ErrChallengeUnknown))
      | Some pc \<Rightarrow>
         (ch(key := None),
          if pc_expires pc < t then Done (Inl ErrChallengeExpired)
          else if pc_challenge pc \<noteq> challenge then Done (Inl ErrChallengeMismatch)
          else (case get_service B s t (pc_service pc) of
            Inl e \<Rightarrow> Done (Inl e)
          | Inr svc \<Rightarrow>
              if length (svc_public_key svc) \<noteq> 32 then Panic ''ed25519: bad public key length''
              else if \<not> ed25519_verify P (svc_public_key svc) challenge signature then Done (Inl ErrSignature)
              else Done (Inr svc))))"

definition prune_expired :: "time \<Rightarrow> challenges \<Rightarrow> challenges" where
  "prune_expired t ch = (\<lambda>k. case ch k of
     None \<Rightarrow> None | Some pc \<Rightarrow> if pc_expires pc < t then None else Some pc)"

section \<open>Lemmas\<close>

definition service_ok :: "service_record \<Rightarrow> bool" where
  "service_ok r \<longleftrightarrow> utf8_ok (svc_name r) \<and> utf8_ok (svc_policy r)"

interpretation service: codec enc_service dec_service service_ok
proof
  fix r assume "service_ok r"
  then show "\<exists>j. enc_service r = Some j \<and> json_ok j \<and> dec_service j = Some r"
    by (auto simp: service_ok_def enc_service_def dec_service_def json_ok_def max_depth_def)
qed

sublocale badger_laws \<subseteq> sr: doc_store "read_rec B dec_service" "\<lambda>s t r i. put_rec B enc_service s t" service_ok E
  by (rule rec_store_codec) (rule service.codec_axioms)

lemma service_key_simps [simp]: "service_key a = service_key b \<longleftrightarrow> a = b" "service_key a \<noteq> []"
  by (simp_all add: service_key_def)

context badger_laws
begin

lemma get_registered:
  "register_service B s t r = Inr s' \<Longrightarrow> service_ok r \<Longrightarrow> get_service B s' t' (svc_name r) = Inr r"
  using sr.load_save[of "service_key (svc_name r)" r s t s' t'] by (simp add: register_service_def get_service_def)

lemma get_deleted:
  assumes "delete_service B s t name = Inr s'"
  shows "get_service B s' t' name = Inl (ErrServiceNotFound name)"
proof -
  have "E s' = (E s)(service_key name := None)" using db.del_E assms by (simp add: delete_service_def)
  then have "read_rec B dec_service s' t' (service_key name) = Inl ErrNotFound"
    by (intro sr.load_deleted) simp_all
  then show ?thesis by (simp add: get_service_def)
qed

end

lemma verify_Inr:
  assumes "service_verify B P s t ch c sig = (ch', Done (Inr svc))"
  obtains pc where "ch (hex_encode c) = Some pc" "pc_challenge pc = c" "t \<le> pc_expires pc"
    "get_service B s t (pc_service pc) = Inr svc" "length (svc_public_key svc) = 32"
    "ed25519_verify P (svc_public_key svc) c sig" "ch' = ch(hex_encode c := None)"
  using assms by (auto simp: service_verify_def Let_def not_less split: option.splits if_splits sum.splits)

lemma verify_consumes: "service_verify B P s t ch c sig = (ch', r) \<Longrightarrow> ch' = ch(hex_encode c := None)"
  by (auto simp: service_verify_def Let_def split: option.splits)

section \<open>Runs\<close>

text \<open>
  The challenges an authenticator reaches from its start, with the log of what happened, latest
  event first. The database is in any state at each step.
\<close>

datatype ed_event = Challenged string bytes time | Presented bytes

inductive ed_run :: "'s badger \<Rightarrow> prims \<Rightarrow> challenges \<Rightarrow> ed_event list \<Rightarrow> bool" for B P where
  ed_start: "ed_run B P Map.empty []"
| ed_challenge: "ed_run B P ch log \<Longrightarrow> generate_challenge B s t rng ch name = Inr (ch', c) \<Longrightarrow>
    ed_run B P ch' (Challenged name c t # log)"
| ed_present: "ed_run B P ch log \<Longrightarrow> service_verify B P s t ch c sig = (ch', r) \<Longrightarrow>
    ed_run B P ch' (Presented c # log)"
| ed_prune: "ed_run B P ch log \<Longrightarrow> ed_run B P (prune_expired t ch) log"

text \<open>A challenge is open in a log when it was handed out and has not been presented since.\<close>

fun open_challenge :: "ed_event list \<Rightarrow> bytes \<Rightarrow> (string \<times> time) option" where
  "open_challenge [] c = None"
| "open_challenge (Challenged name d t # log) c = (if d = c then Some (name, t) else open_challenge log c)"
| "open_challenge (Presented d # log) c = (if d = c then None else open_challenge log c)"

definition ed_inv :: "challenges \<Rightarrow> ed_event list \<Rightarrow> bool" where
  "ed_inv ch log \<longleftrightarrow> (\<forall>k pc. ch k = Some pc \<longrightarrow> k = hex_encode (pc_challenge pc)
     \<and> open_challenge log (pc_challenge pc) = Some (pc_service pc, pc_expires pc - challengeTTL))"

lemma ed_run_inv: "ed_run B P ch log \<Longrightarrow> ed_inv ch log"
proof (induction rule: ed_run.induct)
  case ed_start
  then show ?case by (simp add: ed_inv_def)
next
  case (ed_challenge ch log s t rng name ch' c)
  have "ch' = ch(hex_encode c \<mapsto> \<lparr>pc_challenge = c, pc_service = name, pc_expires = t + challengeTTL\<rparr>)"
    using ed_challenge(2) by (auto simp: generate_challenge_def split: sum.splits)
  with ed_challenge(3) show ?case by (auto simp: ed_inv_def)
next
  case (ed_present ch log s t c sig ch' r)
  then show ?case using verify_consumes[OF ed_present(2)] by (auto simp: ed_inv_def)
next
  case (ed_prune ch log t)
  then show ?case by (auto simp: ed_inv_def prune_expired_def split: option.splits if_splits)
qed

section \<open>Properties\<close>

text \<open>
  C22: In every run, a challenge is accepted only if GenerateChallenge handed it out for a service
  at most 60 seconds ago, nobody has presented it since, the service is still registered, and the
  signature verifies under the key registered now.
\<close>

theorem challenge_authentic:
  assumes "ed_run B P ch log" and "service_verify B P s t ch c sig = (ch', Done (Inr svc))"
  shows "\<exists>name issued. open_challenge log c = Some (name, issued) \<and> t \<le> issued + challengeTTL
    \<and> get_service B s t name = Inr svc \<and> length (svc_public_key svc) = 32
    \<and> ed25519_verify P (svc_public_key svc) c sig"
  using assms(2)
proof (rule verify_Inr)
  fix pc assume pc: "ch (hex_encode c) = Some pc" "pc_challenge pc = c" "t \<le> pc_expires pc"
    "get_service B s t (pc_service pc) = Inr svc" "length (svc_public_key svc) = 32"
    "ed25519_verify P (svc_public_key svc) c sig"
  then have "open_challenge log c = Some (pc_service pc, pc_expires pc - challengeTTL)"
    using ed_run_inv[OF assms(1)] by (auto simp: ed_inv_def)
  with pc show ?thesis by (intro exI[of _ "pc_service pc"] exI[of _ "pc_expires pc - challengeTTL"]) simp
qed

definition demo_service :: service_record where
  "demo_service = \<lparr>svc_name = ''ci'', svc_public_key = fill 32 ''pk'', svc_policy = ''readonly''\<rparr>"

lemma demo_service_ok: "service_ok demo_service"
  by (simp add: service_ok_def demo_service_def utf8_ok_all_ascii is_ascii_def)

lemma demo_registered:
  "\<exists>s. register_service mem_badger [] 0 demo_service = Inr s \<and> get_service mem_badger s t ''ci'' = Inr demo_service"
proof -
  obtain j where j: "enc_service demo_service = Some j" by (simp add: enc_service_def)
  obtain s where "put_rec mem_badger enc_service [] 0 (service_key ''ci'') demo_service = Inr s"
    using demo_put[of _ enc_service demo_service, OF service_key_simps(2) j] by blast
  then have r: "register_service mem_badger [] 0 demo_service = Inr s" by (simp add: register_service_def demo_service_def)
  with mem.get_registered[OF r demo_service_ok, of t] show ?thesis by (simp add: demo_service_def)
qed

lemma demo_signature: "ed25519_verify demo_prims (svc_public_key demo_service) c (fill 64 (fill 32 ''pk'' @ c))"
  by (simp add: demo_prims_def demo_service_def)

lemma demo_challenge:
  assumes "get_service mem_badger s t ''ci'' = Inr demo_service"
  shows "generate_challenge mem_badger s t demo_rng Map.empty ''ci'' = Inr ([hex_encode (fill 32 ''A'') \<mapsto>
     \<lparr>pc_challenge = fill 32 ''A'', pc_service = ''ci'', pc_expires = t + challengeTTL\<rparr>], fill 32 ''A'')"
  using assms by (simp add: generate_challenge_def challengeLen_def demo_draw)

lemma demo_accepted:
  assumes "get_service mem_badger s t ''ci'' = Inr demo_service"
  shows "service_verify mem_badger demo_prims s t [hex_encode (fill 32 ''A'') \<mapsto>
     \<lparr>pc_challenge = fill 32 ''A'', pc_service = ''ci'', pc_expires = t + challengeTTL\<rparr>] (fill 32 ''A'')
     (fill 64 (fill 32 ''pk'' @ fill 32 ''A'')) = (Map.empty, Done (Inr demo_service))"
  using assms demo_signature[of "fill 32 ''A''"]
  by (simp add: service_verify_def Let_def challengeTTL_def second_def) (simp add: demo_service_def)

theorem challenge_authentic_witness:
  "\<exists>s ch c sig ch'. ed_run mem_badger demo_prims ch [Challenged ''ci'' c 0]
     \<and> service_verify mem_badger demo_prims s 0 ch c sig = (ch', Done (Inr demo_service))
     \<and> open_challenge [Challenged ''ci'' c 0] c = Some (''ci'', 0)"
proof -
  obtain s where g: "get_service mem_badger s 0 ''ci'' = Inr demo_service" using demo_registered by blast
  note r = ed_challenge[OF ed_start[of mem_badger demo_prims] demo_challenge[OF g]]
  show ?thesis using challenge_authentic[OF r demo_accepted[OF g]] r demo_accepted[OF g] by fastforce
qed

text \<open>
  A challenge works once: whatever the first presentation of it comes to, a second one finds no
  challenge, unless the same challenge was handed out again in between.
\<close>

theorem challenge_once:
  assumes "service_verify B P s t ch c sig = (ch', r)" and "c \<noteq> c'"
  shows "service_verify B P s2 t2 ch' c sig2 = (ch', Done (Inl ErrChallengeUnknown))
    \<and> service_verify B P s2 t2 (ch'(hex_encode c' \<mapsto> pc)) c sig2
        = (ch'(hex_encode c' \<mapsto> pc), Done (Inl ErrChallengeUnknown))
    \<and> service_verify B P s2 t2 (prune_expired t' ch') c sig2 = (prune_expired t' ch', Done (Inl ErrChallengeUnknown))"
  using verify_consumes[OF assms(1)] assms(2) by (simp add: service_verify_def Let_def hex_encode_inject prune_expired_def)

theorem challenge_once_witness:
  "\<exists>s ch c sig ch'. service_verify mem_badger demo_prims s 0 ch c sig = (ch', Done (Inr demo_service))
     \<and> service_verify mem_badger demo_prims s 0 ch' c sig = (ch', Done (Inl ErrChallengeUnknown))"
proof -
  obtain s where g: "get_service mem_badger s 0 ''ci'' = Inr demo_service" using demo_registered by blast
  have "fill 32 ''A'' \<noteq> ''B''" by (simp add: fill_def)
  with challenge_once[OF demo_accepted[OF g]] demo_accepted[OF g] show ?thesis by blast
qed

text \<open>
  A registered service that signs its challenge with its key in time is let in: the whole
  exchange of RegisterService, GenerateChallenge and Verify succeeds.
\<close>

theorem challenge_accepted:
  assumes "badger_laws B E" and "register_service B s t r = Inr s'" and "service_ok r"
    and "length (svc_public_key r) = 32" and "rng 0 \<noteq> None" and "t2 \<le> t1 + challengeTTL"
    and "\<And>c. ed25519_verify P (svc_public_key r) c (sign c)"
  shows "\<exists>ch' c. generate_challenge B s' t1 rng ch (svc_name r) = Inr (ch', c)
    \<and> snd (service_verify B P s' t2 ch' c (sign c)) = Done (Inr r)"
proof -
  note g = badger_laws.get_registered[OF assms(1,2,3)]
  obtain c where "rand_read rng 0 challengeLen = Inr c" using assms(5) by (auto simp: rand_read_def)
  then show ?thesis using g[of t1] g[of t2] assms(4,6,7)
    by (simp add: generate_challenge_def service_verify_def Let_def)
qed

theorem challenge_accepted_witness:
  "\<exists>s ch' c. register_service mem_badger [] 0 demo_service = Inr s
     \<and> generate_challenge mem_badger s 1 demo_rng Map.empty ''ci'' = Inr (ch', c)
     \<and> snd (service_verify mem_badger demo_prims s 2 ch' c (fill 64 (fill 32 ''pk'' @ c))) = Done (Inr demo_service)"
proof -
  obtain s where r: "register_service mem_badger [] 0 demo_service = Inr s" using demo_registered by blast
  have k: "length (svc_public_key demo_service) = 32" by (simp add: demo_service_def)
  have d: "demo_rng 0 \<noteq> None" by (simp add: demo_rng_def)
  have t: "2 \<le> (1::int) + challengeTTL" by (simp add: challengeTTL_def second_def)
  have n: "svc_name demo_service = ''ci''" by (simp add: demo_service_def)
  show ?thesis using challenge_accepted[where sign = "\<lambda>c. fill 64 (fill 32 ''pk'' @ c)" and ch = Map.empty and rng = demo_rng,
      OF mem_laws r demo_service_ok k d t demo_signature] r
    unfolding n by blast
qed

text \<open>
  DeleteService revokes at once: no new challenge is handed out for the service, and presenting
  one that is still pending is an error.
\<close>

theorem delete_service_revokes:
  assumes "badger_laws B E" and "delete_service B s t name = Inr s'"
  shows "generate_challenge B s' t' rng ch name = Inl (ErrUnknownService name)
    \<and> (\<forall>pc. ch (hex_encode c) = Some pc \<longrightarrow> pc_service pc = name \<longrightarrow>
        (\<exists>e. snd (service_verify B P s' t' ch c sig) = Done (Inl e)))"
  using badger_laws.get_deleted[OF assms]
  by (auto simp: generate_challenge_def service_verify_def Let_def)

theorem delete_service_revokes_witness:
  "\<exists>s s'. register_service mem_badger [] 0 demo_service = Inr s \<and> delete_service mem_badger s 1 ''ci'' = Inr s'
     \<and> generate_challenge mem_badger s' 2 demo_rng Map.empty ''ci'' = Inl (ErrUnknownService ''ci'')"
proof -
  obtain s where r: "register_service mem_badger [] 0 demo_service = Inr s" using demo_registered by blast
  obtain s' where d: "delete_service mem_badger s 1 ''ci'' = Inr s'"
    by (simp add: delete_service_def db_delete_def lift_bdg_def mem_badger_def)
  show ?thesis using delete_service_revokes[OF mem_laws d, of 2 demo_rng Map.empty] r d by blast
qed

end
