(* ===== verification/Auth_Totp.thy ===== *)
theory Auth_Totp
  imports Auth_Ed25519 "HOL-Library.Signed_Division"
begin

unbundle bit_operations_syntax

text \<open>
  internal/auth/totp.go: time-based one-time codes. The HMAC-SHA1 of a counter is truncated to six
  digits as in RFC 4226; a code is accepted for the current 30-second window and its
  neighbours. Integers keep their widths: the counter has 64 bits, the code 32.
\<close>

record totp_record =
  totp_name :: string
  totp_secret :: bytes
  totp_policy :: string

definition enc_totp :: "totp_record \<Rightarrow> json option" where
  "enc_totp r = Some (JObj [(''name'', JStr (totp_name r)), (''secret'', enc_bytes (totp_secret r)),
     (''policy'', JStr (totp_policy r))])"

definition dec_totp :: "json \<Rightarrow> totp_record option" where
  "dec_totp j = (case members j of None \<Rightarrow> None | Some ms \<Rightarrow>
     (case (obj_get ''name'' dec_str [] ms, obj_get ''secret'' dec_bytes [] ms, obj_get ''policy'' dec_str [] ms) of
        (Some name, Some secret, Some policy) \<Rightarrow>
          Some \<lparr>totp_name = name, totp_secret = secret, totp_policy = policy\<rparr>
      | _ \<Rightarrow> None))"

definition totp_key :: "string \<Rightarrow> string" where
  "totp_key name = ''auth/services/totp/'' @ name"

section \<open>Codes\<close>

text \<open>binary.BigEndian.PutUint64: the eight bytes of a counter, highest first.\<close>

definition be64 :: "64 word \<Rightarrow> bytes" where
  "be64 w = map (\<lambda>i. char_of (unat (drop_bit (8 * (7 - i)) w AND 0xFF))) [0..<8]"

definition byte32 :: "char \<Rightarrow> 32 word" where
  "byte32 c = of_nat (of_char c)"

definition hotp :: "prims \<Rightarrow> bytes \<Rightarrow> 64 word \<Rightarrow> 32 word" where
  "hotp P secret counter =
     (let h = hmac_sha1 P secret (be64 counter);
          offset = unat ((of_nat (of_char (h ! (length h - 1))) :: byte) AND 0x0F);
          code = push_bit 24 (byte32 (h ! offset) AND 0x7F)
              OR push_bit 16 (byte32 (h ! (offset + 1)))
              OR push_bit 8 (byte32 (h ! (offset + 2)))
              OR byte32 (h ! (offset + 3))
      in code mod 1000000)"

text \<open>time.Now().Unix() rounds down to seconds; Go's division truncates; uint64 wraps.\<close>

definition totp_counter :: "time \<Rightarrow> int \<Rightarrow> 64 word" where
  "totp_counter t delta = of_int ((t div second) sdiv 30 + delta)"

text \<open>base32.StdEncoding: five bytes make eight letters, a last group is padded.\<close>

definition b32_std :: string where
  "b32_std = ''ABCDEFGHIJKLMNOPQRSTUVWXYZ234567''"

definition b32_group :: "bytes \<Rightarrow> string" where
  "b32_group bs =
     (let n = foldl (\<lambda>a c. 256 * a + of_char c) (0 :: nat) (bs @ replicate (5 - length bs) (CHR 0x00));
          letters = map (\<lambda>i. b32_std ! (n div 32 ^ (7 - i) mod 32)) [0..<8];
          k = (8 * length bs + 4) div 5
      in take k letters @ replicate (8 - k) (CHR ''=''))"

function b32_encode :: "bytes \<Rightarrow> string" where
  "b32_encode bs = (if bs = [] then [] else b32_group (take 5 bs) @ b32_encode (drop 5 bs))"
  by pat_completeness auto
termination
  by (relation "measure length") auto

declare b32_encode.simps [simp del]

text \<open>GenerateSecret: the raw secret and its text for display.\<close>

definition generate_secret :: "rng \<Rightarrow> nat \<Rightarrow> err + bytes \<times> string" where
  "generate_secret rng i = (case rand_read rng i 20 of
     Inl e \<Rightarrow> Inl (Wrapped ''generate totp secret'' e) | Inr raw \<Rightarrow> Inr (raw, b32_encode raw))"

section \<open>Operations\<close>

definition register_totp :: "'s badger \<Rightarrow> 's \<Rightarrow> time \<Rightarrow> totp_record \<Rightarrow> err + 's" where
  "register_totp B s t r = put_rec B enc_totp s t (totp_key (totp_name r)) r"

text \<open>The loop over the windows -1, 0 and 1.\<close>

fun totp_windows :: "prims \<Rightarrow> bytes \<Rightarrow> time \<Rightarrow> 32 word \<Rightarrow> int list \<Rightarrow> bool" where
  "totp_windows P secret t code [] = False"
| "totp_windows P secret t code (delta # ds) =
     (if hotp P secret (totp_counter t delta) = code then True else totp_windows P secret t code ds)"

definition totp_verify :: "'s badger \<Rightarrow> prims \<Rightarrow> 's \<Rightarrow> time \<Rightarrow> string \<Rightarrow> 32 word \<Rightarrow> err + totp_record" where
  "totp_verify B P s t name code = (case read_rec B dec_totp s t (totp_key name) of
     Inl e \<Rightarrow> Inl (if is_not_found e then ErrServiceNotFound name else e)
   | Inr r \<Rightarrow> if totp_windows P (totp_secret r) t code [-1, 0, 1] then Inr r else Inl ErrTotpCode)"

definition get_totp :: "'s badger \<Rightarrow> 's \<Rightarrow> time \<Rightarrow> string \<Rightarrow> err + totp_record" where
  "get_totp B s t name = (case read_rec B dec_totp s t (totp_key name) of
     Inl e \<Rightarrow> Inl (if is_not_found e then ErrTotpNotFound name else e) | Inr r \<Rightarrow> Inr r)"

section \<open>Lemmas\<close>

definition totp_ok :: "totp_record \<Rightarrow> bool" where
  "totp_ok r \<longleftrightarrow> utf8_ok (totp_name r) \<and> utf8_ok (totp_policy r)"

interpretation totp: codec enc_totp dec_totp totp_ok
proof
  fix r assume "totp_ok r"
  then show "\<exists>j. enc_totp r = Some j \<and> json_ok j \<and> dec_totp j = Some r"
    by (auto simp: totp_ok_def enc_totp_def dec_totp_def json_ok_def max_depth_def)
qed

sublocale badger_laws \<subseteq> tr: doc_store "read_rec B dec_totp" "\<lambda>s t r i. put_rec B enc_totp s t" totp_ok E
  by (rule rec_store_codec) (rule totp.codec_axioms)

lemma totp_key_simps [simp]: "totp_key a = totp_key b \<longleftrightarrow> a = b" "totp_key a \<noteq> []"
  by (simp_all add: totp_key_def)

lemma totp_is_service_key: "totp_key name = service_key (''totp/'' @ name)"
  by (simp add: totp_key_def service_key_def)

lemma unat_byte32: "unat (byte32 c) = of_char c"
proof -
  have "(of_char c :: nat) < 4294967296" using of_char_less[of c] by linarith
  then show ?thesis by (simp add: byte32_def unat_of_nat)
qed

lemma unat_take: "unat (take_bit n (w :: 'a :: len word)) = unat w mod 2 ^ n"
  by (subst unsigned_take_bit_eq) (rule take_bit_eq_mod)

lemma byte32_low: "take_bit 8 (byte32 c) = byte32 c"
proof -
  have "unat (take_bit 8 (byte32 c)) = unat (byte32 c)"
    unfolding unat_take unat_byte32 by simp
  then show ?thesis by (simp only: word_unat_eq_iff)
qed

lemma bit_byte32: "bit (byte32 c) n \<Longrightarrow> n < 8"
  by (metis byte32_low bit_take_bit_iff)

lemma low_bits: "(w :: 32 word) AND 0x7F = take_bit 7 w" "(b :: byte) AND 0x0F = take_bit 4 b"
  by (simp_all add: take_bit_eq_mask mask_eq_exp_minus_1)

lemma unat_push: "unat w * 2 ^ k < 2 ^ 32 \<Longrightarrow> unat (push_bit k (w :: 32 word)) = unat w * 2 ^ k"
  by (subst unsigned_push_bit_eq) (simp add: push_bit_eq_mult take_bit_nat_eq_self)

lemma unat_or_disjoint:
  assumes "\<And>n. \<not> bit a n \<or> \<not> bit b n" "unat a + unat b < 2 ^ 32"
  shows "unat (a OR b) = unat a + unat (b :: 32 word)"
proof -
  have "a OR b = a + b" using disjunctive_add[OF assms(1)] by simp
  moreover have "unat (a + b) = unat a + unat b"
    using assms(2) unat_add_lem[of a b] by simp
  ultimately show ?thesis by simp
qed

lemma four_bytes:
  fixes w :: "32 word"
  assumes w: "unat w < 128"
  shows "unat (push_bit 24 w OR push_bit 16 (byte32 x) OR push_bit 8 (byte32 y) OR byte32 z)
    = unat w * 2 ^ 24 + of_char x * 2 ^ 16 + of_char y * 2 ^ 8 + of_char z"
proof -
  have x: "unat (push_bit 16 (byte32 x)) = of_char x * 2 ^ 16" and y: "unat (push_bit 8 (byte32 y)) = of_char y * 2 ^ 8"
    and w': "unat (push_bit 24 w) = unat w * 2 ^ 24"
    using of_char_bound[of x] of_char_bound[of y] w by (subst unat_push; simp add: unat_byte32)+
  have yz: "unat (push_bit 8 (byte32 y) OR byte32 z) = of_char y * 2 ^ 8 + of_char z"
    by (subst unat_or_disjoint)
      (use bit_byte32 of_char_bound[of y] of_char_bound[of z] in \<open>auto simp: bit_push_bit_iff y unat_byte32 dest!: bit_byte32\<close>)
  have xyz: "unat (push_bit 16 (byte32 x) OR (push_bit 8 (byte32 y) OR byte32 z))
      = of_char x * 2 ^ 16 + (of_char y * 2 ^ 8 + of_char z)"
    by (subst unat_or_disjoint)
      (use of_char_bound[of x] of_char_bound[of y] of_char_bound[of z] in
        \<open>auto simp: bit_push_bit_iff bit_or_iff x yz dest!: bit_byte32\<close>)
  have "unat (push_bit 24 w OR (push_bit 16 (byte32 x) OR (push_bit 8 (byte32 y) OR byte32 z)))
      = unat w * 2 ^ 24 + (of_char x * 2 ^ 16 + (of_char y * 2 ^ 8 + of_char z))"
    by (subst unat_or_disjoint)
      (use w of_char_bound[of x] of_char_bound[of y] of_char_bound[of z] in
        \<open>auto simp: bit_push_bit_iff bit_or_iff xyz w' dest!: bit_byte32\<close>)
  then show ?thesis by (simp add: or.assoc)
qed

text \<open>RFC 4226's dynamic truncation on numbers.\<close>

definition truncate_rfc :: "bytes \<Rightarrow> nat" where
  "truncate_rfc h = (let offset = of_char (last h) mod 16 in
     (of_char (h ! offset) mod 128) * 2 ^ 24 + of_char (h ! (offset + 1)) * 2 ^ 16
       + of_char (h ! (offset + 2)) * 2 ^ 8 + of_char (h ! (offset + 3)))"

lemma hotp_rfc:
  assumes "hmac_sha1 P secret (be64 counter) \<noteq> []"
  shows "unat (hotp P secret counter) = truncate_rfc (hmac_sha1 P secret (be64 counter)) mod 10 ^ 6"
proof -
  let ?h = "hmac_sha1 P secret (be64 counter)"
  have l: "?h ! (length ?h - 1) = last ?h" using assms by (simp add: last_conv_nth)
  have o: "unat ((of_nat (of_char (last ?h)) :: byte) AND 0x0F) = of_char (last ?h) mod 16"
    unfolding low_bits unat_take by (simp add: unat_of_nat)
  have t: "unat (byte32 c AND 0x7F) = of_char c mod 128" for c
    unfolding low_bits unat_take unat_byte32 by simp
  have less: "unat (byte32 c AND 0x7F) < 128" for c unfolding t by simp
  show ?thesis
    unfolding hotp_def Let_def l o truncate_rfc_def unat_mod four_bytes[OF less] t by simp
qed

lemma hotp_bound: "unat (hotp P secret counter) < 1000000"
  by (simp add: hotp_def Let_def unat_mod)

lemma totp_windows_iff: "totp_windows P secret t code ds \<longleftrightarrow> (\<exists>d\<in>set ds. hotp P secret (totp_counter t d) = code)"
  by (induction ds) auto

context badger_laws
begin

lemma put_totp:
  assumes "register_totp B s t r = Inr s'" "totp_ok r"
  shows "db_get B s' t' (totp_key (totp_name r)) = Inr (json_print (JObj [(''name'', JStr (totp_name r)),
     (''secret'', enc_bytes (totp_secret r)), (''policy'', JStr (totp_policy r))]))"
  using assms(1) db.get_after_set[of "totp_key (totp_name r)" s t _ s' t']
  by (auto simp: register_totp_def put_rec_E json_marshal_def enc_totp_def)

lemma read_totp:
  assumes "register_totp B s t r = Inr s'" "totp_ok r"
  shows "read_rec B dec_totp s' t' (totp_key (totp_name r)) = Inr r"
  using tr.load_save[of "totp_key (totp_name r)" r s t s' t'] assms by (simp add: register_totp_def)

text \<open>The record of a TOTP service as the Ed25519 authenticator reads it: no public key.\<close>

lemma read_totp_as_service:
  assumes "register_totp B s t r = Inr s'" "totp_ok r"
  shows "read_rec B dec_service s' t' (totp_key (totp_name r)) =
    Inr \<lparr>svc_name = totp_name r, svc_public_key = [], svc_policy = totp_policy r\<rparr>"
proof -
  let ?j = "JObj [(''name'', JStr (totp_name r)), (''secret'', enc_bytes (totp_secret r)), (''policy'', JStr (totp_policy r))]"
  have "json_ok ?j" using assms(2) by (simp add: totp_ok_def json_ok_def max_depth_def)
  then have "json_parse (json_print ?j) = Some ?j" by (rule json_parse_print)
  then show ?thesis
    using put_totp[OF assms, of t'] by (simp add: read_rec_def json_unmarshal_def dec_service_def del: json_print.simps)
qed

end

section \<open>Properties\<close>

text \<open>
  C35: The code is the one of RFC 4226: with the HMAC-SHA1 of the counter's eight bytes, the low
  four bits of the last byte select four bytes, whose value without the top bit is reduced
  modulo a million. No code has more than six digits and no byte is read out of range.
\<close>

theorem hotp_is_rfc4226:
  assumes "prims_laws P"
  shows "unat (hotp P secret counter) = truncate_rfc (hmac_sha1 P secret (be64 counter)) mod 10 ^ 6
    \<and> unat (hotp P secret counter) < 10 ^ 6
    \<and> of_char (last (hmac_sha1 P secret (be64 counter))) mod 16 + 3 < length (hmac_sha1 P secret (be64 counter))"
proof -
  let ?h = "hmac_sha1 P secret (be64 counter)"
  have l: "length ?h = 20" by (rule prims_laws.hmac_length[OF assms])
  then have "?h \<noteq> []" by auto
  moreover have "of_char (last ?h) mod 16 + 3 < length ?h"
    unfolding l using mod_less_divisor[of 16 "of_char (last ?h)"] by linarith
  ultimately show ?thesis using hotp_rfc hotp_bound[of P secret counter] by simp
qed

theorem hotp_is_rfc4226_witness:
  "unat (hotp demo_prims ''secret'' 1) < 10 ^ 6"
  using hotp_is_rfc4226[OF demo_laws, of "''secret''" 1] by simp

text \<open>
  C36: On a registered service Verify accepts exactly the codes of the current 30-second window and
  of the windows before and after it, and any other code is one and the same error; the answer
  does not change within a window, so a code can be used again.
\<close>

theorem totp_verify_window:
  assumes "badger_laws B E" and "register_totp B s t r = Inr s'" and "totp_ok r"
    and "(t1 div second) sdiv 30 = (t2 div second) sdiv 30"
  shows "totp_verify B P s' t1 (totp_name r) code =
      (if code \<in> {hotp P (totp_secret r) (totp_counter t1 d) |d. d = -1 \<or> d = 0 \<or> d = 1}
       then Inr r else Inl ErrTotpCode)
    \<and> totp_verify B P s' t2 (totp_name r) code = totp_verify B P s' t1 (totp_name r) code"
proof -
  have g: "read_rec B dec_totp s' t' (totp_key (totp_name r)) = Inr r" for t'
    using badger_laws.read_totp[OF assms(1-3)] .
  have "totp_counter t1 = totp_counter t2" using assms(4) by (simp add: totp_counter_def fun_eq_iff)
  moreover have "totp_windows P (totp_secret r) t1 code [-1, 0, 1] \<longleftrightarrow>
      code \<in> {hotp P (totp_secret r) (totp_counter t1 d) |d. d = -1 \<or> d = 0 \<or> d = 1}"
    unfolding totp_windows_iff by auto
  moreover have "totp_windows P (totp_secret r) t2 code [-1, 0, 1] = totp_windows P (totp_secret r) t1 code [-1, 0, 1]"
    unfolding totp_windows_iff using \<open>totp_counter t1 = totp_counter t2\<close> by simp
  ultimately show ?thesis using g[of t1] g[of t2] by (simp add: totp_verify_def del: totp_windows.simps)
qed

definition demo_totp :: totp_record where
  "demo_totp = \<lparr>totp_name = ''ci'', totp_secret = ''secret'', totp_policy = ''readonly''\<rparr>"

lemma demo_totp_ok: "totp_ok demo_totp"
  by (simp add: totp_ok_def demo_totp_def utf8_ok_all_ascii is_ascii_def)

lemma demo_totp_registered: "\<exists>s. register_totp mem_badger [] 0 demo_totp = Inr s"
proof -
  obtain j where j: "enc_totp demo_totp = Some j" by (simp add: enc_totp_def)
  show ?thesis using demo_put[of _ enc_totp demo_totp, OF totp_key_simps(2) j] by (simp add: register_totp_def)
qed

theorem totp_verify_window_witness:
  "\<exists>s. register_totp mem_badger [] 0 demo_totp = Inr s
     \<and> totp_verify mem_badger demo_prims s (35 * second) ''ci'' (hotp demo_prims ''secret'' 0) = Inr demo_totp
     \<and> totp_verify mem_badger demo_prims s (45 * second) ''ci'' (hotp demo_prims ''secret'' 0) = Inr demo_totp"
proof -
  obtain s where r: "register_totp mem_badger [] 0 demo_totp = Inr s" using demo_totp_registered by blast
  have w: "((35 * second) div second) sdiv 30 = ((45 * second) div second) sdiv 30"
    by (simp add: second_def)
  have c: "hotp demo_prims ''secret'' 0 = hotp demo_prims (totp_secret demo_totp) (totp_counter (35 * second) (- 1))"
    by (simp add: demo_totp_def totp_counter_def second_def)
  show ?thesis
    using totp_verify_window[OF mem_laws r demo_totp_ok w, of demo_prims "hotp demo_prims ''secret'' 0"] r
    unfolding c by (auto simp: demo_totp_def)
qed

text \<open>
  Revoking a service does not revoke its TOTP registration: DeleteService of a name changes no
  answer of the TOTP verification for any name, unless the name itself spells the key of a TOTP
  record.
\<close>

theorem revoke_keeps_totp:
  assumes "badger_laws B E" and "delete_service B s t name = Inr s'" and "name \<noteq> ''totp/'' @ other"
  shows "totp_verify B P s' t' other code = totp_verify B P s t' other code"
proof -
  have E: "E s' = (E s)(service_key name := None)"
    using kvdb.del_E[OF badger_laws.db_kvdb[OF assms(1)]] assms(2) by (simp add: delete_service_def)
  have "read_rec B dec_totp s' t' (totp_key other) = read_rec B dec_totp s t' (totp_key other)"
    using assms(3) by (intro badger_laws.read_rec_frame[OF assms(1) _ _ E]) (auto simp: totp_is_service_key)
  then show ?thesis by (simp add: totp_verify_def)
qed

theorem revoke_keeps_totp_witness:
  "\<exists>s s'. register_totp mem_badger [] 0 demo_totp = Inr s \<and> delete_service mem_badger s (45 * second) ''ci'' = Inr s'
     \<and> totp_verify mem_badger demo_prims s' (45 * second) ''ci'' (hotp demo_prims ''secret'' 0) = Inr demo_totp"
proof -
  obtain s where r: "register_totp mem_badger [] 0 demo_totp = Inr s" using demo_totp_registered by blast
  obtain s' where d: "delete_service mem_badger s (45 * second) ''ci'' = Inr s'"
    by (simp add: delete_service_def db_delete_def lift_bdg_def mem_badger_def)
  have "read_rec mem_badger dec_totp s (45 * second) (totp_key ''ci'') = Inr demo_totp"
    using mem.read_totp[OF r demo_totp_ok] by (simp add: demo_totp_def)
  then have "totp_verify mem_badger demo_prims s (45 * second) ''ci'' (hotp demo_prims ''secret'' 0) = Inr demo_totp"
    by (simp add: totp_verify_def totp_windows_iff totp_counter_def second_def demo_totp_def)
  moreover have "''ci'' \<noteq> ''totp/'' @ ''ci''" by simp
  ultimately show ?thesis using revoke_keeps_totp[OF mem_laws d] r d by metis
qed

text \<open>
  A TOTP record lies where the Ed25519 record of the service totp/name would lie. For a
  registered TOTP service x a challenge is handed out to the service totp/x, and presenting it
  with any signature panics on the record's empty public key.
\<close>

theorem totp_collision_panics:
  assumes "badger_laws B E" and "register_totp B s t r = Inr s'" and "totp_ok r" and "rng 0 \<noteq> None"
    and "t2 \<le> t1 + challengeTTL"
  shows "\<exists>ch' c. generate_challenge B s' t1 rng ch (''totp/'' @ totp_name r) = Inr (ch', c)
    \<and> (\<exists>m. snd (service_verify B P s' t2 ch' c sig) = Panic m)"
proof -
  obtain c where c: "rand_read rng 0 challengeLen = Inr c" using assms(4) by (auto simp: rand_read_def)
  have g: "get_service B s' t' (''totp/'' @ totp_name r) =
      Inr \<lparr>svc_name = totp_name r, svc_public_key = [], svc_policy = totp_policy r\<rparr>" for t'
    using badger_laws.read_totp_as_service[OF assms(1-3), of t']
    unfolding get_service_def totp_is_service_key by simp
  show ?thesis using c g[of t1] g[of t2] assms(5)
    by (simp add: generate_challenge_def service_verify_def Let_def)
qed

theorem totp_collision_panics_witness:
  "\<exists>s ch' c m. register_totp mem_badger [] 0 demo_totp = Inr s
     \<and> generate_challenge mem_badger s 1 demo_rng Map.empty ''totp/ci'' = Inr (ch', c)
     \<and> snd (service_verify mem_badger demo_prims s 2 ch' c ''sig'') = Panic m"
proof -
  obtain s where r: "register_totp mem_badger [] 0 demo_totp = Inr s" using demo_totp_registered by blast
  have d: "demo_rng 0 \<noteq> None" by (simp add: demo_rng_def)
  have t: "2 \<le> (1::int) + challengeTTL" by (simp add: challengeTTL_def second_def)
  have n: "''totp/ci'' = ''totp/'' @ totp_name demo_totp" by (simp add: demo_totp_def)
  show ?thesis
    using totp_collision_panics[where rng = demo_rng and ch = Map.empty and sig = "''sig''" and P = demo_prims,
      OF mem_laws r demo_totp_ok d t] r unfolding n by blast
qed

end
