(* ===== verification/Go_Lines.thy ===== *)
theory Go_Lines
  imports Go_Json
begin

text \<open>
  The text of a JSON value holds no control character, so it is one line of a file whatever the
  strings in it are: quoting escapes every byte below the space.
\<close>

definition printable :: "char \<Rightarrow> bool" where
  "printable c \<longleftrightarrow> 32 \<le> (of_char c :: nat)"

lemma printable_marks [simp]:
  "printable backslash" "printable dquote" "printable (CHR ''u'')" "printable (CHR ''f'')" "printable (CHR ''d'')"
  "printable (CHR ''0'')" "printable (CHR ''2'')" "printable (CHR ''8'')" "printable (CHR ''9'')" "printable (CHR '','')"
  "printable (CHR '':'')" "printable (CHR ''['')" "printable (CHR '']'')" "printable (CHR ''{'')" "printable (CHR ''}'')"
  "printable (CHR ''b'')" "printable (CHR ''n'')" "printable (CHR ''r'')" "printable (CHR ''t'')"
  by (simp_all add: printable_def backslash_def dquote_def)

lemma printable_hex_byte: "list_all printable (hex_byte c)"
proof -
  have "list_all printable ''0123456789abcdef''" by (simp add: printable_def)
  then have d: "n < 16 \<Longrightarrow> printable (hex_digit n)" for n
    unfolding hex_digit_def list_all_length by simp
  have "of_char c div 16 < (16 :: nat)" using of_char_bound[of c] by (simp add: less_mult_imp_div_less)
  then show ?thesis using d by (simp add: hex_byte_def)
qed

lemma printable_esc: "list_all printable (esc_ascii c)"
proof (cases "html_unsafe c")
  case True
  then show ?thesis using printable_hex_byte[of c] by (simp add: esc_ascii_def)
next
  case False
  then have "printable c" unfolding html_unsafe_def printable_def by linarith
  with False show ?thesis by (simp add: esc_ascii_def)
qed

lemma printable_rune:
  assumes "decode_rune s = Some (r, n)" "\<not> r < 128"
  shows "list_all printable (take n s)"
  using assms
  by (auto simp: decode_rune_def Let_def byte_in_def second_ok_def second_range_def printable_def
      numeral_3_eq_3 split: list.splits if_splits)

lemma printable_quote: "list_all printable (quote s)"
proof -
  have "list_all printable (quote_body s)"
  proof (induction s rule: quote_body.induct)
    case (2 a s)
    then show ?case
      by (auto simp: quote_body.simps(2) printable_esc printable_rune simp del: take.simps split: option.splits)
  qed simp
  then show ?thesis by (simp add: quote_def)
qed

section \<open>Numbers\<close>

lemma num_char_printable: "num_char c \<Longrightarrow> printable c"
  by (auto simp: num_char_def is_digit_def printable_def)

lemma scan_digits_chars: "scan_digits s = Some (a, b) \<Longrightarrow> list_all num_char a"
  by (auto simp: scan_digits_def Let_def num_char_def list_all_iff dest: set_takeWhileD split: if_splits)

lemma scan_int_chars: "scan_int s = Some (a, b) \<Longrightarrow> list_all num_char a"
  by (auto simp: scan_int_def num_char_def is_digit_def dest: scan_digits_chars split: list.splits if_splits)

lemma scan_frac_chars: "scan_frac s = Some (a, b) \<Longrightarrow> list_all num_char a"
  by (auto simp: scan_frac_def num_char_def dest!: prepend_SomeD scan_digits_chars split: list.splits if_splits)

lemma scan_exp_chars: "scan_exp s = Some (a, b) \<Longrightarrow> list_all num_char a"
  by (auto simp: scan_exp_def num_char_def dest!: prepend_SomeD scan_digits_chars split: list.splits if_splits)

lemma scan_unsigned_chars: "scan_unsigned s = Some (a, b) \<Longrightarrow> list_all num_char a"
  by (auto simp: scan_unsigned_def dest!: prepend_SomeD scan_int_chars scan_frac_chars scan_exp_chars
      split: option.splits)

lemma num_ok_chars: "num_ok s \<Longrightarrow> list_all printable s"
proof -
  assume "num_ok s"
  then have "list_all num_char s"
    by (auto simp: num_ok_def scan_number_def num_char_def dest!: prepend_SomeD scan_unsigned_chars split: if_splits)
  then show ?thesis by (auto simp: list_all_iff num_char_printable)
qed

section \<open>Values\<close>

lemma printable_json:
  "json_nums_ok j \<Longrightarrow> list_all printable (json_print j)"
  "list_all json_nums_ok js \<Longrightarrow> list_all printable (print_elems js)"
  "list_all (\<lambda>(k, j). json_nums_ok j) ms \<Longrightarrow> list_all printable (print_members ms)"
proof (induction j and js and ms rule: json_print_print_elems_print_members.induct)
  case (10 k j ms)
  then show ?case by (auto simp: printable_quote)
qed (auto simp: printable_quote num_ok_chars printable_def)

end
