(* ===== verification/Audit_Log.thy ===== *)
theory Audit_Log
  imports Records Go_Lines
begin

text \<open>
  internal/audit/audit.go: the audit log. Every entry is stored in the database under its time and
  ULID and appended as one line to a file. A query scans all entries; Scan hands them over in a
  Go map, whose iteration order is not specified, so the order is a parameter of the query.
\<close>

section \<open>Entries\<close>

record audit_entry =
  ent_id :: string
  ent_time :: time
  ent_identity :: string
  ent_method :: string
  ent_operation :: string
  ent_path :: string
  ent_version :: int
  ent_ip :: string
  ent_request :: string
  ent_status :: string
  ent_policy :: string
  ent_error :: string
  ent_duration :: int

text \<open>Members with omitempty are left out when they are zero.\<close>

definition opt_str :: "string \<Rightarrow> string \<Rightarrow> (string \<times> json) list" where
  "opt_str name s = (if s = [] then [] else [(name, JStr s)])"

definition opt_int :: "string \<Rightarrow> int \<Rightarrow> (string \<times> json) list" where
  "opt_int name i = (if i = 0 then [] else [(name, enc_int i)])"

definition enc_audit :: "prims \<Rightarrow> audit_entry \<Rightarrow> json option" where
  "enc_audit P e = map_option (\<lambda>timestamp. JObj (
     [(''id'', JStr (ent_id e)), (''timestamp'', timestamp), (''identity'', JStr (ent_identity e)),
      (''auth_method'', JStr (ent_method e)), (''operation'', JStr (ent_operation e)),
      (''path'', JStr (ent_path e))] @ opt_int ''secret_version'' (ent_version e) @
     [(''source_ip'', JStr (ent_ip e)), (''request_id'', JStr (ent_request e)),
      (''status'', JStr (ent_status e))] @ opt_str ''policy'' (ent_policy e) @
     opt_str ''error_message'' (ent_error e) @ [(''duration_ms'', enc_int (ent_duration e))]))
     (enc_time P (ent_time e))"

definition dec_audit :: "prims \<Rightarrow> json \<Rightarrow> audit_entry option" where
  "dec_audit P j = (case members j of None \<Rightarrow> None | Some ms \<Rightarrow>
     (case (obj_get ''id'' dec_str [] ms, obj_get ''timestamp'' (dec_time P) zero_time ms,
            obj_get ''identity'' dec_str [] ms, obj_get ''auth_method'' dec_str [] ms,
            obj_get ''operation'' dec_str [] ms, obj_get ''path'' dec_str [] ms,
            obj_get ''secret_version'' dec_int 0 ms, obj_get ''source_ip'' dec_str [] ms,
            obj_get ''request_id'' dec_str [] ms, obj_get ''status'' dec_str [] ms,
            obj_get ''policy'' dec_str [] ms, obj_get ''error_message'' dec_str [] ms,
            obj_get ''duration_ms'' dec_int 0 ms) of
        (Some i, Some t, Some identity, Some meth, Some operation, Some path, Some version, Some ip,
         Some request, Some status, Some pol, Some msg, Some duration) \<Rightarrow>
          Some \<lparr>ent_id = i, ent_time = t, ent_identity = identity, ent_method = meth,
            ent_operation = operation, ent_path = path, ent_version = version, ent_ip = ip,
            ent_request = request, ent_status = status, ent_policy = pol, ent_error = msg,
            ent_duration = duration\<rparr>
      | _ \<Rightarrow> None))"

section \<open>Operations\<close>

definition newline :: char where
  "newline = CHR 0x0A"

definition audit_key :: "prims \<Rightarrow> audit_entry \<Rightarrow> string" where
  "audit_key P e = ''audit/'' @ time_format P (ent_time e) @ ''/'' @ ent_id e"

text \<open>
  Log. \<open>wr\<close> is the write to the log file: its contents afterwards and whether the write
  succeeded. The ULID drawn is the argument \<open>i\<close>.
\<close>

definition audit_log ::
  "'s badger \<Rightarrow> prims \<Rightarrow> (bytes \<Rightarrow> bytes \<Rightarrow> bytes \<times> bool) \<Rightarrow> 's \<Rightarrow> bytes \<Rightarrow> time \<Rightarrow> string \<Rightarrow> audit_entry \<Rightarrow>
   ('s \<times> bytes) \<times> err option" where
  "audit_log B P wr s f t i e =
     (let e = (if ent_time e = zero_time then e\<lparr>ent_time := t\<rparr> else e);
          e = e\<lparr>ent_id := i\<rparr> in
      case json_marshal (enc_audit P) e of
        Inl err \<Rightarrow> ((s, f), Some (Wrapped ''marshal audit entry'' err))
      | Inr data \<Rightarrow> (case db_set B s t (audit_key P e) data of
           Inl err \<Rightarrow> ((s, f), Some (Wrapped ''write audit to db'' err))
         | Inr s' \<Rightarrow> (let (f', ok) = wr f (data @ [newline]) in
              ((s', f'), if ok then None else Some (ErrFile ''audit log'')))))"

record query_options =
  opt_identity :: string
  opt_since :: duration
  opt_path :: string
  opt_limit :: int

text \<open>The tests of Query on one entry; the zero time means that there is no lower bound.\<close>

definition audit_matches :: "query_options \<Rightarrow> time \<Rightarrow> audit_entry \<Rightarrow> bool" where
  "audit_matches opts since e \<longleftrightarrow>
     \<not> (opt_identity opts \<noteq> [] \<and> ent_identity e \<noteq> opt_identity opts)
   \<and> \<not> (since \<noteq> zero_time \<and> ent_time e < since)
   \<and> \<not> (opt_path opts \<noteq> [] \<and> ent_path e \<noteq> opt_path opts)"

text \<open>The loop of Query with the number of results so far.\<close>

fun audit_loop :: "prims \<Rightarrow> query_options \<Rightarrow> time \<Rightarrow> int \<Rightarrow> bytes list \<Rightarrow> audit_entry list" where
  "audit_loop P opts since n [] = []"
| "audit_loop P opts since n (data # entries) = (case json_unmarshal (dec_audit P) data of
     Inl _ \<Rightarrow> audit_loop P opts since n entries
   | Inr e \<Rightarrow> if \<not> audit_matches opts since e then audit_loop P opts since n entries
       else if opt_limit opts > 0 \<and> n + 1 \<ge> opt_limit opts then [e]
       else e # audit_loop P opts since (n + 1) entries)"

definition query_since :: "time \<Rightarrow> query_options \<Rightarrow> time" where
  "query_since t opts = (if opt_since opts > 0 then t - opt_since opts else zero_time)"

definition audit_query ::
  "'s badger \<Rightarrow> prims \<Rightarrow> ((string \<times> bytes) list \<Rightarrow> (string \<times> bytes) list) \<Rightarrow> 's \<Rightarrow> time \<Rightarrow> query_options \<Rightarrow>
   err + audit_entry list" where
  "audit_query B P order s t opts = (case db_scan B s t ''audit/'' of
     Inl e \<Rightarrow> Inl e
   | Inr entries \<Rightarrow> Inr (audit_loop P opts (query_since t opts) 0 (map snd (order entries))))"

section \<open>The codec\<close>

definition audit_ok :: "audit_entry \<Rightarrow> bool" where
  "audit_ok e \<longleftrightarrow> list_all utf8_ok [ent_id e, ent_identity e, ent_method e, ent_operation e, ent_path e,
       ent_ip e, ent_request e, ent_status e, ent_policy e, ent_error e]
     \<and> time_ok (ent_time e) \<and> int64_ok (ent_version e) \<and> int64_ok (ent_duration e)"

lemma audit_field_names [simp]:
  "utf8_ok ''id''" "utf8_ok ''timestamp''" "utf8_ok ''identity''" "utf8_ok ''auth_method''" "utf8_ok ''operation''"
  "utf8_ok ''path''" "utf8_ok ''secret_version''" "utf8_ok ''source_ip''" "utf8_ok ''request_id''"
  "utf8_ok ''status''" "utf8_ok ''policy''" "utf8_ok ''error_message''" "utf8_ok ''duration_ms''"
  by (simp_all add: utf8_ok_all_ascii is_ascii_def)

lemma audit_fold_names:
  "fold_key ''id'' = ''id''" "fold_key ''timestamp'' = ''timestamp''" "fold_key ''identity'' = ''identity''"
  "fold_key ''auth_method'' = ''auth_method''" "fold_key ''operation'' = ''operation''" "fold_key ''path'' = ''path''"
  "fold_key ''secret_version'' = ''secret_version''" "fold_key ''source_ip'' = ''source_ip''" "fold_key ''request_id'' = ''request_id''"
  "fold_key ''status'' = ''status''" "fold_key ''policy'' = ''policy''" "fold_key ''error_message'' = ''error_message''"
  "fold_key ''duration_ms'' = ''duration_ms''"
  by simp_all

lemma obj_get_append:
  "obj_get f d z (xs @ ys) = (case obj_get f d z xs of None \<Rightarrow> None | Some z' \<Rightarrow> obj_get f d z' ys)"
  by (induction xs arbitrary: z) (auto split: option.splits if_splits)

lemma obj_get_opt_str:
  "fold_key f \<noteq> fold_key n \<Longrightarrow> obj_get f d z (opt_str n s) = Some z"
  "fold_key f = fold_key n \<Longrightarrow> obj_get f dec_str [] (opt_str n s) = Some s"
  by (auto simp: opt_str_def)

lemma obj_get_opt_int:
  "fold_key f \<noteq> fold_key n \<Longrightarrow> obj_get f d z (opt_int n i) = Some z"
  "fold_key f = fold_key n \<Longrightarrow> int64_ok i \<Longrightarrow> obj_get f dec_int 0 (opt_int n i) = Some i"
  by (auto simp: opt_int_def)

lemma audit_json_ok: "audit_ok e \<Longrightarrow> enc_audit P e = Some j \<Longrightarrow> utf8_ok (time_format P (ent_time e)) \<Longrightarrow> json_ok j"
  by (auto simp: audit_ok_def enc_audit_def enc_time_def opt_str_def opt_int_def json_ok_def max_depth_def split: if_splits)

sublocale prims_laws \<subseteq> audit: codec "enc_audit P" "dec_audit P" audit_ok
proof
  fix e assume ok: "audit_ok e"
  then have t: "time_ok (ent_time e)" and n: "int64_ok (ent_version e)" "int64_ok (ent_duration e)"
    by (auto simp: audit_ok_def)
  obtain j where j: "enc_audit P e = Some j" using t by (simp add: enc_audit_def enc_time_ok)
  moreover have "json_ok j" using audit_json_ok[OF ok j time_text] .
  moreover have "dec_audit P j = Some e"
    using j t n by (cases e) (clarsimp simp add: enc_audit_def dec_audit_def enc_time_ok obj_get_append
      obj_get_opt_str obj_get_opt_int audit_fold_names)
  ultimately show "\<exists>j. enc_audit P e = Some j \<and> json_ok j \<and> dec_audit P j = Some e" by blast
qed

context prims_laws
begin

lemma audit_codec: "codec (enc_audit P) (dec_audit P) audit_ok"
  by (rule audit.codec_axioms)

end

end
