(* ===== verification/Config.thy ===== *)
theory Config
  imports Prelude
begin

text \<open>
  internal/config/config.go: the configuration, its defaults, and the loading of a file over them.
  Reading the file and decoding YAML into a configuration that already holds values are a
  parameter.
\<close>

record server_config =
  srv_addr :: string
  srv_tls_cert :: string
  srv_tls_key :: string
  srv_tls_ca :: string

record storage_config =
  sto_data_dir :: string
  sto_master_key :: string

record audit_config =
  aud_log_file :: string

record policy_config =
  pol_dir :: string

record session_config =
  ses_ttl :: duration
  ses_max_ttl :: duration

record config =
  cfg_server :: server_config
  cfg_storage :: storage_config
  cfg_audit :: audit_config
  cfg_policy :: policy_config
  cfg_session :: session_config
  cfg_log_level :: string

definition config_defaults :: config where
  "config_defaults = \<lparr>
     cfg_server = \<lparr>srv_addr = ''0.0.0.0:8300'', srv_tls_cert = ''/etc/lockr/tls/server.crt'',
       srv_tls_key = ''/etc/lockr/tls/server.key'', srv_tls_ca = ''/etc/lockr/tls/ca.crt''\<rparr>,
     cfg_storage = \<lparr>sto_data_dir = ''/var/lib/lockr/data'', sto_master_key = ''/var/lib/lockr/master.key.enc''\<rparr>,
     cfg_audit = \<lparr>aud_log_file = ''/var/lib/lockr/audit.log''\<rparr>,
     cfg_policy = \<lparr>pol_dir = ''/etc/lockr/policies''\<rparr>,
     cfg_session = \<lparr>ses_ttl = 1 * hour, ses_max_ttl = 24 * hour\<rparr>,
     cfg_log_level = ''info''\<rparr>"

definition config_validate :: "config \<Rightarrow> err option" where
  "config_validate c =
     (if srv_addr (cfg_server c) = [] then Some (ErrConfigField ''server.addr'')
      else if sto_data_dir (cfg_storage c) = [] then Some (ErrConfigField ''storage.data_dir'')
      else if sto_master_key (cfg_storage c) = [] then Some (ErrConfigField ''storage.master_key_path'')
      else None)"

record config_files =
  read_config :: "string \<Rightarrow> bytes option"
  yaml_config :: "bytes \<Rightarrow> config \<Rightarrow> config option"

definition config_load :: "config_files \<Rightarrow> string \<Rightarrow> err + config" where
  "config_load F path = (case read_config F path of
     None \<Rightarrow> Inl (Wrapped (''read config '' @ path) (ErrFile path))
   | Some data \<Rightarrow> (case yaml_config F data config_defaults of
        None \<Rightarrow> Inl (Wrapped (''parse config '' @ path) ErrYaml)
      | Some cfg \<Rightarrow> (case config_validate cfg of
           Some e \<Rightarrow> Inl (Wrapped ''invalid config'' e)
         | None \<Rightarrow> Inr cfg)))"

lemma config_load_Inr:
  "config_load F path = Inr cfg \<longleftrightarrow>
     (\<exists>data. read_config F path = Some data \<and> yaml_config F data config_defaults = Some cfg)
     \<and> srv_addr (cfg_server cfg) \<noteq> [] \<and> sto_data_dir (cfg_storage cfg) \<noteq> [] \<and> sto_master_key (cfg_storage cfg) \<noteq> []"
  by (auto simp: config_load_def config_validate_def split: option.splits if_splits)

lemma config_defaults_valid [simp]: "config_validate config_defaults = None"
  by (simp add: config_validate_def config_defaults_def)

end
