(* ===== verification/Api_Server.thy ===== *)
theory Api_Server
  imports Http Policy KV Transit Auth_Session Auth_Admin Auth_User Auth_Ed25519 Auth_Totp Audit_Log Config
begin

text \<open>
  internal/api/server.go and middleware.go: the server that the handlers run on, and what happens
  to a request before and after its handler.

  \<open>env\<close> is what stays fixed while the server runs. \<open>outside\<close> is what one request meets: the
  clock, the random draws, the ULIDs, the policy files, the order in which Go walks a map, the
  writes to the log file, and figures of the Go runtime. \<open>server\<close> is the state that requests change:
  the database, the policy engine, the pending challenges and the contents of the audit file.

  The n-th reading of the clock in a request is \<open>out_clock o n\<close>: 0 at its start, 1 for the
  authentication, 2 and 3 in the handler, 4 and 5 for the audit entries. The first 12 random
  bytes are the request id; the handler draws from 1 on and the session it may issue from 8 on.
\<close>

section \<open>The server\<close>

record 's env =
  env_db :: "'s badger"
  env_prims :: prims
  env_crypto :: crypto
  env_dev :: bool
  env_audit :: bool
  env_config :: config
  env_error_text :: "err \<Rightarrow> string"
  env_seconds :: "duration \<Rightarrow> string"
  env_duration_text :: "duration \<Rightarrow> string"
  env_parse_duration :: "string \<Rightarrow> duration option"
  env_rfc3339 :: "time \<Rightarrow> string"
  env_keypair :: "bytes \<Rightarrow> bytes \<times> bytes"
  env_start :: time

record outside =
  out_clock :: "nat \<Rightarrow> time"
  out_rng :: rng
  out_ids :: "nat \<Rightarrow> string"
  out_files :: policy_files
  out_order :: "(string \<times> bytes) list \<Rightarrow> (string \<times> bytes) list"
  out_write :: "bytes \<Rightarrow> bytes \<Rightarrow> bytes \<times> bool"
  out_go_version :: string
  out_goroutines :: int
  out_alloc :: int

record 's server =
  sv_db :: 's
  sv_engine :: engine
  sv_challenges :: challenges
  sv_log :: bytes

text \<open>The values that the middlewares put into the context of a request.\<close>

record ctx =
  ctx_request_id :: string
  ctx_start :: time
  ctx_identity :: "string option"
  ctx_method :: "string option"
  ctx_policy :: "string option"

definition get_identity :: "ctx \<Rightarrow> string" where
  "get_identity c = (case ctx_identity c of Some v \<Rightarrow> v | None \<Rightarrow> [])"

definition get_policy :: "ctx \<Rightarrow> string" where
  "get_policy c = (case ctx_policy c of Some v \<Rightarrow> v | None \<Rightarrow> [])"

definition get_request_id :: "ctx \<Rightarrow> string" where
  "get_request_id c = ctx_request_id c"

type_synonym 's handler = "'s env \<Rightarrow> outside \<Rightarrow> request \<Rightarrow> ctx \<Rightarrow> 's server \<Rightarrow> 's server \<times> response outcome"

definition session_ttl :: "'s env \<Rightarrow> duration" where
  "session_ttl v = ses_ttl (cfg_session (env_config v))"

section \<open>Tokens\<close>

definition extract_token :: "request \<Rightarrow> string" where
  "extract_token r = (let auth = header_get r ''Authorization'' in
     if has_prefix auth ''Bearer '' then trim_prefix auth ''Bearer ''
     else header_get r ''X-Lockr-Token'')"

definition allow_first_admin_bootstrap :: "'s env \<Rightarrow> outside \<Rightarrow> request \<Rightarrow> 's server \<Rightarrow> bool" where
  "allow_first_admin_bootstrap v out r s =
     (if req_method r \<noteq> ''POST'' \<or> req_path r \<noteq> ''/v1/sys/admin/create'' then False
      else (case has_admins (env_db v) (sv_db s) (out_clock out 1) of Inl _ \<Rightarrow> False | Inr has \<Rightarrow> \<not> has))"

text \<open>What authMiddleware writes for the audit entry.\<close>

record audit_state =
  as_identity :: string
  as_method :: string
  as_policy :: string

text \<open>
  The decision of authMiddleware: the identity, method and policy to go on with, or the audit
  state and the message of a refusal; and the server, since validating a session may delete it.
\<close>

definition unauthenticated :: "string \<Rightarrow> audit_state" where
  "unauthenticated meth = \<lparr>as_identity = ''unauthenticated'', as_method = meth, as_policy = []\<rparr>"

definition authenticate ::
  "'s env \<Rightarrow> outside \<Rightarrow> request \<Rightarrow> 's server \<Rightarrow> 's server \<times> (audit_state \<times> string + audit_state)" where
  "authenticate v out r s =
     (if env_dev v then (s, Inr \<lparr>as_identity = ''dev'', as_method = ''dev'', as_policy = ''root''\<rparr>)
      else (let token = extract_token r in
        if token = [] then
          (if allow_first_admin_bootstrap v out r s
           then (s, Inr \<lparr>as_identity = ''bootstrap'', as_method = ''admin_token'', as_policy = ''root''\<rparr>)
           else (s, Inl (unauthenticated ''none'', ''missing authorization token'')))
        else if has_prefix token ''lvt_'' then
          (case session_validate (env_db v) (env_prims v) (sv_db s) (out_clock out 1) token of
             (db, Inl _) \<Rightarrow> (s\<lparr>sv_db := db\<rparr>, Inl (unauthenticated ''session'', ''invalid or expired session''))
           | (db, Inr m) \<Rightarrow> (s\<lparr>sv_db := db\<rparr>, Inr \<lparr>as_identity = sess_identity m, as_method = sess_method m,
               as_policy = sess_policy m\<rparr>))
        else if has_prefix token ''lkat_'' then
          (case admin_verify (env_db v) (env_prims v) (sv_db s) (out_clock out 1) token of
             Inl _ \<Rightarrow> (s, Inl (unauthenticated ''admin_token'', ''invalid admin token''))
           | Inr rec \<Rightarrow> (s, Inr \<lparr>as_identity = ''admin:'' @ admin_name rec, as_method = ''admin_token'',
               as_policy = admin_policy rec\<rparr>))
        else (s, Inl (unauthenticated ''unknown'', ''unrecognized token format''))))"

section \<open>The audit trail\<close>

definition semantic_operation :: "string \<Rightarrow> string \<Rightarrow> string" where
  "semantic_operation meth path =
     (if has_prefix path ''/v1/secrets/kv/'' then
        (if has_suffix path ''/rollback'' then ''kv.rollback''
         else if meth = ''GET'' then ''kv.read''
         else if meth = ''PUT'' then ''kv.write''
         else if meth = ''DELETE'' then ''kv.delete'' else meth)
      else if has_prefix path ''/v1/secrets/transit/'' then
        (if has_suffix path ''/encrypt'' then ''transit.encrypt''
         else if has_suffix path ''/decrypt'' then ''transit.decrypt''
         else if has_suffix path ''/rotate'' then ''transit.rotate''
         else if has_suffix path ''/create'' then ''transit.create''
         else if has_suffix path ''/info'' then ''transit.info'' else meth)
      else if path = ''/v1/auth/challenge'' then ''auth.challenge''
      else if path = ''/v1/auth/verify'' then ''auth.verify''
      else if path = ''/v1/auth/totp'' then ''auth.totp''
      else if path = ''/v1/auth/admin/login'' then ''auth.admin_login''
      else if path = ''/v1/auth/login'' then ''auth.user_login''
      else if path = ''/v1/auth/session'' then ''auth.logout''
      else if path = ''/v1/auth/whoami'' then ''auth.whoami''
      else if has_prefix path ''/v1/sys/audit'' then ''sys.audit''
      else if has_prefix path ''/v1/sys/enroll'' then ''sys.enroll''
      else if has_prefix path ''/v1/sys/revoke/'' then ''sys.revoke''
      else if has_prefix path ''/v1/sys/admin/'' then ''sys.admin''
      else if has_prefix path ''/v1/sys/users'' then ''sys.users''
      else if has_prefix path ''/v1/sys/policy/'' then ''sys.policy''
      else if has_prefix path ''/v1/sys/status'' then ''sys.status''
      else meth)"

text \<open>An entry is logged and its failure ignored; the server changes by what Log did.\<close>

definition log_entry :: "'s env \<Rightarrow> outside \<Rightarrow> nat \<Rightarrow> audit_entry \<Rightarrow> 's server \<Rightarrow> 's server" where
  "log_entry v out n e s =
     (case fst (audit_log (env_db v) (env_prims v) (out_write out) (sv_db s) (sv_log s)
        (out_clock out n) (out_ids out n) e) of (db, f) \<Rightarrow> s\<lparr>sv_db := db, sv_log := f\<rparr>)"

definition milliseconds :: "duration \<Rightarrow> int" where
  "milliseconds d = d sdiv 1000000"

definition auth_entry :: "outside \<Rightarrow> request \<Rightarrow> ctx \<Rightarrow> string \<Rightarrow> string \<Rightarrow> string \<Rightarrow> audit_entry" where
  "auth_entry out r c identity meth status =
     \<lparr>ent_id = [], ent_time = out_clock out 4, ent_identity = identity, ent_method = meth,
      ent_operation = semantic_operation (req_method r) (req_path r), ent_path = req_path r,
      ent_version = 0, ent_ip = req_remote r, ent_request = ctx_request_id c, ent_status = status,
      ent_policy = [], ent_error = [], ent_duration = milliseconds (out_clock out 4 - ctx_start c)\<rparr>"

definition log_auth_attempt ::
  "'s env \<Rightarrow> outside \<Rightarrow> request \<Rightarrow> ctx \<Rightarrow> string \<Rightarrow> string \<Rightarrow> string \<Rightarrow> 's server \<Rightarrow> 's server" where
  "log_auth_attempt v out r c identity meth status s =
     (if \<not> env_audit v then s else log_entry v out 4 (auth_entry out r c identity meth status) s)"

definition audit_status :: "nat \<Rightarrow> string" where
  "audit_status code = (if code = 403 \<or> code = 401 then ''denied''
     else if code \<ge> 400 then ''error'' else ''allowed'')"

definition request_entry :: "outside \<Rightarrow> request \<Rightarrow> ctx \<Rightarrow> audit_state \<Rightarrow> nat \<Rightarrow> audit_entry" where
  "request_entry out r c a code =
     (let a = (if as_identity a \<noteq> [] then a else unauthenticated ''none'') in
      \<lparr>ent_id = [], ent_time = out_clock out 5, ent_identity = as_identity a, ent_method = as_method a,
       ent_operation = semantic_operation (req_method r) (req_path r), ent_path = req_path r,
       ent_version = 0, ent_ip = req_remote r, ent_request = ctx_request_id c, ent_status = audit_status code,
       ent_policy = as_policy a, ent_error = [], ent_duration = milliseconds (out_clock out 5 - ctx_start c)\<rparr>)"

text \<open>
  auditMiddleware around authMiddleware around a handler. A panic of the handler passes through:
  net/http recovers it outside, and no entry is written.
\<close>

definition auth_middleware ::
  "'s handler \<Rightarrow> 's env \<Rightarrow> outside \<Rightarrow> request \<Rightarrow> ctx \<Rightarrow> 's server \<Rightarrow> ('s server \<times> response outcome) \<times> audit_state" where
  "auth_middleware next v out r c s = (case authenticate v out r s of
     (s', Inl (a, msg)) \<Rightarrow> ((s', Done (write_error 401 msg)), a)
   | (s', Inr a) \<Rightarrow> (next v out r (c\<lparr>ctx_identity := Some (as_identity a), ctx_method := Some (as_method a),
       ctx_policy := Some (as_policy a)\<rparr>) s', a))"

definition audit_middleware ::
  "('s env \<Rightarrow> outside \<Rightarrow> request \<Rightarrow> ctx \<Rightarrow> 's server \<Rightarrow> ('s server \<times> response outcome) \<times> audit_state) \<Rightarrow> 's handler" where
  "audit_middleware next v out r c s = (case next v out r c s of
     ((s', Panic m), _) \<Rightarrow> (s', Panic m)
   | ((s', Done resp), a) \<Rightarrow>
       (if \<not> env_audit v then s' else log_entry v out 5 (request_entry out r c a (resp_status resp)) s', Done resp))"

definition with_admin :: "'s handler \<Rightarrow> 's handler" where
  "with_admin h v out r c s =
     (if \<not> env_dev v \<and> (case ctx_method c of Some m \<Rightarrow> m | None \<Rightarrow> []) \<noteq> ''admin_token''
      then (s, Done (write_error 403 ''admin access required''))
      else h v out r c s)"

text \<open>requireAdmin, which no route uses, takes the method by an unchecked type assertion.\<close>

definition require_admin :: "'s handler \<Rightarrow> 's handler" where
  "require_admin next v out r c s =
     (if env_dev v then next v out r c s
      else (case ctx_method c of
         None \<Rightarrow> (s, Panic ''interface conversion: interface {} is nil, not string'')
       | Some m \<Rightarrow> if m \<noteq> ''admin_token'' then (s, Done (write_error 403 ''admin access required''))
           else next v out r c s))"

definition request_id_middleware :: "'s handler \<Rightarrow> 's env \<Rightarrow> outside \<Rightarrow> request \<Rightarrow> 's server \<Rightarrow> 's server \<times> string \<times> response outcome" where
  "request_id_middleware next v out r s =
     (let b = (case rand_read (out_rng out) 0 12 of Inl _ \<Rightarrow> fill 12 [] | Inr bs \<Rightarrow> bs);
          rid = raw_url_encode b;
          c = \<lparr>ctx_request_id = rid, ctx_start = out_clock out 0, ctx_identity = None, ctx_method = None,
               ctx_policy = None\<rparr> in
      case next v out r c s of (s', resp) \<Rightarrow> (s', rid, resp))"

end
