(* ===== verification/Api_Handlers.thy ===== *)
theory Api_Handlers
  imports Api_Server
begin

text \<open>
  The handlers of internal/api: kv_handlers.go and transit_handlers.go first, whose every branch
  asks the policy engine, then the logins of auth_handlers.go, and sys_handlers.go and
  user_handlers.go behind the administrator gate. A Go map is encoded with its keys sorted.
\<close>

section \<open>Bodies and answers\<close>

text \<open>json.NewDecoder(r.Body).Decode into a struct.\<close>

definition decode_body :: "(json \<Rightarrow> 'd option) \<Rightarrow> request \<Rightarrow> 'd option" where
  "decode_body dec r = (case json_decode (req_body r) of None \<Rightarrow> None | Some j \<Rightarrow> dec j)"

definition dec_field :: "string \<Rightarrow> json \<Rightarrow> string option" where
  "dec_field f j = (case members j of None \<Rightarrow> None | Some ms \<Rightarrow> obj_get f dec_str [] ms)"

definition dec_fields2 :: "string \<Rightarrow> string \<Rightarrow> json \<Rightarrow> (string \<times> string) option" where
  "dec_fields2 f g j = (case (dec_field f j, dec_field g j) of
     (Some x, Some y) \<Rightarrow> Some (x, y) | _ \<Rightarrow> None)"

definition dec_fields3 :: "string \<Rightarrow> string \<Rightarrow> string \<Rightarrow> json \<Rightarrow> (string \<times> string \<times> string) option" where
  "dec_fields3 f g h j = (case (dec_field f j, dec_field g j, dec_field h j) of
     (Some x, Some y, Some z) \<Rightarrow> Some (x, y, z) | _ \<Rightarrow> None)"

definition ok_json :: "ctx \<Rightarrow> json \<Rightarrow> response outcome" where
  "ok_json c j = Done (write_json (get_request_id c) 200 (Some j))"

definition ok_strings :: "ctx \<Rightarrow> (string \<times> string) list \<Rightarrow> response outcome" where
  "ok_strings c kvs = ok_json c (JObj (map (\<lambda>(k, v). (k, JStr v)) kvs))"

definition fail_with :: "'s env \<Rightarrow> ctx \<Rightarrow> nat \<Rightarrow> err \<Rightarrow> response outcome" where
  "fail_with v c status e = Done (write_error_rid (get_request_id c) status (env_error_text v e))"

definition refuse :: "nat \<Rightarrow> string \<Rightarrow> response outcome" where
  "refuse status msg = Done (write_error status msg)"

definition refuse_rid :: "ctx \<Rightarrow> nat \<Rightarrow> string \<Rightarrow> response outcome" where
  "refuse_rid c status msg = Done (write_error_rid (get_request_id c) status msg)"

definition permission_denied :: "ctx \<Rightarrow> response outcome" where
  "permission_denied c = refuse_rid c 403 ''permission denied''"

text \<open>A slice: null when it is nil, which an empty result of the loops here is.\<close>

definition json_slice :: "json list \<Rightarrow> json" where
  "json_slice js = (if js = [] then JNull else JArr js)"

definition allowed_here :: "ctx \<Rightarrow> 's server \<Rightarrow> string \<Rightarrow> capability \<Rightarrow> bool" where
  "allowed_here c s path cap = policy_allowed (sv_engine s) (get_policy c) path cap"

section \<open>kv_handlers.go\<close>

definition kv_prefix :: string where
  "kv_prefix = ''/v1/secrets/kv/''"

definition handle_kv_get :: "'s handler" where
  "handle_kv_get v out r c s =
     (let path = trim_prefix (req_path r) kv_prefix; t = out_clock out 2;
          B = env_db v; P = env_prims v; k = env_crypto v in
      if has_suffix path ''/'' then
        (if \<not> allowed_here c s (''secrets/kv/'' @ path) CapList then (s, permission_denied c)
         else (case kv_list B (sv_db s) t path of
            Inl e \<Rightarrow> (s, fail_with v c 500 e)
          | Inr keys \<Rightarrow> (s, ok_json c (JObj [(''keys'', json_slice (map JStr keys))]))))
      else if has_suffix path ''/versions'' then
        (let secret = trim_suffix path ''/versions'' in
         if \<not> allowed_here c s (''secrets/kv/'' @ secret) CapRead then (s, permission_denied c)
         else (case kv_versions B P k (sv_db s) t secret of
            Inl e \<Rightarrow> (s, fail_with v c 404 e)
          | Inr versions \<Rightarrow> (s, Done (write_json (get_request_id c) 200
              (map_option (\<lambda>js. JObj [(''versions'', json_slice js)]) (enc_all (enc_entry P) versions))))))
      else if \<not> allowed_here c s (''secrets/kv/'' @ path) CapRead then (s, permission_denied c)
      else
        (let param = query_get r ''version'' in
         case (if param = [] then Some 0 else parse_int64 param) of
           None \<Rightarrow> (s, refuse 400 ''invalid version parameter'')
         | Some version \<Rightarrow> (case kv_get B P k (sv_db s) t path version of
             Inl e \<Rightarrow> (s, fail_with v c 404 e)
           | Inr entry \<Rightarrow> (s, Done (write_json (get_request_id c) 200 (enc_entry P entry))))))"

definition handle_kv_put :: "'s handler" where
  "handle_kv_put v out r c s =
     (let path = trim_prefix (req_path r) kv_prefix in
      if \<not> allowed_here c s (''secrets/kv/'' @ path) CapWrite then (s, permission_denied c)
      else (case json_decode (req_body r) of
        None \<Rightarrow> (s, refuse 400 ''invalid JSON body'')
      | Some body \<Rightarrow> (case kv_set (env_db v) (env_prims v) (env_crypto v) (sv_db s) (out_clock out 2)
            (rng_from 1 (out_rng out)) path body of
          (db, Inl e) \<Rightarrow> (s\<lparr>sv_db := db\<rparr>, fail_with v c 500 e)
        | (db, Inr entry) \<Rightarrow> (s\<lparr>sv_db := db\<rparr>, Done (write_json (get_request_id c) 200
            (enc_entry (env_prims v) (entry\<lparr>kv_value := JNull\<rparr>)))))))"

definition dec_version :: "json \<Rightarrow> int option" where
  "dec_version j = (case members j of None \<Rightarrow> None | Some ms \<Rightarrow> obj_get ''version'' dec_int 0 ms)"

definition version_message :: string where
  "version_message = ''body must be {'' @ [dquote] @ ''version'' @ [dquote] @ '': N} where N >= 1''"

definition handle_kv_rollback :: "'s handler" where
  "handle_kv_rollback v out r c s =
     (let path = trim_suffix (trim_prefix (req_path r) kv_prefix) ''/rollback'' in
      if \<not> allowed_here c s (''secrets/kv/'' @ path) CapWrite then (s, permission_denied c)
      else (case decode_body dec_version r of
        None \<Rightarrow> (s, refuse 400 version_message)
      | Some version \<Rightarrow>
          if version < 1 then (s, refuse 400 version_message)
          else (case kv_rollback (env_db v) (env_prims v) (env_crypto v) (sv_db s) (out_clock out 2)
              (rng_from 1 (out_rng out)) path version of
            (db, Inl e) \<Rightarrow> (s\<lparr>sv_db := db\<rparr>, fail_with v c 404 e)
          | (db, Inr entry) \<Rightarrow> (s\<lparr>sv_db := db\<rparr>, Done (write_json (get_request_id c) 200
              (enc_entry (env_prims v) (entry\<lparr>kv_value := JNull\<rparr>)))))))"

definition handle_kv_delete :: "'s handler" where
  "handle_kv_delete v out r c s =
     (let path = trim_prefix (req_path r) kv_prefix in
      if \<not> allowed_here c s (''secrets/kv/'' @ path) CapDelete then (s, permission_denied c)
      else (case kv_delete (env_db v) (env_prims v) (env_crypto v) (sv_db s) (out_clock out 2)
          (rng_from 1 (out_rng out)) path of
        Inl e \<Rightarrow> (s, fail_with v c 404 e)
      | Inr db \<Rightarrow> (s\<lparr>sv_db := db\<rparr>, ok_strings c [(''status'', ''deleted'')])))"

text \<open>The handler that the router registers for the engine.\<close>

definition handle_kv :: "'s handler" where
  "handle_kv v out r c s =
     (if has_suffix (req_path r) ''/rollback'' \<and> req_method r = ''POST'' then handle_kv_rollback v out r c s
      else if req_method r = ''GET'' then handle_kv_get v out r c s
      else if req_method r = ''PUT'' then handle_kv_put v out r c s
      else if req_method r = ''DELETE'' then handle_kv_delete v out r c s
      else (s, refuse 405 ''method not allowed''))"

section \<open>transit_handlers.go\<close>

definition transit_key_name :: "string \<Rightarrow> string \<Rightarrow> string" where
  "transit_key_name path suffix = trim_suffix (trim_prefix path ''/v1/secrets/transit/'') suffix"

definition handle_transit_encrypt :: "'s handler" where
  "handle_transit_encrypt v out r c s =
     (let keyname = transit_key_name (req_path r) ''/encrypt'' in
      if \<not> allowed_here c s (''secrets/transit/'' @ keyname) CapEncrypt then (s, permission_denied c)
      else (case decode_body (dec_field ''plaintext'') r of
        None \<Rightarrow> (s, refuse 400 ''plaintext required'')
      | Some plaintext \<Rightarrow>
          if plaintext = [] then (s, refuse 400 ''plaintext required'')
          else (case transit_encrypt (env_db v) (env_prims v) (env_crypto v) (sv_db s) (out_clock out 2)
              (rng_from 1 (out_rng out)) keyname plaintext of
            Panic m \<Rightarrow> (s, Panic m)
          | Done (Inl e) \<Rightarrow> (s, fail_with v c 500 e)
          | Done (Inr ct) \<Rightarrow> (s, ok_strings c [(''ciphertext'', ct)]))))"

definition handle_transit_decrypt :: "'s handler" where
  "handle_transit_decrypt v out r c s =
     (let keyname = transit_key_name (req_path r) ''/decrypt'' in
      if \<not> allowed_here c s (''secrets/transit/'' @ keyname) CapDecrypt then (s, permission_denied c)
      else (case decode_body (dec_field ''ciphertext'') r of
        None \<Rightarrow> (s, refuse 400 ''ciphertext required'')
      | Some ciphertext \<Rightarrow>
          if ciphertext = [] then (s, refuse 400 ''ciphertext required'')
          else (case transit_decrypt (env_db v) (env_prims v) (env_crypto v) (sv_db s) (out_clock out 2)
              keyname ciphertext of
            Inl e \<Rightarrow> (s, refuse_rid c 400 (''decryption failed: '' @ env_error_text v e))
          | Inr pt \<Rightarrow> (s, ok_strings c [(''plaintext'', pt)]))))"

definition handle_transit_rotate :: "'s handler" where
  "handle_transit_rotate v out r c s =
     (let keyname = transit_key_name (req_path r) ''/rotate'' in
      if \<not> allowed_here c s (''secrets/transit/'' @ keyname) CapWrite then (s, permission_denied c)
      else (case transit_rotate (env_db v) (env_prims v) (env_crypto v) (sv_db s) (out_clock out 2)
          (rng_from 1 (out_rng out)) keyname of
        Inl e \<Rightarrow> (s, fail_with v c 500 e)
      | Inr db \<Rightarrow> (s\<lparr>sv_db := db\<rparr>, ok_strings c [(''status'', ''rotated'')])))"

text \<open>Info builds its list of versions by append, so that no version at all is null.\<close>

definition enc_info :: "prims \<Rightarrow> transit_meta \<Rightarrow> json option" where
  "enc_info P m = (if tm_versions m = []
     then Some (JObj [(''name'', JStr (tm_name m)), (''current_version'', enc_int (tm_current m)), (''versions'', JNull)])
     else enc_tm P m)"

definition handle_transit_info :: "'s handler" where
  "handle_transit_info v out r c s =
     (let keyname = transit_key_name (req_path r) ''/info'' in
      if \<not> allowed_here c s (''secrets/transit/'' @ keyname) CapRead then (s, permission_denied c)
      else (case transit_info (env_db v) (env_prims v) (env_crypto v) (sv_db s) (out_clock out 2) keyname of
        Inl e \<Rightarrow> (s, fail_with v c 404 e)
      | Inr info \<Rightarrow> (s, Done (write_json (get_request_id c) 200 (enc_info (env_prims v) info)))))"

definition handle_transit_create :: "'s handler" where
  "handle_transit_create v out r c s =
     (let keyname = transit_key_name (req_path r) ''/create'' in
      if \<not> allowed_here c s (''secrets/transit/'' @ keyname) CapWrite then (s, permission_denied c)
      else (case transit_create (env_db v) (env_prims v) (env_crypto v) (sv_db s) (out_clock out 2)
          (rng_from 1 (out_rng out)) keyname of
        Inl e \<Rightarrow> (s, fail_with v c 409 e)
      | Inr db \<Rightarrow> (s\<lparr>sv_db := db\<rparr>, ok_strings c [(''key'', keyname), (''status'', ''created'')])))"

definition handle_transit :: "'s handler" where
  "handle_transit v out r c s =
     (if has_suffix (req_path r) ''/create'' then with_admin handle_transit_create v out r c s
      else if has_suffix (req_path r) ''/encrypt'' then handle_transit_encrypt v out r c s
      else if has_suffix (req_path r) ''/decrypt'' then handle_transit_decrypt v out r c s
      else if has_suffix (req_path r) ''/rotate'' then handle_transit_rotate v out r c s
      else if has_suffix (req_path r) ''/info'' then handle_transit_info v out r c s
      else (s, refuse 404 ''not found''))"

end
