(* ===== verification/Api_Accounts.thy ===== *)
theory Api_Accounts
  imports Api_Handlers
begin

text \<open>
  The handlers that deal with identities: the logins of auth_handlers.go, which answer a proof of
  identity with a session, and the administration of services, administrators, users, policies
  and the audit log in sys_handlers.go and user_handlers.go.
\<close>

section \<open>auth_handlers.go\<close>

definition handle_challenge :: "'s handler" where
  "handle_challenge v out r c s = (case decode_body (dec_field ''service'') r of
     None \<Rightarrow> (s, refuse 400 ''service name required'')
   | Some service \<Rightarrow>
       if service = [] then (s, refuse 400 ''service name required'')
       else (case generate_challenge (env_db v) (sv_db s) (out_clock out 2) (rng_from 1 (out_rng out))
           (sv_challenges s) service of
         Inl e \<Rightarrow> (log_auth_attempt v out r c (''svc:'' @ service) ''ed25519'' ''denied'' s, fail_with v c 404 e)
       | Inr (challenges, challenge) \<Rightarrow>
           (log_auth_attempt v out r c (''svc:'' @ service) ''ed25519'' ''challenge_issued''
              (s\<lparr>sv_challenges := challenges\<rparr>),
            ok_strings c [(''challenge'', hex_encode challenge), (''service'', service)])))"

text \<open>
  The common end of the logins: a session for the identity, the audit entry, and the answer. A
  session that cannot be issued leaves no entry.
\<close>

definition login_answer :: "'s env \<Rightarrow> ctx \<Rightarrow> string \<Rightarrow> string \<Rightarrow> string \<Rightarrow> response outcome" where
  "login_answer v c token identity pol = ok_json c (JObj [
     (''expires_in'', JNum (env_seconds v (session_ttl v))), (''identity'', JStr identity),
     (''policy'', JStr pol), (''token'', JStr token)])"

definition issue_session ::
  "'s env \<Rightarrow> outside \<Rightarrow> request \<Rightarrow> ctx \<Rightarrow> string \<Rightarrow> string \<Rightarrow> string \<Rightarrow> 's server \<Rightarrow> 's server \<times> response outcome" where
  "issue_session v out r c identity meth pol s =
     (case session_issue (env_db v) (env_prims v) (session_ttl v) (sv_db s) (out_clock out 3)
         (rng_from 8 (out_rng out)) identity meth pol of
        Inl _ \<Rightarrow> (s, refuse_rid c 500 ''could not issue session'')
      | Inr (db, token) \<Rightarrow> (log_auth_attempt v out r c identity meth ''allowed'' (s\<lparr>sv_db := db\<rparr>),
          login_answer v c token identity pol))"

definition handle_verify :: "'s handler" where
  "handle_verify v out r c s = (case decode_body (dec_fields2 ''challenge'' ''signature'') r of
     None \<Rightarrow> (s, refuse 400 ''invalid request body'')
   | Some (challenge, signature) \<Rightarrow> (case hex_decode challenge of
       None \<Rightarrow> (s, refuse 400 ''invalid challenge encoding'')
     | Some challenge_bytes \<Rightarrow> (case hex_decode signature of
         None \<Rightarrow> (s, refuse 400 ''invalid signature encoding'')
       | Some sig_bytes \<Rightarrow>
          (case service_verify (env_db v) (env_prims v) (sv_db s) (out_clock out 2) (sv_challenges s)
              challenge_bytes sig_bytes of
             (challenges, Panic m) \<Rightarrow> (s\<lparr>sv_challenges := challenges\<rparr>, Panic m)
           | (challenges, Done (Inl _)) \<Rightarrow>
               (log_auth_attempt v out r c ''svc:unknown'' ''ed25519'' ''denied'' (s\<lparr>sv_challenges := challenges\<rparr>),
                refuse_rid c 401 ''authentication failed'')
           | (challenges, Done (Inr svc)) \<Rightarrow>
               issue_session v out r c (''svc:'' @ svc_name svc) ''ed25519'' (svc_policy svc)
                 (s\<lparr>sv_challenges := challenges\<rparr>)))))"

definition dec_totp_login :: "json \<Rightarrow> (string \<times> 32 word) option" where
  "dec_totp_login j = (case members j of None \<Rightarrow> None | Some ms \<Rightarrow>
     (case (obj_get ''service'' dec_str [] ms, obj_get ''code'' dec_uint32 0 ms) of
        (Some service, Some code) \<Rightarrow> Some (service, code) | _ \<Rightarrow> None))"

definition handle_totp_login :: "'s handler" where
  "handle_totp_login v out r c s = (case decode_body dec_totp_login r of
     None \<Rightarrow> (s, refuse 400 ''invalid request body'')
   | Some (service, code) \<Rightarrow>
       (case totp_verify (env_db v) (env_prims v) (sv_db s) (out_clock out 2) service code of
          Inl _ \<Rightarrow> (log_auth_attempt v out r c (''svc:'' @ service) ''totp'' ''denied'' s,
            refuse_rid c 401 ''invalid TOTP code'')
        | Inr rec \<Rightarrow> issue_session v out r c (''svc:'' @ totp_name rec) ''totp'' (totp_policy rec) s))"

definition handle_admin_login :: "'s handler" where
  "handle_admin_login v out r c s = (case decode_body (dec_field ''token'') r of
     None \<Rightarrow> (s, refuse 400 ''invalid request body'')
   | Some token \<Rightarrow> (case admin_verify (env_db v) (env_prims v) (sv_db s) (out_clock out 2) token of
        Inl _ \<Rightarrow> (log_auth_attempt v out r c ''admin:unknown'' ''admin_token'' ''denied'' s,
          refuse_rid c 401 ''invalid admin token'')
      | Inr rec \<Rightarrow> issue_session v out r c (''admin:'' @ admin_name rec) ''admin_token'' (admin_policy rec) s))"

definition handle_user_login :: "'s handler" where
  "handle_user_login v out r c s = (case decode_body (dec_fields2 ''username'' ''password'') r of
     None \<Rightarrow> (s, refuse 400 ''invalid request body'')
   | Some (username, password) \<Rightarrow>
       (case user_verify (env_db v) (env_prims v) (sv_db s) (out_clock out 2) username password of
          Inl _ \<Rightarrow> (log_auth_attempt v out r c (''user:'' @ username) ''password'' ''denied'' s,
            refuse_rid c 401 ''invalid credentials'')
        | Inr rec \<Rightarrow> issue_session v out r c (''user:'' @ user_name rec) ''password'' (user_policy rec) s))"

definition handle_logout :: "'s handler" where
  "handle_logout v out r c s =
     (let token = extract_token r;
          s' = (if token \<noteq> [] then
                 (case session_revoke (env_db v) (env_prims v) (sv_db s) (out_clock out 2) token of
                    Inl _ \<Rightarrow> s | Inr db \<Rightarrow> s\<lparr>sv_db := db\<rparr>) else s) in
      (s', ok_strings c [(''status'', ''logged out'')]))"

definition handle_whoami :: "'s handler" where
  "handle_whoami v out r c s = (s, Done (write_json (get_request_id c) 200
     (map_option (\<lambda>now. JObj [(''identity'', JStr (get_identity c)), (''policy'', JStr (get_policy c)),
        (''server_time'', now)]) (enc_time (env_prims v) (out_clock out 2)))))"

section \<open>sys_handlers.go\<close>

definition handle_health :: "'s handler" where
  "handle_health v out r c s = (s, ok_strings c [(''status'', ''ok''), (''time'', env_rfc3339 v (out_clock out 2))])"

definition handle_status :: "'s handler" where
  "handle_status v out r c s = (s, ok_json c (JObj [
     (''alloc_mb'', enc_int (out_alloc out div 1024 div 1024)), (''dev_mode'', JBool (env_dev v)),
     (''go_version'', JStr (out_go_version out)), (''goroutines'', enc_int (out_goroutines out)),
     (''status'', JStr ''running''), (''uptime'', JStr (env_duration_text v (out_clock out 2 - env_start v)))]))"

definition method_message :: string where
  "method_message = (let q = [CHR 0x27] in
     ''auth_method must be '' @ q @ ''ed25519'' @ q @ '' or '' @ q @ ''totp'' @ q)"

text \<open>ed25519.GenerateKey reads a seed of 32 bytes; a missing method means ed25519.\<close>

definition handle_enroll :: "'s handler" where
  "handle_enroll v out r c s = (case decode_body (dec_fields3 ''service'' ''auth_method'' ''policy'') r of
     None \<Rightarrow> (s, refuse 400 ''invalid request body'')
   | Some (service, meth, pol) \<Rightarrow>
       if service = [] \<or> pol = [] then (s, refuse 400 ''service and policy are required'')
       else if meth = [] \<or> meth = ''ed25519'' then
         (case rand_read (out_rng out) 1 32 of
            Inl _ \<Rightarrow> (s, refuse_rid c 500 ''key generation failed'')
          | Inr seed \<Rightarrow> (let (pub, priv) = env_keypair v seed in
             (case register_service (env_db v) (sv_db s) (out_clock out 2)
                 \<lparr>svc_name = service, svc_public_key = pub, svc_policy = pol\<rparr> of
                Inl e \<Rightarrow> (s, fail_with v c 500 e)
              | Inr db \<Rightarrow> (s\<lparr>sv_db := db\<rparr>, ok_strings c [(''auth_method'', ''ed25519''), (''policy'', pol),
                  (''private_key'', hex_encode priv), (''public_key'', hex_encode pub), (''service'', service)]))))
       else if meth = ''totp'' then
         (case generate_secret (out_rng out) 1 of
            Inl e \<Rightarrow> (s, fail_with v c 500 e)
          | Inr (raw, text) \<Rightarrow>
             (case register_totp (env_db v) (sv_db s) (out_clock out 2)
                 \<lparr>totp_name = service, totp_secret = raw, totp_policy = pol\<rparr> of
                Inl e \<Rightarrow> (s, fail_with v c 500 e)
              | Inr db \<Rightarrow> (s\<lparr>sv_db := db\<rparr>, ok_strings c [(''auth_method'', ''totp''), (''policy'', pol),
                  (''service'', service), (''totp_secret'', text)])))
       else (s, refuse 400 method_message))"

definition handle_revoke :: "'s handler" where
  "handle_revoke v out r c s =
     (let service = trim_prefix (req_path r) ''/v1/sys/revoke/'' in
      case delete_service (env_db v) (sv_db s) (out_clock out 2) service of
        Inl e \<Rightarrow> (s, fail_with v c 404 e)
      | Inr db \<Rightarrow> (s\<lparr>sv_db := db\<rparr>, ok_strings c [(''status'', ''revoked'')]))"

text \<open>
  strconv.Atoi with its error dropped: what it returns for a text that is no number is 0, and
  for a number out of range the nearest bound.
\<close>

definition atoi_value :: "string \<Rightarrow> int" where
  "atoi_value s =
     (let (neg, ds) = split_sign s; n = int (digits_value ds) in
      if ds = [] \<or> \<not> list_all is_digit ds then 0
      else if neg then max (- (2 ^ 63)) (- n) else min (2 ^ 63 - 1) n)"

definition audit_options :: "'s env \<Rightarrow> request \<Rightarrow> query_options" where
  "audit_options v r =
     (let identity = query_get r ''identity'';
          identity = (if identity = [] then query_get r ''service'' else identity);
          since = query_get r ''since''; limit = query_get r ''limit'' in
      \<lparr>opt_identity = identity,
       opt_since = (if since = [] then 0 else (case env_parse_duration v since of None \<Rightarrow> 0 | Some d \<Rightarrow> d)),
       opt_path = query_get r ''path'',
       opt_limit = (if limit = [] then 0 else atoi_value limit)\<rparr>)"

text \<open>Without a logger, as in development mode, the query dereferences nil.\<close>

definition handle_audit :: "'s handler" where
  "handle_audit v out r c s =
     (if \<not> env_audit v then (s, Panic ''invalid memory address or nil pointer dereference'')
      else (case audit_query (env_db v) (env_prims v) (out_order out) (sv_db s) (out_clock out 2) (audit_options v r) of
        Inl e \<Rightarrow> (s, fail_with v c 500 e)
      | Inr entries \<Rightarrow> (s, Done (write_json (get_request_id c) 200
          (map_option (\<lambda>js. JObj [(''count'', enc_int (int (length entries))), (''entries'', json_slice js)])
            (enc_all (enc_audit (env_prims v)) entries))))))"

definition handle_admin_create :: "'s handler" where
  "handle_admin_create v out r c s = (case decode_body (dec_fields2 ''name'' ''policy'') r of
     None \<Rightarrow> (s, refuse 400 ''name required'')
   | Some (name, pol) \<Rightarrow>
       if name = [] then (s, refuse 400 ''name required'')
       else (case admin_create (env_db v) (env_prims v) (sv_db s) (out_clock out 2) (rng_from 1 (out_rng out))
           name (if pol = [] then ''admin'' else pol) of
         Inl e \<Rightarrow> (s, fail_with v c 500 e)
       | Inr (db, token) \<Rightarrow> (s\<lparr>sv_db := db\<rparr>, ok_strings c [(''name'', name), (''token'', token)])))"

definition handle_admin_delete :: "'s handler" where
  "handle_admin_delete v out r c s =
     (let name = trim_prefix (req_path r) ''/v1/sys/admin/'' in
      case admin_delete (env_db v) (sv_db s) (out_clock out 2) name of
        Inl e \<Rightarrow> (s, fail_with v c 404 e)
      | Inr db \<Rightarrow> (s\<lparr>sv_db := db\<rparr>, ok_strings c [(''status'', ''deleted'')]))"

definition handle_policy_reload :: "'s handler" where
  "handle_policy_reload v out r c s = (case load_all (out_files out) (sv_engine s) of
     Inl e \<Rightarrow> (s, fail_with v c 500 e)
   | Inr engine \<Rightarrow> (s\<lparr>sv_engine := engine\<rparr>, ok_strings c [(''status'', ''reloaded'')]))"

section \<open>user_handlers.go\<close>

definition handle_user_create :: "'s handler" where
  "handle_user_create v out r c s = (case decode_body (dec_fields3 ''username'' ''password'' ''policy'') r of
     None \<Rightarrow> (s, refuse 400 ''invalid request body'')
   | Some (username, password, pol) \<Rightarrow>
       if username = [] \<or> password = [] \<or> pol = []
       then (s, refuse 400 ''username, password and policy are required'')
       else (case user_create (env_db v) (env_prims v) (sv_db s) (out_clock out 2) (rng_from 1 (out_rng out))
           username password pol of
         Inl e \<Rightarrow> (s, fail_with v c 409 e)
       | Inr db \<Rightarrow> (s\<lparr>sv_db := db\<rparr>, ok_strings c [(''policy'', pol), (''status'', ''created''), (''username'', username)])))"

definition handle_user_list :: "'s handler" where
  "handle_user_list v out r c s = (case user_list (env_db v) (env_prims v) (sv_db s) (out_clock out 2) of
     Inl e \<Rightarrow> (s, fail_with v c 500 e)
   | Inr users \<Rightarrow> (s, Done (write_json (get_request_id c) 200
       (map_option (\<lambda>js. JObj [(''count'', enc_int (int (length users))), (''users'', json_slice js)])
         (enc_all (enc_user (env_prims v)) users)))))"

definition handle_user_delete :: "'s handler" where
  "handle_user_delete v out r c s =
     (let username = trim_prefix (req_path r) ''/v1/sys/users/'' in
      case user_delete (env_db v) (sv_db s) (out_clock out 2) username of
        Inl e \<Rightarrow> (s, fail_with v c 404 e)
      | Inr db \<Rightarrow> (s\<lparr>sv_db := db\<rparr>, ok_strings c [(''status'', ''deleted'')]))"

definition handle_user_update :: "'s handler" where
  "handle_user_update v out r c s =
     (let path = trim_prefix (req_path r) ''/v1/sys/users/'' in
      if has_suffix path ''/policy'' then
        (let username = trim_suffix path ''/policy'' in
         case decode_body (dec_field ''policy'') r of
           None \<Rightarrow> (s, refuse 400 ''policy is required'')
         | Some pol \<Rightarrow>
             if pol = [] then (s, refuse 400 ''policy is required'')
             else (case user_change_policy (env_db v) (env_prims v) (sv_db s) (out_clock out 2) username pol of
               Inl e \<Rightarrow> (s, fail_with v c 404 e)
             | Inr db \<Rightarrow> (s\<lparr>sv_db := db\<rparr>, ok_strings c [(''status'', ''updated'')])))
      else if has_suffix path ''/password'' then
        (let username = trim_suffix path ''/password'' in
         case decode_body (dec_field ''password'') r of
           None \<Rightarrow> (s, refuse 400 ''password is required'')
         | Some password \<Rightarrow>
             if password = [] then (s, refuse 400 ''password is required'')
             else (case user_change_password (env_db v) (env_prims v) (sv_db s) (out_clock out 2)
                 (rng_from 1 (out_rng out)) username password of
               Inl e \<Rightarrow> (s, fail_with v c 404 e)
             | Inr db \<Rightarrow> (s\<lparr>sv_db := db\<rparr>, ok_strings c [(''status'', ''updated'')])))
      else (s, refuse 404 ''not found''))"

text \<open>The two handlers that the router registers for the users.\<close>

definition handle_users :: "'s handler" where
  "handle_users v out r c s =
     (if req_method r = ''POST'' then handle_user_create v out r c s
      else if req_method r = ''GET'' then handle_user_list v out r c s
      else (s, refuse 405 ''method not allowed''))"

definition handle_user :: "'s handler" where
  "handle_user v out r c s =
     (if req_method r = ''DELETE'' then handle_user_delete v out r c s
      else if req_method r = ''PUT'' then handle_user_update v out r c s
      else (s, refuse 405 ''method not allowed''))"

end
