(* ===== verification/Api_Router.thy ===== *)
theory Api_Router
  imports Api_Accounts
begin

text \<open>
  internal/api/router.go: the two muxes and the handlers behind their patterns. A route names a
  registration, so that the tables of patterns are data.
\<close>

section \<open>Protected routes\<close>

datatype route = RSession | RWhoAmI | RKV | RTransit | RStatus | REnroll | RRevoke | RAudit
  | RAdminCreate | RAdmin | RPolicyReload | RUsers | RUser

definition authed_routes :: "route patterns" where
  "authed_routes = [
     (([''v1'', ''auth'', ''session''], False), RSession),
     (([''v1'', ''auth'', ''whoami''], False), RWhoAmI),
     (([''v1'', ''secrets'', ''kv''], True), RKV),
     (([''v1'', ''secrets'', ''transit''], True), RTransit),
     (([''v1'', ''sys'', ''status''], False), RStatus),
     (([''v1'', ''sys'', ''enroll''], False), REnroll),
     (([''v1'', ''sys'', ''revoke''], True), RRevoke),
     (([''v1'', ''sys'', ''audit''], False), RAudit),
     (([''v1'', ''sys'', ''admin'', ''create''], False), RAdminCreate),
     (([''v1'', ''sys'', ''admin''], True), RAdmin),
     (([''v1'', ''sys'', ''policy'', ''reload''], False), RPolicyReload),
     (([''v1'', ''sys'', ''users''], False), RUsers),
     (([''v1'', ''sys'', ''users''], True), RUser)]"

fun route_handler :: "route \<Rightarrow> 's handler" where
  "route_handler RSession = handle_logout"
| "route_handler RWhoAmI = handle_whoami"
| "route_handler RKV = handle_kv"
| "route_handler RTransit = handle_transit"
| "route_handler RStatus = with_admin handle_status"
| "route_handler REnroll = with_admin handle_enroll"
| "route_handler RRevoke = with_admin handle_revoke"
| "route_handler RAudit = with_admin handle_audit"
| "route_handler RAdminCreate = with_admin handle_admin_create"
| "route_handler RAdmin = with_admin handle_admin_delete"
| "route_handler RPolicyReload = with_admin handle_policy_reload"
| "route_handler RUsers = with_admin handle_users"
| "route_handler RUser = with_admin handle_user"

text \<open>ServeMux.ServeHTTP: the handler that the mux chose, or the mux's own answer.\<close>

definition mux_serve :: "'h patterns \<Rightarrow> ('h \<Rightarrow> 's handler) \<Rightarrow> 's handler" where
  "mux_serve ps handler v out r c s = (case mux_route ps r of
     MuxHandler h \<Rightarrow> handler h v out r c s
   | MuxRedirect \<Rightarrow> (s, Done (plain_response 301 []))
   | MuxNotFound \<Rightarrow> (s, Done not_found_response)
   | MuxBadRequest \<Rightarrow> (s, Done (plain_response 400 [])))"

definition protected_handler :: "'s handler" where
  "protected_handler = audit_middleware (auth_middleware (mux_serve authed_routes route_handler))"

section \<open>Public routes\<close>

datatype public_route = PHealth | PChallenge | PVerify | PTotp | PAdminLogin | PLogin | PProtected

definition public_routes :: "public_route patterns" where
  "public_routes = [
     (([''v1'', ''sys'', ''health''], False), PHealth),
     (([''v1'', ''auth'', ''challenge''], False), PChallenge),
     (([''v1'', ''auth'', ''verify''], False), PVerify),
     (([''v1'', ''auth'', ''totp''], False), PTotp),
     (([''v1'', ''auth'', ''admin'', ''login''], False), PAdminLogin),
     (([''v1'', ''auth'', ''login''], False), PLogin),
     (([''v1''], True), PProtected)]"

fun public_handler :: "public_route \<Rightarrow> 's handler" where
  "public_handler PHealth = handle_health"
| "public_handler PChallenge = handle_challenge"
| "public_handler PVerify = handle_verify"
| "public_handler PTotp = handle_totp_login"
| "public_handler PAdminLogin = handle_admin_login"
| "public_handler PLogin = handle_user_login"
| "public_handler PProtected = protected_handler"

text \<open>A request through the whole server: the state after it, the request id and the answer.\<close>

definition serve :: "'s env \<Rightarrow> outside \<Rightarrow> request \<Rightarrow> 's server \<Rightarrow> 's server \<times> string \<times> response outcome" where
  "serve v out r s = request_id_middleware (mux_serve public_routes public_handler) v out r s"

text \<open>The context in which serve runs the muxes.\<close>

definition first_ctx :: "outside \<Rightarrow> ctx" where
  "first_ctx out = \<lparr>ctx_request_id = raw_url_encode (case rand_read (out_rng out) 0 12 of Inl _ \<Rightarrow> fill 12 [] | Inr bs \<Rightarrow> bs),
     ctx_start = out_clock out 0, ctx_identity = None, ctx_method = None, ctx_policy = None\<rparr>"

definition authed_ctx :: "outside \<Rightarrow> audit_state \<Rightarrow> ctx" where
  "authed_ctx out a = (first_ctx out)\<lparr>ctx_identity := Some (as_identity a), ctx_method := Some (as_method a),
     ctx_policy := Some (as_policy a)\<rparr>"

lemma serve_eq:
  "serve v out r s = (case mux_serve public_routes public_handler v out r (first_ctx out) s of
     (s', resp) \<Rightarrow> (s', ctx_request_id (first_ctx out), resp))"
  by (simp add: serve_def request_id_middleware_def first_ctx_def Let_def)

lemma get_policy_authed [simp]: "get_policy (authed_ctx out a) = as_policy a"
  by (simp add: authed_ctx_def get_policy_def)

lemma ctx_method_authed [simp]: "ctx_method (authed_ctx out a) = Some (as_method a)"
  by (simp add: authed_ctx_def)

lemma ctx_request_id_authed [simp]: "ctx_request_id (authed_ctx out a) = ctx_request_id (first_ctx out)"
  by (simp add: authed_ctx_def)

text \<open>What a protected request does, in the three ways it can go.\<close>

lemma protected_cases:
  assumes "protected_handler v out r (first_ctx out) s = (s', resp)"
  obtains (refused) s1 a msg where "authenticate v out r s = (s1, Inl (a, msg))" "resp = Done (write_error 401 msg)"
      "s' = (if env_audit v then log_entry v out 5 (request_entry out r (first_ctx out) a 401) s1 else s1)"
    | (panicked) s1 a m where "authenticate v out r s = (s1, Inr a)"
      "mux_serve authed_routes route_handler v out r (authed_ctx out a) s1 = (s', Panic m)" "resp = Panic m"
    | (answered) s1 s2 a x where "authenticate v out r s = (s1, Inr a)"
      "mux_serve authed_routes route_handler v out r (authed_ctx out a) s1 = (s2, Done x)" "resp = Done x"
      "s' = (if env_audit v then log_entry v out 5 (request_entry out r (first_ctx out) a (resp_status x)) s2 else s2)"
proof -
  obtain s1 d where a: "authenticate v out r s = (s1, d)" by (cases "authenticate v out r s")
  show thesis
  proof (cases d)
    case (Inl am)
    obtain b msg where "am = (b, msg)" by (cases am)
    then show ?thesis using assms a Inl
      by (intro refused) (auto simp: protected_handler_def audit_middleware_def auth_middleware_def)
  next
    case (Inr b)
    obtain s2 o2 where m: "mux_serve authed_routes route_handler v out r (authed_ctx out b) s1 = (s2, o2)"
      by (cases "mux_serve authed_routes route_handler v out r (authed_ctx out b) s1")
    show ?thesis
    proof (cases o2)
      case (Done x)
      then show ?thesis using assms a Inr m
        by (intro answered) (auto simp: protected_handler_def audit_middleware_def auth_middleware_def authed_ctx_def)
    next
      case (Panic e)
      then show ?thesis using assms a Inr m
        by (intro panicked) (auto simp: protected_handler_def audit_middleware_def auth_middleware_def authed_ctx_def)
    qed
  qed
qed

text \<open>A request that an authenticated caller gets answered, the other way round.\<close>

lemma serve_answered:
  assumes "mux_route public_routes r = MuxHandler PProtected" and "authenticate v out r s = (s1, Inr a)"
    and "mux_route authed_routes r = MuxHandler rt" and "route_handler rt v out r (authed_ctx out a) s1 = (s2, Done x)"
  shows "serve v out r s =
    (if env_audit v then log_entry v out 5 (request_entry out r (first_ctx out) a (resp_status x)) s2 else s2,
     ctx_request_id (first_ctx out), Done x)"
  using assms by (simp add: serve_eq mux_serve_def protected_handler_def audit_middleware_def auth_middleware_def authed_ctx_def)

lemma serve_unauthenticated:
  assumes "mux_route public_routes r = MuxHandler PProtected" and "authenticate v out r s = (s1, Inl (a, msg))"
  shows "serve v out r s =
    (if env_audit v then log_entry v out 5 (request_entry out r (first_ctx out) a 401) s1 else s1,
     ctx_request_id (first_ctx out), Done (write_error 401 msg))"
  using assms by (simp add: serve_eq mux_serve_def protected_handler_def audit_middleware_def auth_middleware_def)

lemma serve_public:
  assumes "mux_route public_routes r = MuxHandler p"
  shows "serve v out r s = (case public_handler p v out r (first_ctx out) s of
    (s', x) \<Rightarrow> (s', ctx_request_id (first_ctx out), x))"
  using assms by (simp add: serve_eq mux_serve_def)

end
