(* ===== verification/Api_Zones.thy ===== *)
theory Api_Zones
  imports Api_Router
begin

text \<open>
  Where in the key space each operation and each handler writes. The keys fall into zones:
  secrets, accounts (users, administrators, services), sessions and the audit log; a handler is
  confined to the zones it is there for. The locale \<open>api\<close> is a server over a database and
  primitives with their laws.
\<close>

section \<open>Zones\<close>

definition secret_key :: "string \<Rightarrow> bool" where
  "secret_key k \<longleftrightarrow> has_prefix k ''secrets/''"

definition account_key :: "string \<Rightarrow> bool" where
  "account_key k \<longleftrightarrow> has_prefix k ''auth/users/'' \<or> has_prefix k ''auth/admins/'' \<or> has_prefix k ''auth/services/''"

definition token_key :: "string \<Rightarrow> bool" where
  "token_key k \<longleftrightarrow> has_prefix k ''auth/sessions/''"

definition audit_zone :: "string \<Rightarrow> bool" where
  "audit_zone k \<longleftrightarrow> has_prefix k ''audit/''"

lemmas zone_defs = secret_key_def account_key_def token_key_def audit_zone_def

lemma zones_disjoint:
  "secret_key k \<Longrightarrow> \<not> account_key k \<and> \<not> token_key k \<and> \<not> audit_zone k"
  "account_key k \<Longrightarrow> \<not> token_key k \<and> \<not> audit_zone k"
  "token_key k \<Longrightarrow> \<not> audit_zone k"
  unfolding zone_defs has_prefix_iff by auto

lemma zone_keys [simp]:
  "secret_key (kv_meta_key p)" "secret_key (kv_version_key p n)" "secret_key (transit_key name)"
  "account_key (user_key name)" "account_key (admin_key name)" "account_key (service_key name)"
  "account_key (totp_key name)" "token_key (session_key P token)" "audit_zone (audit_key P e)"
  unfolding zone_defs kv_meta_key_def kv_version_key_def transit_key_def user_key_def admin_key_def
    service_key_def totp_key_def session_key_def audit_key_def has_prefix_iff by auto

text \<open>The zone of secrets has two parts, one for each engine.\<close>

definition kv_record :: "string \<Rightarrow> bool" where
  "kv_record k \<longleftrightarrow> has_prefix k ''secrets/kv/''"

definition transit_record :: "string \<Rightarrow> bool" where
  "transit_record k \<longleftrightarrow> has_prefix k ''secrets/transit/''"

lemma kv_record_secret: "kv_record k \<Longrightarrow> secret_key k"
  unfolding kv_record_def secret_key_def has_prefix_iff by auto

lemma transit_record_secret: "transit_record k \<Longrightarrow> secret_key k"
  unfolding transit_record_def secret_key_def has_prefix_iff by auto

lemma records_disjoint: "kv_record k \<Longrightarrow> \<not> transit_record k"
  unfolding kv_record_def transit_record_def has_prefix_iff by auto

lemma record_keys [simp]:
  "kv_record (kv_meta_key p)" "kv_record (kv_version_key p n)" "transit_record (transit_key name)"
  unfolding kv_record_def transit_record_def kv_meta_key_def kv_version_key_def transit_key_def has_prefix_iff by auto

text \<open>From contents to contents, nothing outside a zone changes.\<close>

definition confined :: "(string \<Rightarrow> bool) \<Rightarrow> contents \<Rightarrow> contents \<Rightarrow> bool" where
  "confined Z c c' \<longleftrightarrow> (\<forall>k. \<not> Z k \<longrightarrow> c' k = c k)"

lemma confined_refl [simp, intro]: "confined Z c c"
  by (simp add: confined_def)

lemma confined_upd [simp]: "Z k \<Longrightarrow> confined Z c (c(k := x))"
  by (auto simp: confined_def)

lemma confined_trans: "confined Z a b \<Longrightarrow> confined Z b c \<Longrightarrow> confined Z a c"
  by (simp add: confined_def)

lemma confined_mono: "confined Z a b \<Longrightarrow> (\<And>k. Z k \<Longrightarrow> Y k) \<Longrightarrow> confined Y a b"
  unfolding confined_def by blast

lemma confined_changed: "confined Z a b \<Longrightarrow> b k \<noteq> a k \<Longrightarrow> Z k"
  unfolding confined_def by blast

section \<open>Operations\<close>

context vault
begin

lemma kv_put_inside: "kv_put B P c s t rng path v m = (s', r) \<Longrightarrow> confined kv_record (E s) (E s')"
proof -
  assume p: "kv_put B P c s t rng path v m = (s', r)"
  have v: "confined kv_record (E s1) (E s2)" if "write_version B P c s1 t rng i e = Inr s2" for s1 s2 i e
    using write_version_E[OF that] by auto
  have w: "confined kv_record (E s1) (E s2)" if "write_meta B P c s1 t rng i e = Inr s2" for s1 s2 i e
    using write_meta_E[OF that] by auto
  have d: "confined kv_record (E s1) (E s2)" if "delete_version B s1 t path n = Inr s2" for s1 s2 n
    using delete_version_E[OF that] by auto
  from p show ?thesis
    by (auto simp: kv_put_def Let_def dest!: v w d intro: confined_trans split: sum.splits if_splits)
qed

lemma kv_set_inside: "kv_set B P c s t rng path v = (s', r) \<Longrightarrow> confined kv_record (E s) (E s')"
  by (auto simp: kv_set_def dest: kv_put_inside split: sum.splits if_splits)

lemma kv_rollback_inside: "kv_rollback B P c s t rng path n = (s', r) \<Longrightarrow> confined kv_record (E s) (E s')"
  by (auto simp: kv_rollback_def dest: kv_set_inside split: sum.splits)

lemma kv_delete_inside: "kv_delete B P c s t rng path = Inr s' \<Longrightarrow> confined kv_record (E s) (E s')"
proof -
  have w: "confined kv_record (E s1) (E s2)" if "write_meta B P c s1 t rng i e = Inr s2" for s1 s2 i e
    using write_meta_E[OF that] by auto
  show "kv_delete B P c s t rng path = Inr s' \<Longrightarrow> ?thesis"
    by (auto simp: kv_delete_def dest: w split: sum.splits)
qed

lemma save_transit_inside: "save_transit B P c s t rng i m = Inr s' \<Longrightarrow> confined transit_record (E s) (E s')"
  by (drule save_transit_E) auto

lemma transit_inside:
  "transit_create B P c s t rng name = Inr s' \<Longrightarrow> confined transit_record (E s) (E s')"
  "transit_rotate B P c s t rng name = Inr s' \<Longrightarrow> confined transit_record (E s) (E s')"
  by (auto simp: transit_create_def transit_rotate_def transit_extend_def Let_def dest: save_transit_inside split: sum.splits)

lemma secret_wide:
  "confined kv_record a b \<Longrightarrow> confined secret_key a b" "confined transit_record a b \<Longrightarrow> confined secret_key a b"
  using kv_record_secret transit_record_secret unfolding confined_def by blast+

lemma kv_set_confined: "kv_set B P c s t rng path v = (s', r) \<Longrightarrow> confined secret_key (E s) (E s')"
  by (rule secret_wide(1)[OF kv_set_inside])

lemma kv_rollback_confined: "kv_rollback B P c s t rng path n = (s', r) \<Longrightarrow> confined secret_key (E s) (E s')"
  by (rule secret_wide(1)[OF kv_rollback_inside])

lemma kv_delete_confined: "kv_delete B P c s t rng path = Inr s' \<Longrightarrow> confined secret_key (E s) (E s')"
  by (rule secret_wide(1)[OF kv_delete_inside])

lemma transit_confined:
  "transit_create B P c s t rng name = Inr s' \<Longrightarrow> confined secret_key (E s) (E s')"
  "transit_rotate B P c s t rng name = Inr s' \<Longrightarrow> confined secret_key (E s) (E s')"
  by (auto intro: secret_wide(2) dest: transit_inside)

end

context auth_base
begin

lemma put_rec_confined: "put_rec B enc s t key d = Inr s' \<Longrightarrow> Z key \<Longrightarrow> confined Z (E s) (E s')"
  by (auto simp: put_rec_E dest: db.set_key_E)

lemma db_delete_confined: "db_delete B s t key = Inr s' \<Longrightarrow> Z key \<Longrightarrow> confined Z (E s) (E s')"
  by (drule db.del_E) simp

lemma account_confined:
  "admin_create B P s t rng name pol = Inr (s', token) \<Longrightarrow> confined account_key (E s) (E s')"
  "admin_delete B s t name = Inr s' \<Longrightarrow> confined account_key (E s) (E s')"
  "register_service B s t svc = Inr s' \<Longrightarrow> confined account_key (E s) (E s')"
  "delete_service B s t name = Inr s' \<Longrightarrow> confined account_key (E s) (E s')"
  "register_totp B s t rec = Inr s' \<Longrightarrow> confined account_key (E s) (E s')"
  "user_create B P s t rng name pw pol = Inr s' \<Longrightarrow> confined account_key (E s) (E s')"
  "user_delete B s t name = Inr s' \<Longrightarrow> confined account_key (E s) (E s')"
  "user_change_policy B P s t name pol = Inr s' \<Longrightarrow> confined account_key (E s) (E s')"
  "user_change_password B P s t rng name pw = Inr s' \<Longrightarrow> confined account_key (E s) (E s')"
  by (auto simp: admin_create_def admin_delete_def register_service_def delete_service_def register_totp_def
      user_create_def user_delete_def user_change_policy_def user_change_password_def Let_def
      intro: put_rec_confined db_delete_confined split: sum.splits)

lemma session_confined:
  "session_issue B P ttl s t rng identity meth pol = Inr (s', token) \<Longrightarrow> confined token_key (E s) (E s')"
  "session_revoke B P s t tok = Inr s' \<Longrightarrow> confined token_key (E s) (E s')"
  "session_validate B P s t tok = (s', r) \<Longrightarrow> confined token_key (E s) (E s')"
proof -
  assume "session_issue B P ttl s t rng identity meth pol = Inr (s', token)"
  then show "confined token_key (E s) (E s')"
  proof (cases rule: issue_cases)
    case (1 raw h data)
    then show ?thesis using db.set_ttl_E[OF 1(5)] by auto
  qed
next
  show "session_revoke B P s t tok = Inr s' \<Longrightarrow> confined token_key (E s) (E s')"
    by (auto dest: revoke_E)
  show "session_validate B P s t tok = (s', r) \<Longrightarrow> confined token_key (E s) (E s')"
    by (drule validate_E) auto
qed

lemma audit_log_confined: "audit_log B P wr s f t i e = ((s', f'), r) \<Longrightarrow> confined audit_zone (E s) (E s')"
  by (auto simp: audit_log_def Let_def dest!: db.set_key_E split: sum.splits prod.splits)

end

end
