(* ===== verification/Api_Guards.thy ===== *)
theory Api_Guards
  imports Api_Zones
begin

text \<open>
  What the handlers behind the authentication may do: each is confined to its zone, a secret
  handler does nothing for a caller whose policy does not grant what the request needs, and an
  administration handler does nothing for a caller who is no administrator.
\<close>

section \<open>The step of a handler\<close>

text \<open>The database moves within a zone and the audit file stays as it is.\<close>

definition moves :: "('s \<Rightarrow> contents) \<Rightarrow> (string \<Rightarrow> bool) \<Rightarrow> 's server \<Rightarrow> 's server \<Rightarrow> bool" where
  "moves E Z s s' \<longleftrightarrow> confined Z (E (sv_db s)) (E (sv_db s')) \<and> sv_log s' = sv_log s"

lemma moves_refl [simp, intro]: "moves E Z s s"
  by (simp add: moves_def)

lemma moves_db: "confined Z (E (sv_db s)) (E db) \<Longrightarrow> moves E Z s (s\<lparr>sv_db := db\<rparr>)"
  by (simp add: moves_def)

lemma moves_other [simp]: "moves E Z s (s\<lparr>sv_engine := e\<rparr>)" "moves E Z s (s\<lparr>sv_challenges := ch\<rparr>)"
  by (simp_all add: moves_def)

lemma moves_mono: "moves E Z s s' \<Longrightarrow> (\<And>k. Z k \<Longrightarrow> Y k) \<Longrightarrow> moves E Y s s'"
  unfolding moves_def using confined_mono by blast

lemma moves_trans: "moves E Z a b \<Longrightarrow> moves E Z b c \<Longrightarrow> moves E Z a c"
  unfolding moves_def using confined_trans by auto

section \<open>What a request to the secrets needs\<close>

definition kv_object :: "string \<Rightarrow> string" where
  "kv_object path = ''secrets/kv/'' @ path"

definition needs_kv :: "request \<Rightarrow> (string \<times> capability) option" where
  "needs_kv r = (let path = trim_prefix (req_path r) kv_prefix in
     if has_suffix (req_path r) ''/rollback'' \<and> req_method r = ''POST''
     then Some (kv_object (trim_suffix path ''/rollback''), CapWrite)
     else if req_method r = ''GET'' then
       Some (if has_suffix path ''/'' then (kv_object path, CapList)
             else if has_suffix path ''/versions'' then (kv_object (trim_suffix path ''/versions''), CapRead)
             else (kv_object path, CapRead))
     else if req_method r = ''PUT'' then Some (kv_object path, CapWrite)
     else if req_method r = ''DELETE'' then Some (kv_object path, CapDelete)
     else None)"

definition transit_object :: "request \<Rightarrow> string \<Rightarrow> string" where
  "transit_object r suffix = ''secrets/transit/'' @ transit_key_name (req_path r) suffix"

definition needs_transit :: "request \<Rightarrow> (string \<times> capability) option" where
  "needs_transit r = (if has_suffix (req_path r) ''/create'' then Some (transit_object r ''/create'', CapWrite)
     else if has_suffix (req_path r) ''/encrypt'' then Some (transit_object r ''/encrypt'', CapEncrypt)
     else if has_suffix (req_path r) ''/decrypt'' then Some (transit_object r ''/decrypt'', CapDecrypt)
     else if has_suffix (req_path r) ''/rotate'' then Some (transit_object r ''/rotate'', CapWrite)
     else if has_suffix (req_path r) ''/info'' then Some (transit_object r ''/info'', CapRead)
     else None)"

fun needs :: "route \<Rightarrow> request \<Rightarrow> (string \<times> capability) option" where
  "needs RKV r = needs_kv r"
| "needs RTransit r = needs_transit r"
| "needs _ r = None"

text \<open>The refusals a secret handler gives: by policy, and by the gate of transit key creation.\<close>

definition refusals :: "ctx \<Rightarrow> response set" where
  "refusals c = {write_error_rid (get_request_id c) 403 ''permission denied'', write_error 403 ''admin access required''}"

lemmas answer_defs = refuse_def refuse_rid_def fail_with_def ok_strings_def ok_json_def permission_denied_def

lemma kv_refused:
  "needs_kv r = Some (obj, cap) \<Longrightarrow> \<not> allowed_here c s obj cap \<Longrightarrow>
   handle_kv v out r c s = (s, permission_denied c)"
proof -
  assume n: "needs_kv r = Some (obj, cap)" and d: "\<not> allowed_here c s obj cap"
  consider (rollback) "has_suffix (req_path r) ''/rollback''" "req_method r = ''POST''"
    | (other) "\<not> (has_suffix (req_path r) ''/rollback'' \<and> req_method r = ''POST'')" by blast
  then show ?thesis
  proof cases
    case rollback
    then show ?thesis using n d by (simp add: needs_kv_def handle_kv_def handle_kv_rollback_def kv_object_def Let_def)
  next
    case other
    consider "req_method r = ''GET''" | "req_method r = ''PUT''" | "req_method r = ''DELETE''"
      using n other by (auto simp: needs_kv_def Let_def split: if_splits)
    then show ?thesis
    proof cases
      case 1
      then have g: "handle_kv v out r c s = handle_kv_get v out r c s" by (simp add: handle_kv_def)
      show ?thesis using n d 1
        by (simp add: g needs_kv_def handle_kv_get_def kv_object_def Let_def split: if_splits)
    next
      case 2
      then show ?thesis using n d by (simp add: needs_kv_def handle_kv_def handle_kv_put_def kv_object_def Let_def)
    next
      case 3
      then show ?thesis using n d by (simp add: needs_kv_def handle_kv_def handle_kv_delete_def kv_object_def Let_def)
    qed
  qed
qed

text \<open>The branches of the transit handler, with what each needs.\<close>

lemma transit_cases:
  fixes v :: "'s env"
  obtains (creates) "handle_transit v out r c s = with_admin handle_transit_create v out r c s"
      "needs_transit r = Some (transit_object r ''/create'', CapWrite)"
    | (encrypts) "handle_transit v out r c s = handle_transit_encrypt v out r c s"
      "needs_transit r = Some (transit_object r ''/encrypt'', CapEncrypt)"
    | (decrypts) "handle_transit v out r c s = handle_transit_decrypt v out r c s"
      "needs_transit r = Some (transit_object r ''/decrypt'', CapDecrypt)"
    | (rotates) "handle_transit v out r c s = handle_transit_rotate v out r c s"
      "needs_transit r = Some (transit_object r ''/rotate'', CapWrite)"
    | (informs) "handle_transit v out r c s = handle_transit_info v out r c s"
      "needs_transit r = Some (transit_object r ''/info'', CapRead)"
    | (neither) "handle_transit v out r c s = (s, refuse 404 ''not found'')" "needs_transit r = None"
proof (cases "has_suffix (req_path r) ''/create''")
  case True
  then show ?thesis by (intro creates) (simp_all add: handle_transit_def needs_transit_def)
next
  case nc: False
  show ?thesis
  proof (cases "has_suffix (req_path r) ''/encrypt''")
    case True
    with nc show ?thesis by (intro encrypts) (simp_all add: handle_transit_def needs_transit_def)
  next
    case ne: False
    show ?thesis
    proof (cases "has_suffix (req_path r) ''/decrypt''")
      case True
      with nc ne show ?thesis by (intro decrypts) (simp_all add: handle_transit_def needs_transit_def)
    next
      case nd: False
      show ?thesis
      proof (cases "has_suffix (req_path r) ''/rotate''")
        case True
        with nc ne nd show ?thesis by (intro rotates) (simp_all add: handle_transit_def needs_transit_def)
      next
        case False
        with nc ne nd show ?thesis
          by (cases "has_suffix (req_path r) ''/info''")
            (simp_all add: informs neither handle_transit_def needs_transit_def)
      qed
    qed
  qed
qed

lemma transit_refused:
  assumes "needs_transit r = Some (obj, cap)" "\<not> allowed_here c s obj cap"
  shows "\<exists>x\<in>refusals c. handle_transit v out r c s = (s, Done x)"
proof -
  have denied: "\<exists>x\<in>refusals c. (s, permission_denied c) = (s, Done x)"
    by (simp add: refusals_def answer_defs)
  show ?thesis
  proof (cases rule: transit_cases[of v out r c s])
    case creates
    then show ?thesis using assms denied
      by (auto simp: with_admin_def handle_transit_create_def transit_object_def Let_def refusals_def)
  next
    case encrypts
    then show ?thesis using assms denied by (simp add: handle_transit_encrypt_def transit_object_def Let_def)
  next
    case decrypts
    then show ?thesis using assms denied by (simp add: handle_transit_decrypt_def transit_object_def Let_def)
  next
    case rotates
    then show ?thesis using assms denied by (simp add: handle_transit_rotate_def transit_object_def Let_def)
  next
    case informs
    then show ?thesis using assms denied by (simp add: handle_transit_info_def transit_object_def Let_def)
  qed (use assms in simp)
qed

lemma needs_refused:
  assumes "needs rt r = Some (obj, cap)" "\<not> allowed_here c s obj cap"
  shows "\<exists>x\<in>refusals c. route_handler rt v out r c s = (s, Done x)"
proof (cases rt)
  case RKV
  with assms kv_refused show ?thesis by (fastforce simp: refusals_def answer_defs)
next
  case RTransit
  with assms transit_refused show ?thesis by fastforce
qed (use assms in simp_all)

lemma kv_unneeded: "needs_kv r = None \<Longrightarrow> handle_kv v out r c s = (s, refuse 405 ''method not allowed'')"
  by (auto simp: needs_kv_def handle_kv_def Let_def split: if_splits)

lemma transit_unneeded:
  assumes "needs_transit r = None"
  shows "handle_transit v out r c s = (s, refuse 404 ''not found'')"
  using assms by (cases rule: transit_cases[of v out r c s]) simp_all

text \<open>Only requests that need write or delete change the server at all.\<close>

lemma kv_get_reads: "fst (handle_kv_get v out r c s) = s"
  by (auto simp: handle_kv_get_def Let_def split: sum.splits option.splits)

lemma kv_reads:
  "needs_kv r = Some (obj, cap) \<Longrightarrow> cap \<noteq> CapWrite \<Longrightarrow> cap \<noteq> CapDelete \<Longrightarrow> fst (handle_kv v out r c s) = s"
  by (auto simp: needs_kv_def handle_kv_def Let_def kv_get_reads split: if_splits)

lemma transit_reads:
  assumes "needs_transit r = Some (obj, cap)" "cap \<noteq> CapWrite"
  shows "fst (handle_transit v out r c s) = s"
  using assms
  by (cases rule: transit_cases[of v out r c s])
    (auto simp: handle_transit_encrypt_def handle_transit_decrypt_def handle_transit_info_def Let_def
      split: sum.splits option.splits outcome.splits)

section \<open>The administrator gate\<close>

definition admin_routes :: "route set" where
  "admin_routes = {RStatus, REnroll, RRevoke, RAudit, RAdminCreate, RAdmin, RPolicyReload, RUsers, RUser}"

lemma admin_refused:
  "rt \<in> admin_routes \<Longrightarrow> \<not> env_dev v \<Longrightarrow> ctx_method c \<noteq> Some ''admin_token'' \<Longrightarrow>
   route_handler rt v out r c s = (s, Done (write_error 403 ''admin access required''))"
  by (cases "ctx_method c") (auto simp: admin_routes_def with_admin_def)

section \<open>Zones of the handlers\<close>

locale api = vault "env_db v" E "env_prims v" "env_crypto v"
  for v :: "'s env" and E :: "'s \<Rightarrow> contents"

context api
begin

lemma kv_writes_zone:
  "handle_kv_put v out r c s = (s', x) \<Longrightarrow> moves E secret_key s s'"
  "handle_kv_rollback v out r c s = (s', x) \<Longrightarrow> moves E secret_key s s'"
  "handle_kv_delete v out r c s = (s', x) \<Longrightarrow> moves E secret_key s s'"
  by (auto simp: handle_kv_put_def handle_kv_rollback_def handle_kv_delete_def Let_def
      intro!: moves_db dest: kv_set_confined kv_rollback_confined kv_delete_confined
      split: if_splits sum.splits option.splits prod.splits)

lemma kv_zone:
  assumes "handle_kv v out r c s = (s', x)"
  shows "moves E secret_key s s'"
proof -
  have "s' = s" if "handle_kv_get v out r c s = (s', x)" using kv_get_reads[of v out r c s] that by simp
  then show ?thesis using assms kv_writes_zone by (auto simp: handle_kv_def split: if_splits)
qed

lemma transit_zone:
  assumes "handle_transit v out r c s = (s', x)"
  shows "moves E secret_key s s'"
  using assms
  by (cases rule: transit_cases[of v out r c s])
    (auto simp: with_admin_def handle_transit_create_def handle_transit_encrypt_def handle_transit_decrypt_def
      handle_transit_rotate_def handle_transit_info_def Let_def
      intro!: moves_db intro: transit_confined split: if_splits sum.splits option.splits outcome.splits)

lemma logout_zone: "handle_logout v out r c s = (s', x) \<Longrightarrow> moves E token_key s s'"
  by (auto simp: handle_logout_def Let_def intro!: moves_db dest: auth.session_confined(2) split: if_splits sum.splits)

lemma account_moves: "confined account_key (E (sv_db s)) (E db) \<Longrightarrow> moves E account_key s (s\<lparr>sv_db := db\<rparr>)"
  by (rule moves_db)

lemmas account_intros = auth.account_confined[THEN account_moves]

lemma sys_zone:
  "handle_enroll v out r c s = (s', x) \<Longrightarrow> moves E account_key s s'"
  "handle_revoke v out r c s = (s', x) \<Longrightarrow> moves E account_key s s'"
  "handle_admin_create v out r c s = (s', x) \<Longrightarrow> moves E account_key s s'"
  "handle_admin_delete v out r c s = (s', x) \<Longrightarrow> moves E account_key s s'"
  "handle_policy_reload v out r c s = (s', x) \<Longrightarrow> moves E account_key s s'"
  by (auto simp: handle_enroll_def handle_revoke_def handle_admin_create_def handle_admin_delete_def
      handle_policy_reload_def Let_def intro: account_intros split: sum.splits option.splits prod.splits if_splits)

lemma user_zone:
  "handle_users v out r c s = (s', x) \<Longrightarrow> moves E account_key s s'"
  "handle_user v out r c s = (s', x) \<Longrightarrow> moves E account_key s s'"
  by (auto simp: handle_users_def handle_user_def handle_user_create_def handle_user_list_def
      handle_user_delete_def handle_user_update_def Let_def intro: account_intros
      split: sum.splits option.splits prod.splits if_splits)

lemma admin_zone:
  assumes "rt \<in> admin_routes" "route_handler rt v out r c s = (s', x)"
  shows "moves E account_key s s'"
proof -
  have "handle_status v out r c s = (s', x) \<Longrightarrow> moves E account_key s s'"
    "handle_audit v out r c s = (s', x) \<Longrightarrow> moves E account_key s s'"
    by (auto simp: handle_status_def handle_audit_def split: sum.splits if_splits)
  then show ?thesis using assms sys_zone user_zone
    unfolding admin_routes_def by (cases rt) (simp_all add: with_admin_def split: if_splits)
qed

end

end
