(* ===== verification/Api_Serve.thy ===== *)
theory Api_Serve
  imports Api_Guards
begin

text \<open>
  A whole request: what the public handlers and the middlewares write, and where a change of the
  database by a request can come from.
\<close>

text \<open>What any request may write beside its handler: sessions and the audit log.\<close>

definition trail_key :: "string \<Rightarrow> bool" where
  "trail_key k \<longleftrightarrow> token_key k \<or> audit_zone k"

lemma token_trail: "token_key k \<Longrightarrow> trail_key k"
  by (simp add: trail_key_def)

lemma audit_trail: "audit_zone k \<Longrightarrow> trail_key k"
  by (simp add: trail_key_def)

lemma trail_disjoint: "secret_key k \<Longrightarrow> \<not> trail_key k" "account_key k \<Longrightarrow> \<not> trail_key k"
  using zones_disjoint by (auto simp: trail_key_def)

definition quiet :: "('s \<Rightarrow> contents) \<Rightarrow> (string \<Rightarrow> bool) \<Rightarrow> 's server \<Rightarrow> 's server \<Rightarrow> bool" where
  "quiet E Z s s' \<longleftrightarrow> confined Z (E (sv_db s)) (E (sv_db s'))"

lemma quiet_refl [simp, intro]: "quiet E Z s s"
  by (simp add: quiet_def)

lemma quiet_trans: "quiet E Z a b \<Longrightarrow> quiet E Z b c \<Longrightarrow> quiet E Z a c"
  unfolding quiet_def by (rule confined_trans)

lemma quiet_mono: "quiet E Z a b \<Longrightarrow> (\<And>k. Z k \<Longrightarrow> Y k) \<Longrightarrow> quiet E Y a b"
  unfolding quiet_def by (rule confined_mono)

lemma moves_quiet: "moves E Z s s' \<Longrightarrow> quiet E Z s s'"
  by (simp add: moves_def quiet_def)

lemma quiet_challenges: "quiet E Z (s\<lparr>sv_challenges := ch\<rparr>) s' = quiet E Z s s'"
  by (simp add: quiet_def)

context api
begin

lemma authenticate_step:
  assumes "authenticate v out r s = (s1, d)"
  shows "moves E token_key s s1" and "sv_engine s1 = sv_engine s"
proof -
  have "moves E token_key s s1 \<and> sv_engine s1 = sv_engine s"
  proof (cases "\<not> env_dev v \<and> has_prefix (extract_token r) ''lvt_'' \<and> extract_token r \<noteq> []")
    case True
    obtain db x where x: "session_validate (env_db v) (env_prims v) (sv_db s) (out_clock out 1) (extract_token r) = (db, x)"
      by (cases "session_validate (env_db v) (env_prims v) (sv_db s) (out_clock out 1) (extract_token r)")
    then have "s1 = s\<lparr>sv_db := db\<rparr>" using assms True by (simp add: authenticate_def Let_def split: sum.splits)
    with auth.session_confined(3)[OF x] show ?thesis by (simp add: moves_db)
  next
    case False
    then have "s1 = s" using assms by (auto simp: authenticate_def Let_def split: if_splits sum.splits)
    then show ?thesis by simp
  qed
  then show "moves E token_key s s1" "sv_engine s1 = sv_engine s" by auto
qed

lemma log_entry_quiet: "quiet E trail_key s (log_entry v out n e s)"
proof -
  obtain db f x where x: "audit_log (env_db v) (env_prims v) (out_write out) (sv_db s) (sv_log s)
      (out_clock out n) (out_ids out n) e = ((db, f), x)"
    by (metis prod.exhaust)
  then have "confined audit_zone (E (sv_db s)) (E db)" by (rule auth.audit_log_confined)
  from confined_mono[OF this audit_trail] have "confined trail_key (E (sv_db s)) (E db)" .
  with x show ?thesis by (simp add: log_entry_def quiet_def)
qed

lemma log_auth_quiet: "quiet E trail_key s (log_auth_attempt v out r c i m st s)"
  by (simp add: log_auth_attempt_def log_entry_quiet)

lemma issue_session_quiet:
  assumes "issue_session v out r c i m p s = (s', x)"
  shows "quiet E trail_key s s'"
proof (cases "session_issue (env_db v) (env_prims v) (session_ttl v) (sv_db s) (out_clock out 3) (rng_from 8 (out_rng out)) i m p")
  case (Inr y)
  obtain db token where y: "y = (db, token)" by (cases y)
  have "confined token_key (E (sv_db s)) (E db)" using auth.session_confined(1)[OF Inr[unfolded y]] .
  from confined_mono[OF this token_trail] have "quiet E trail_key s (s\<lparr>sv_db := db\<rparr>)"
    by (simp add: quiet_def)
  from quiet_trans[OF this log_auth_quiet] show ?thesis using assms Inr y by (auto simp: issue_session_def)
qed (use assms in \<open>auto simp: issue_session_def\<close>)

lemma login_quiet:
  "handle_verify v out r c s = (s', x) \<Longrightarrow> quiet E trail_key s s'"
  "handle_totp_login v out r c s = (s', x) \<Longrightarrow> quiet E trail_key s s'"
  "handle_admin_login v out r c s = (s', x) \<Longrightarrow> quiet E trail_key s s'"
  "handle_user_login v out r c s = (s', x) \<Longrightarrow> quiet E trail_key s s'"
  "handle_challenge v out r c s = (s', x) \<Longrightarrow> quiet E trail_key s s'"
proof -
  have ch: "quiet E trail_key s (log_auth_attempt v out r c i m st (s\<lparr>sv_challenges := y\<rparr>))" for i m st y
    using log_auth_quiet[of "s\<lparr>sv_challenges := y\<rparr>"] by (simp add: quiet_challenges)
  have iss: "issue_session v out r c i m p (s\<lparr>sv_challenges := y\<rparr>) = (s', x) \<Longrightarrow> quiet E trail_key s s'" for i m p y
    using issue_session_quiet[of out r c i m p "s\<lparr>sv_challenges := y\<rparr>"] by (simp add: quiet_challenges)
  have sc: "quiet E trail_key s (s\<lparr>sv_challenges := y\<rparr>)" for y by (simp add: quiet_def)
  show "handle_verify v out r c s = (s', x) \<Longrightarrow> quiet E trail_key s s'"
    by (auto simp: handle_verify_def ch sc dest: iss split: option.splits prod.splits outcome.splits sum.splits)
  show "handle_challenge v out r c s = (s', x) \<Longrightarrow> quiet E trail_key s s'"
    by (auto simp: handle_challenge_def ch log_auth_quiet split: option.splits prod.splits sum.splits if_splits)
  show "handle_totp_login v out r c s = (s', x) \<Longrightarrow> quiet E trail_key s s'"
    "handle_admin_login v out r c s = (s', x) \<Longrightarrow> quiet E trail_key s s'"
    "handle_user_login v out r c s = (s', x) \<Longrightarrow> quiet E trail_key s s'"
    by (auto simp: handle_totp_login_def handle_admin_login_def handle_user_login_def log_auth_quiet
        dest: issue_session_quiet split: option.splits prod.splits sum.splits)
qed

lemma route_quiet:
  assumes "route_handler rt v out r c s = (s', x)"
  shows "quiet E (\<lambda>k. (if rt \<in> admin_routes then account_key k else secret_key k) \<or> trail_key k) s s'"
proof (cases "rt \<in> admin_routes")
  case True
  with admin_zone[OF True assms] show ?thesis by (auto intro: quiet_mono dest!: moves_quiet)
next
  case False
  have "quiet E (\<lambda>k. secret_key k \<or> trail_key k) s s'"
  proof (cases rt)
    case RKV
    with kv_zone[of out r c s s' x] assms show ?thesis by (auto intro: quiet_mono dest!: moves_quiet)
  next
    case RTransit
    with transit_zone[of out r c s s' x] assms show ?thesis by (auto intro: quiet_mono dest!: moves_quiet)
  next
    case RSession
    with assms have "handle_logout v out r c s = (s', x)" by simp
    from quiet_mono[OF moves_quiet[OF logout_zone[OF this]]] show ?thesis by (simp add: token_trail)
  next
    case RWhoAmI
    with assms show ?thesis by (simp add: handle_whoami_def)
  qed (use False in \<open>simp_all add: admin_routes_def\<close>)
  with False show ?thesis by simp
qed

text \<open>A change outside the trail comes from a handler behind the authentication.\<close>

lemma serve_change:
  assumes "serve v out r s = (s', rid, resp)" and "E (sv_db s') k \<noteq> E (sv_db s) k" and "\<not> trail_key k"
  obtains s1 a rt s2 x where "mux_route public_routes r = MuxHandler PProtected"
    "authenticate v out r s = (s1, Inr a)" "mux_route authed_routes r = MuxHandler rt"
    "route_handler rt v out r (authed_ctx out a) s1 = (s2, x)" "E (sv_db s2) k \<noteq> E (sv_db s1) k"
proof -
  have loud: "\<not> quiet E trail_key s s'" using assms(2,3) confined_changed unfolding quiet_def by metis
  have m: "mux_serve public_routes public_handler v out r (first_ctx out) s = (s', resp)"
    using assms(1) by (auto simp: serve_eq split: prod.splits)
  then obtain p where p: "mux_route public_routes r = MuxHandler p" "public_handler p v out r (first_ctx out) s = (s', resp)"
    using loud by (auto simp: mux_serve_def split: mux_result.splits)
  have pp: "p = PProtected"
    using p(2) loud login_quiet by (cases p) (auto simp: handle_health_def)
  then have prot: "protected_handler v out r (first_ctx out) s = (s', resp)" using p(2) by simp
  have tail: "E (sv_db s') k = E (sv_db s2) k"
    if "s' = (if env_audit v then log_entry v out 5 e s2 else s2)" for s2 e
    using that log_entry_quiet[of s2 out 5] assms(3) by (auto simp: quiet_def confined_def)
  have head: "E (sv_db s1) k = E (sv_db s) k" if "authenticate v out r s = (s1, d)" for s1 d
    using authenticate_step(1)[OF that] assms(3) by (simp add: moves_def confined_def trail_key_def)
  note goal = that
  have inner: thesis if a: "authenticate v out r s = (s1, Inr a)"
    and r: "mux_serve authed_routes route_handler v out r (authed_ctx out a) s1 = (s2, x)"
    and c: "E (sv_db s') k = E (sv_db s2) k" for s1 s2 a x
  proof -
    have ne: "E (sv_db s2) k \<noteq> E (sv_db s1) k" using c assms(2) head[OF a] by simp
    then obtain rt where "mux_route authed_routes r = MuxHandler rt"
        "route_handler rt v out r (authed_ctx out a) s1 = (s2, x)"
      using r by (auto simp: mux_serve_def split: mux_result.splits)
    then show thesis using goal[of s1 a rt s2 x] p(1) pp a ne by blast
  qed
  from prot show thesis
  proof (cases rule: protected_cases)
    case (refused s1 a msg)
    then show ?thesis using tail[OF refused(3)] head[OF refused(1)] assms(2) by simp
  next
    case (panicked s1 a m)
    then show ?thesis using inner by blast
  next
    case (answered s1 s2 a x)
    then show ?thesis using inner tail by blast
  qed
qed

lemma log_entry_keeps: "\<not> audit_zone k \<Longrightarrow> E (sv_db (log_entry v out n e s)) k = E (sv_db s) k"
proof -
  assume k: "\<not> audit_zone k"
  obtain db f x where x: "audit_log (env_db v) (env_prims v) (out_write out) (sv_db s) (sv_log s)
      (out_clock out n) (out_ids out n) e = ((db, f), x)"
    by (metis prod.exhaust)
  then have "confined audit_zone (E (sv_db s)) (E db)" by (rule auth.audit_log_confined)
  with k x show ?thesis by (simp add: log_entry_def confined_def)
qed

end

end
