(* ===== verification/Api_Secrets.thy ===== *)
theory Api_Secrets
  imports Api_Serve KV_Props Transit_Props
begin

text \<open>
  What a reader of the secret engines sees depends on the records of secrets only, so that sessions,
  accounts and the audit log can change underneath.
\<close>

context vault
begin

lemma get_meta_agree:
  "E s' (kv_meta_key path) = E s (kv_meta_key path) \<Longrightarrow> get_meta B P c s' t path = get_meta B P c s t path"
  unfolding get_meta_def by (rule mv.load_visible) (auto simp: visible_def)

lemma get_version_agree:
  "E s' (kv_version_key path w) = E s (kv_version_key path w) \<Longrightarrow>
   get_version B P c s' t path w = get_version B P c s t path w"
  unfolding get_version_def by (rule ev.load_visible) (auto simp: visible_def)

lemma load_transit_agree:
  "E s' (transit_key name) = E s (transit_key name) \<Longrightarrow> load_transit B P c s' t name = load_transit B P c s t name"
  using tk.load_visible[of "transit_key name" s' t s t] by (simp add: load_transit_def visible_def)

lemma kv_rep_agree:
  assumes "kv_rep B P c s path x" "\<And>k. kv_record k \<Longrightarrow> E s' k = E s k"
  shows "kv_rep B P c s' path x"
  using assms(1)
proof (rule kv_rep_same)
  show "get_meta B P c s' t path = get_meta B P c s t path" for t by (rule get_meta_agree) (simp add: assms(2))
  show "get_version B P c s' t path w = get_version B P c s t path w" for t w
    by (rule get_version_agree) (simp add: assms(2))
qed

lemma transit_rep_agree:
  assumes "transit_rep B P c s name x" "\<And>k. transit_record k \<Longrightarrow> E s' k = E s k"
  shows "transit_rep B P c s' name x"
proof -
  have "load_transit B P c s' t name = load_transit B P c s t name" for t
    by (rule load_transit_agree) (simp add: assms(2))
  then show ?thesis using assms(1) by (cases x) (simp_all add: transit_rep_def)
qed

lemma kv_inv_agree: "kv_inv B P c n s \<Longrightarrow> (\<And>k. kv_record k \<Longrightarrow> E s' k = E s k) \<Longrightarrow> kv_inv B P c n s'"
  unfolding kv_inv_def using kv_rep_agree[of s _ _ s'] by meson

lemma transit_inv_agree:
  "transit_inv B P c n s \<Longrightarrow> (\<And>k. transit_record k \<Longrightarrow> E s' k = E s k) \<Longrightarrow> transit_inv B P c n s'"
  unfolding transit_inv_def using transit_rep_agree[of s _ _ s'] by meson

text \<open>The engines do not touch each other's records.\<close>

lemma kv_step_apart: "kv_step B P c s s' \<Longrightarrow> confined kv_record (E s) (E s')"
  by (cases rule: kv_step.cases) (auto dest: kv_set_inside kv_delete_inside kv_rollback_inside)

lemma transit_step_apart: "transit_step B P c s s' \<Longrightarrow> confined transit_record (E s) (E s')"
  by (cases rule: transit_step.cases) (auto dest: transit_inside)

end

end
