(* ===== verification/Demo_Api.thy ===== *)
theory Demo_Api
  imports Api_Secrets
begin

text \<open>
  A server on the demonstration database and primitives, and a few requests, for the witnesses of
  the properties of the API.
\<close>

lemma apiI: "badger_laws (env_db v) E \<Longrightarrow> prims_laws (env_prims v) \<Longrightarrow> api v E"
  by (simp add: api_def vaultI)

definition demo_env :: "mem env" where
  "demo_env = \<lparr>env_db = mem_badger, env_prims = demo_prims, env_crypto = demo_crypto, env_dev = False,
     env_audit = True, env_config = config_defaults, env_error_text = (\<lambda>_. ''error''), env_seconds = itoa,
     env_duration_text = itoa, env_parse_duration = parse_int64, env_rfc3339 = itoa,
     env_keypair = (\<lambda>seed. (fill 32 seed, fill 64 seed)), env_start = 0\<rparr>"

definition demo_out :: "time \<Rightarrow> outside" where
  "demo_out t = \<lparr>out_clock = (\<lambda>n. t + int n), out_rng = (\<lambda>i. Some [char_of (64 + i)]), out_ids = (\<lambda>n. ''01'' @ itoa (int n)),
     out_files = \<lparr>read_dir = (\<lambda>_. DirMissing), read_file = (\<lambda>_. None), yaml_policy = (\<lambda>_. None)\<rparr>,
     out_order = (\<lambda>xs. xs), out_write = (\<lambda>f d. (f @ d, True)), out_go_version = ''go'', out_goroutines = 1, out_alloc = 0\<rparr>"

definition demo_server :: "mem \<Rightarrow> mem server" where
  "demo_server db = \<lparr>sv_db = db, sv_engine = new_engine ''policies'', sv_challenges = (\<lambda>_. None), sv_log = []\<rparr>"

definition demo_request :: "string \<Rightarrow> string \<Rightarrow> string \<Rightarrow> string \<Rightarrow> request" where
  "demo_request meth path token body = \<lparr>req_method = meth, req_path = path, req_escaped = path, req_query = [],
     req_headers = (if token = [] then [] else [(''Authorization'', ''Bearer '' @ token)]),
     req_body = body, req_remote = ''10.0.0.1''\<rparr>"

interpretation demo_api: api demo_env map_of
  by (simp add: api_def demo_env_def demo_vault.vault_axioms)

lemma demo_env_simps [simp]:
  "env_db demo_env = mem_badger" "env_prims demo_env = demo_prims" "env_crypto demo_env = demo_crypto"
  "\<not> env_dev demo_env" "env_audit demo_env" "env_config demo_env = config_defaults"
  by (simp_all add: demo_env_def)

lemma demo_env_laws: "badger_laws (env_db demo_env) map_of" "prims_laws (env_prims demo_env)"
  by (simp_all add: mem_laws demo_laws)

lemma demo_out_simps [simp]:
  "out_clock (demo_out t) n = t + int n" "rng_from 1 (out_rng (demo_out t)) = demo_rng"
  "rng_from (Suc 0) (out_rng (demo_out t)) = demo_rng" "out_write (demo_out t) f d = (f @ d, True)"
  by (auto simp: demo_out_def rng_from_def demo_rng_def fun_eq_iff add.commute intro!: arg_cong[of _ _ char_of])

lemma demo_server_simps [simp]:
  "sv_db (demo_server db) = db" "sv_engine (demo_server db) = new_engine ''policies''" "sv_log (demo_server db) = []"
  by (simp_all add: demo_server_def)

lemma demo_request_simps [simp]:
  "req_method (demo_request m p tok b) = m" "req_path (demo_request m p tok b) = p"
  "req_escaped (demo_request m p tok b) = p" "req_body (demo_request m p tok b) = b"
  "req_query (demo_request m p tok b) = []"
  by (simp_all add: demo_request_def)

lemma demo_token [simp]: "extract_token (demo_request m p tok b) = tok"
proof (cases "tok = []")
  case False
  have "has_prefix (''Bearer '' @ tok) ''Bearer ''" by (rule has_prefix_append)
  with False show ?thesis
    by (simp add: extract_token_def demo_request_def header_get_def trim_prefix_def Let_def)
qed (simp add: extract_token_def demo_request_def header_get_def has_prefix_def)

text \<open>Routing looks only at the path.\<close>

lemma mux_route_path:
  "req_method r \<noteq> ''CONNECT'' \<Longrightarrow> mux_route ps r = mux_route ps (demo_request ''GET'' (req_escaped r) [] [])"
  by (simp add: mux_route_def Let_def)

text \<open>A session and its use, from which the requests start.\<close>

lemma demo_session:
  assumes "utf8_ok identity" "utf8_ok meth" "utf8_ok pol"
  obtains db token m where
    "session_issue mem_badger demo_prims hour [] 0 demo_rng identity meth pol = Inr (db, token)"
    "has_prefix token ''lvt_''" "token \<noteq> []" "\<And>k. \<not> token_key k \<Longrightarrow> map_of db k = None"
    "\<And>t. 0 \<le> t \<Longrightarrow> t \<le> minute \<Longrightarrow> \<exists>h. session_validate mem_badger demo_prims db t token = (db, Inr
       \<lparr>sess_identity = identity, sess_method = meth, sess_policy = pol, sess_issued = 0, sess_expires = hour, sess_hash = h\<rparr>)"
proof -
  obtain db token where i: "session_issue mem_badger demo_prims hour [] 0 demo_rng identity meth pol = Inr (db, token)"
    by (simp add: session_issue_def Let_def rand_read_def demo_rng_def hash_argon2id_def json_marshal_def
      enc_session_def enc_time_def time_ok_def second_def hour_def minute_def db_set_with_ttl_def lift_bdg_def mem_badger_def)
  have v: "\<exists>h. session_validate mem_badger demo_prims db t token = (db, Inr
       \<lparr>sess_identity = identity, sess_method = meth, sess_policy = pol, sess_issued = 0, sess_expires = hour, sess_hash = h\<rparr>)"
    if "0 \<le> t" "t \<le> minute" for t
    using demo_auth.session_life[OF i assms, of t] that by (fastforce simp: minute_def hour_def second_def)
  have p: "has_prefix token ''lvt_''" using demo_auth.issue_E[OF i assms] by (metis sessionTokenPrefix_def)
  then have ne: "token \<noteq> []" by (auto simp: has_prefix_def)
  have "confined token_key (map_of []) (map_of db)" by (rule demo_auth.session_confined(1)[OF i])
  then have "\<And>k. \<not> token_key k \<Longrightarrow> map_of db k = None" by (simp add: confined_def)
  from that[OF i p ne this v] show thesis by blast
qed

lemma demo_session_at:
  assumes "utf8_ok identity" "utf8_ok meth" "utf8_ok pol" "0 \<le> t" "t \<le> minute"
  obtains db token m where "has_prefix token ''lvt_''" "token \<noteq> []" "\<And>k. \<not> token_key k \<Longrightarrow> map_of db k = None"
    "session_validate mem_badger demo_prims db t token = (db, Inr m)" "sess_identity m = identity"
    "sess_method m = meth" "sess_policy m = pol"
proof (rule demo_session[OF assms(1-3)])
  fix db token
  assume d: "has_prefix token ''lvt_''" "token \<noteq> []" "\<And>k. \<not> token_key k \<Longrightarrow> map_of db k = None"
    and "\<And>t. 0 \<le> t \<Longrightarrow> t \<le> minute \<Longrightarrow> \<exists>h. session_validate mem_badger demo_prims db t token = (db, Inr
       \<lparr>sess_identity = identity, sess_method = meth, sess_policy = pol, sess_issued = 0, sess_expires = hour, sess_hash = h\<rparr>)"
  from this(4)[OF assms(4,5)] obtain h where "session_validate mem_badger demo_prims db t token = (db, Inr
       \<lparr>sess_identity = identity, sess_method = meth, sess_policy = pol, sess_issued = 0, sess_expires = hour, sess_hash = h\<rparr>)"
    by blast
  from that[OF d this] show thesis by simp
qed

lemma demo_authenticated:
  assumes "session_validate mem_badger demo_prims db (t + 1) token = (db, Inr m)" "has_prefix token ''lvt_''" "token \<noteq> []"
  shows "authenticate demo_env (demo_out t) (demo_request meth path token body) (demo_server db) =
    (demo_server db, Inr \<lparr>as_identity = sess_identity m, as_method = sess_method m, as_policy = sess_policy m\<rparr>)"
  using assms by (simp add: authenticate_def Let_def demo_server_def)

text \<open>A write through the API: an administrator's session puts a secret.\<close>

definition demo_put :: "string \<Rightarrow> request" where
  "demo_put token = demo_request ''PUT'' ''/v1/secrets/kv/a'' token [dquote, CHR ''x'', dquote]"

lemma demo_put_routes:
  "mux_route public_routes (demo_put token) = MuxHandler PProtected"
  "mux_route authed_routes (demo_put token) = MuxHandler RKV"
proof -
  have "mux_route public_routes (demo_request ''GET'' ''/v1/secrets/kv/a'' [] []) = MuxHandler PProtected"
    "mux_route authed_routes (demo_request ''GET'' ''/v1/secrets/kv/a'' [] []) = MuxHandler RKV" by code_simp+
  then show "mux_route public_routes (demo_put token) = MuxHandler PProtected"
    "mux_route authed_routes (demo_put token) = MuxHandler RKV"
    using mux_route_path[of "demo_put token" public_routes] mux_route_path[of "demo_put token" authed_routes]
    by (simp_all add: demo_put_def)
qed

lemma demo_put_path: "trim_prefix ''/v1/secrets/kv/a'' kv_prefix = ''a''" "\<not> has_suffix ''/v1/secrets/kv/a'' ''/rollback''"
    "json_decode [dquote, CHR ''x'', dquote] = Some (JStr ''x'')"
  by code_simp+

lemma demo_fresh: "map_of db (kv_meta_key path) = None \<Longrightarrow> kv_rep mem_badger demo_prims demo_crypto db path None"
  by (simp add: kv_rep_def int64_ok_def values_ok_def get_meta_def load_doc_def db_get_def mem_badger_def visible_def)

lemma demo_put_stored:
  assumes "map_of db (kv_meta_key ''a'') = None" "0 \<le> t" "t \<le> minute"
    "session_validate mem_badger demo_prims db (t + 1) token = (db, Inr m)" "has_prefix token ''lvt_''" "token \<noteq> []"
    "policy_allowed (new_engine ''policies'') (sess_policy m) ''secrets/kv/a'' CapWrite"
  obtains s' rid x where "serve demo_env (demo_out t) (demo_put token) (demo_server db) = (s', rid, Done x)"
    "resp_status x = 200" "kv_rep mem_badger demo_prims demo_crypto (sv_db s') ''a'' (Some (abs_set None (JStr ''x'') (t + 2)))"
proof -
  let ?a = "\<lparr>as_identity = sess_identity m, as_method = sess_method m, as_policy = sess_policy m\<rparr>"
  let ?r = "demo_put token"
  have a: "authenticate demo_env (demo_out t) ?r (demo_server db) = (demo_server db, Inr ?a)"
    unfolding demo_put_def by (rule demo_authenticated[OF assms(4-6)])
  have n: "int64_ok (count None + 1)" by (simp add: int64_ok_def)
  obtain db' e where k: "kv_set mem_badger demo_prims demo_crypto db (t + 2) demo_rng ''a'' (JStr ''x'') = (db', Inr e)"
    using demo_set_ok[OF demo_fresh[OF assms(1)] n, of "t + 2"] assms(2,3)
    by (force simp: time_ok_def second_def minute_def)
  obtain x where h: "route_handler RKV demo_env (demo_out t) ?r (authed_ctx (demo_out t) ?a) (demo_server db) =
      (demo_server db\<lparr>sv_db := db'\<rparr>, Done x)" "resp_status x = 200"
    using k assms(7) demo_put_path
    by (simp add: handle_kv_def handle_kv_put_def demo_put_def allowed_here_def Let_def)
  from serve_answered[OF demo_put_routes(1) a demo_put_routes(2) h(1)] h(2) have
    s: "serve demo_env (demo_out t) ?r (demo_server db) = (log_entry demo_env (demo_out t) 5
       (request_entry (demo_out t) ?r (first_ctx (demo_out t)) ?a 200) (demo_server db\<lparr>sv_db := db'\<rparr>),
       ctx_request_id (first_ctx (demo_out t)), Done x)" by simp
  have rep: "kv_rep mem_badger demo_prims demo_crypto db' ''a'' (Some (abs_set None (JStr ''x'') (t + 2)))"
    using demo_vault.kv_set_rep[OF demo_fresh[OF assms(1)] n demo_path_ok(1) demo_value_ok(1) k] by simp
  have "map_of (sv_db (log_entry demo_env (demo_out t) 5
       (request_entry (demo_out t) ?r (first_ctx (demo_out t)) ?a 200) (demo_server db\<lparr>sv_db := db'\<rparr>))) k = map_of db' k"
    if "kv_record k" for k
    using that kv_record_secret zones_disjoint(1) by (simp add: demo_api.log_entry_keeps)
  from that[OF s h(2) demo_vault.kv_rep_agree[OF rep this]] show thesis .
qed

lemma demo_put_works:
  assumes "map_of db (kv_meta_key ''a'') = None" "0 \<le> t" "t \<le> minute"
    "session_validate mem_badger demo_prims db (t + 1) token = (db, Inr m)" "has_prefix token ''lvt_''" "token \<noteq> []"
    "policy_allowed (new_engine ''policies'') (sess_policy m) ''secrets/kv/a'' CapWrite"
  obtains s' rid x where "serve demo_env (demo_out t) (demo_put token) (demo_server db) = (s', rid, Done x)"
    "resp_status x = 200" "map_of (sv_db s') (kv_meta_key ''a'') \<noteq> None"
proof (rule demo_put_stored[OF assms])
  fix s' rid x
  assume s: "serve demo_env (demo_out t) (demo_put token) (demo_server db) = (s', rid, Done x)" "resp_status x = 200"
    and rep: "kv_rep mem_badger demo_prims demo_crypto (sv_db s') ''a'' (Some (abs_set None (JStr ''x'') (t + 2)))"
  have "map_of (sv_db s') (kv_meta_key ''a'') \<noteq> None"
  proof
    assume "map_of (sv_db s') (kv_meta_key ''a'') = None"
    from demo_fresh[OF this] rep show False by (simp add: kv_rep_def)
  qed
  from that[OF s this] show thesis .
qed

end
