(* ===== verification/Audit_Log_Props.thy ===== *)
theory Audit_Log_Props
  imports Audit_Log Auth_Records "HOL-Library.Multiset"
begin

text \<open>
  The properties of the audit log: what a line of the file is, what a query finds, and what the
  limit of a query does not promise.
\<close>

section \<open>Queries\<close>

text \<open>The entries that a list of stored texts holds, in its order, and those that match.\<close>

definition audit_hits :: "prims \<Rightarrow> query_options \<Rightarrow> time \<Rightarrow> bytes list \<Rightarrow> audit_entry list" where
  "audit_hits P opts since ds = filter (audit_matches opts since)
     (List.map_filter (\<lambda>d. case json_unmarshal (dec_audit P) d of Inl _ \<Rightarrow> None | Inr e \<Rightarrow> Some e) ds)"

lemma audit_hits_simps [simp]:
  "audit_hits P opts since [] = []"
  "audit_hits P opts since (d # ds) = (case json_unmarshal (dec_audit P) d of
     Inl _ \<Rightarrow> audit_hits P opts since ds
   | Inr e \<Rightarrow> if audit_matches opts since e then e # audit_hits P opts since ds else audit_hits P opts since ds)"
  by (auto simp: audit_hits_def map_filter_simps split: sum.splits)

lemma audit_loop_unlimited: "opt_limit opts \<le> 0 \<Longrightarrow> audit_loop P opts since n ds = audit_hits P opts since ds"
  by (induction P opts since n ds rule: audit_loop.induct) (auto split: sum.splits)

lemma audit_loop_limited:
  "n < opt_limit opts \<Longrightarrow> 0 \<le> n \<Longrightarrow>
   audit_loop P opts since n ds = take (nat (opt_limit opts - n)) (audit_hits P opts since ds)"
proof (induction P opts since n ds rule: audit_loop.induct)
  case (2 P opts since n d ds)
  have "nat (opt_limit opts - n) = Suc (nat (opt_limit opts - (n + 1)))" using 2(4) by linarith
  then show ?case using 2 by (auto split: sum.splits)
qed simp

text \<open>The limit of a query as a bound on the number of its results.\<close>

definition cut :: "int \<Rightarrow> 'a list \<Rightarrow> 'a list" where
  "cut limit xs = (if 0 < limit then take (nat limit) xs else xs)"

lemma audit_loop_cut: "audit_loop P opts since 0 ds = cut (opt_limit opts) (audit_hits P opts since ds)"
  using audit_loop_unlimited[of opts P since 0 ds] audit_loop_limited[of 0 opts P since ds]
  by (simp add: cut_def)

lemma mset_audit_hits: "mset ds = mset ds' \<Longrightarrow> mset (audit_hits P opts since ds) = mset (audit_hits P opts since ds')"
  by (simp add: audit_hits_def map_filter_def mset_filter)

context badger_laws
begin

lemma scan_entries:
  "\<exists>kvs. db_scan B s t p = Inr kvs \<and> distinct (map fst kvs)
     \<and> set kvs = {(k, v). has_prefix k p \<and> visible (E s) t k = Some v}"
proof -
  obtain kvs where kvs: "db_scan B s t p = Inr kvs"
      "map_of kvs = (\<lambda>k. if has_prefix k p then visible (E s) t k else None)"
    using scan_pairs by blast
  obtain items where i: "bdg_iter B s t = Inr items" "sorted_wrt (<) (map fst items)"
    using bdg_iter by blast
  have "map fst kvs = map fst xs" if "copy_values xs = Inr kvs" for xs and kvs :: "(string \<times> bytes) list"
    using that by (induction xs arbitrary: kvs) (auto split: sum.splits)
  moreover have "copy_values (filter (\<lambda>(k, v). has_prefix k p) items) = Inr kvs"
    using kvs(1) i(1) by (auto simp: db_scan_def lift_bdg_def seek_sorted[OF i(2)] split: sum.splits)
  moreover have "distinct (map fst (filter (\<lambda>(k, v). has_prefix k p) items))"
    using i(2) by (simp add: strict_sorted_iff distinct_map_filter)
  ultimately have d: "distinct (map fst kvs)" by metis
  have "(k, v) \<in> set kvs \<longleftrightarrow> has_prefix k p \<and> visible (E s) t k = Some v" for k v
    using map_of_eq_Some_iff[OF d, of k v] kvs(2) by (simp split: if_splits)
  with kvs(1) d show ?thesis by (intro exI[of _ kvs]) auto
qed

end

text \<open>The stored entries that a query matches, by their keys.\<close>

definition audit_found :: "prims \<Rightarrow> contents \<Rightarrow> time \<Rightarrow> query_options \<Rightarrow> (string \<times> audit_entry) set" where
  "audit_found P c t opts = {(k, e). has_prefix k ''audit/'' \<and>
     (\<exists>v. visible c t k = Some v \<and> json_unmarshal (dec_audit P) v = Inr e) \<and> audit_matches opts (query_since t opts) e}"

lemma set_map_filter: "set (List.map_filter f xs) = {y. \<exists>x\<in>set xs. f x = Some y}"
  by (induction xs) (auto simp: map_filter_simps split: option.splits)

lemma audit_hits_found:
  assumes "distinct (map fst kvs)" "set kvs = {(k, v). has_prefix k ''audit/'' \<and> visible c t k = Some v}"
  shows "finite (audit_found P c t opts)"
    and "mset (audit_hits P opts (query_since t opts) (map snd kvs)) = image_mset snd (mset_set (audit_found P c t opts))"
proof -
  define hit where "hit = (\<lambda>(k :: string, v). case json_unmarshal (dec_audit P) v of Inl _ \<Rightarrow> None
    | Inr e \<Rightarrow> if audit_matches opts (query_since t opts) e then Some (k, e) else None)"
  have hit: "hit (k, v) = Some (l, e) \<longleftrightarrow> l = k \<and> json_unmarshal (dec_audit P) v = Inr e
      \<and> audit_matches opts (query_since t opts) e" for k v l e
    by (cases "json_unmarshal (dec_audit P) v") (auto simp: hit_def)
  have "audit_hits P opts (query_since t opts) (map snd xs) = map snd (List.map_filter hit xs)" for xs
    by (induction xs) (auto simp: hit_def map_filter_simps split: sum.splits)
  then have h: "audit_hits P opts (query_since t opts) (map snd kvs) = map snd (List.map_filter hit kvs)" .
  have "(l, e) \<in> set (List.map_filter hit kvs) \<longleftrightarrow> (l, e) \<in> audit_found P c t opts" for l e
    unfolding set_map_filter assms(2) audit_found_def by (auto simp: hit)
  then have s: "set (List.map_filter hit kvs) = audit_found P c t opts" by (simp add: set_eq_iff split_paired_All)
  then show "finite (audit_found P c t opts)" by (metis List.finite_set)
  have "distinct (List.map_filter hit xs)" if "distinct (map fst xs)" for xs
    using that
  proof (induction xs)
    case (Cons x xs)
    obtain k v where x: "x = (k, v)" by (cases x)
    show ?case
    proof (cases "hit x")
      case (Some y)
      then have "fst y = k" using hit[of k v "fst y" "snd y"] x by simp
      moreover have "fst z \<noteq> k" if "z \<in> set (List.map_filter hit xs)" for z
        using that Cons.prems x by (auto simp: set_map_filter) (metis hit fst_conv image_eqI prod.collapse)
      ultimately have "y \<notin> set (List.map_filter hit xs)" by blast
      then show ?thesis using Cons Some by (simp add: map_filter_simps)
    qed (use Cons in \<open>simp add: map_filter_simps\<close>)
  qed (simp add: map_filter_simps)
  from mset_set_set[OF this[OF assms(1)]] show
    "mset (audit_hits P opts (query_since t opts) (map snd kvs)) = image_mset snd (mset_set (audit_found P c t opts))"
    by (simp add: h flip: s)
qed

lemma audit_query_result:
  assumes "badger_laws B E" and "\<And>xs. mset (order xs) = mset xs"
  shows "\<exists>es. audit_query B P order s t opts = Inr es \<and> finite (audit_found P (E s) t opts)
    \<and> mset es \<subseteq># image_mset snd (mset_set (audit_found P (E s) t opts))
    \<and> length es = (if 0 < opt_limit opts then min (nat (opt_limit opts)) (card (audit_found P (E s) t opts))
        else card (audit_found P (E s) t opts))
    \<and> (opt_limit opts \<le> 0 \<longrightarrow> mset es = image_mset snd (mset_set (audit_found P (E s) t opts)))"
proof -
  obtain kvs where kvs: "db_scan B s t ''audit/'' = Inr kvs" "distinct (map fst kvs)"
      "set kvs = {(k, v). has_prefix k ''audit/'' \<and> visible (E s) t k = Some v}"
    using badger_laws.scan_entries[OF assms(1)] by blast
  let ?h = "audit_hits P opts (query_since t opts) (map snd (order kvs))"
  have m: "mset ?h = mset (audit_hits P opts (query_since t opts) (map snd kvs))"
    using assms(2)[of kvs] by (intro mset_audit_hits) simp
  then have h: "mset ?h = image_mset snd (mset_set (audit_found P (E s) t opts))"
    using audit_hits_found(2)[OF kvs(2,3)] by simp
  have fin: "finite (audit_found P (E s) t opts)" by (rule audit_hits_found(1)[OF kvs(2,3)])
  have l: "length ?h = card (audit_found P (E s) t opts)" using arg_cong[OF h, of size] by simp
  have "audit_query B P order s t opts = Inr (cut (opt_limit opts) ?h)"
    by (simp add: audit_query_def kvs(1) audit_loop_cut)
  moreover have "mset (take n ?h) \<subseteq># mset ?h" for n
    by (metis append_take_drop_id mset_append mset_subset_eq_add_left)
  then have "mset (cut (opt_limit opts) ?h) \<subseteq># mset ?h" by (simp add: cut_def)
  ultimately show ?thesis using l fin h by (auto simp: cut_def min_def)
qed

lemma audit_query_all:
  assumes "badger_laws B E" and "\<And>xs. mset (order xs) = mset xs" and "opt_limit opts \<le> 0"
  shows "\<exists>es. audit_query B P order s t opts = Inr es \<and> set es = snd ` audit_found P (E s) t opts"
proof -
  obtain es where "audit_query B P order s t opts = Inr es" "finite (audit_found P (E s) t opts)"
      "mset es = image_mset snd (mset_set (audit_found P (E s) t opts))"
    using audit_query_result[OF assms(1,2), of P s t opts] assms(3) by blast
  moreover from this have "set es = snd ` audit_found P (E s) t opts" by (metis set_mset_mset set_image_mset finite_set_mset_mset_set)
  ultimately show ?thesis by blast
qed

text \<open>
  The stored entries that a query asks for, spelt out: those of the identity and of the path that it names, and those
  of the last \<open>opt_since\<close> nanoseconds. An empty string or a time span that is not positive asks for all.
\<close>

definition audit_wanted :: "prims \<Rightarrow> contents \<Rightarrow> time \<Rightarrow> query_options \<Rightarrow> (string \<times> audit_entry) set" where
  "audit_wanted P c t opts = {(k, e). has_prefix k ''audit/''
     \<and> (\<exists>v. visible c t k = Some v \<and> json_unmarshal (dec_audit P) v = Inr e)
     \<and> (opt_identity opts = [] \<or> ent_identity e = opt_identity opts)
     \<and> (opt_path opts = [] \<or> ent_path e = opt_path opts)
     \<and> (opt_since opts \<le> 0 \<or> t - opt_since opts \<le> ent_time e)}"

lemma audit_wanted_found: "t - opt_since opts \<noteq> zero_time \<Longrightarrow> audit_wanted P c t opts = audit_found P c t opts"
  by (auto simp: audit_wanted_def audit_found_def audit_matches_def query_since_def)

section \<open>Properties\<close>

text \<open>
  C37: Query answers with entries that are stored, whose identity and path are the ones asked for (if any) and whose
  time is not before the asked time span: all of them without a limit, each as often as it is stored, and
  with a limit as many of them as it allows, whatever the iteration order of the map of stored entries.
  The lower bound must not be the zero time of year 1, which Query takes for no bound.
\<close>

theorem audit_query_exact:
  assumes "badger_laws B E" and "\<And>xs. mset (order xs) = mset xs" and "t - opt_since opts \<noteq> zero_time"
  shows "\<exists>es. audit_query B P order s t opts = Inr es \<and> finite (audit_wanted P (E s) t opts)
    \<and> mset es \<subseteq># image_mset snd (mset_set (audit_wanted P (E s) t opts))
    \<and> length es = (if 0 < opt_limit opts then min (nat (opt_limit opts)) (card (audit_wanted P (E s) t opts))
        else card (audit_wanted P (E s) t opts))
    \<and> (opt_limit opts \<le> 0 \<longrightarrow> mset es = image_mset snd (mset_set (audit_wanted P (E s) t opts)))"
  unfolding audit_wanted_found[OF assms(3)] by (rule audit_query_result[OF assms(1,2)])

definition demo_entry :: audit_entry where
  "demo_entry = \<lparr>ent_id = [], ent_time = 7, ent_identity = ''user:ada'', ent_method = ''password'',
     ent_operation = ''kv.read'', ent_path = ''/v1/secrets/kv/a'', ent_version = 0, ent_ip = ''::1'',
     ent_request = ''r'', ent_status = ''allowed'', ent_policy = ''readonly'', ent_error = [], ent_duration = 1\<rparr>"

definition all_entries :: query_options where
  "all_entries = \<lparr>opt_identity = [], opt_since = 0, opt_path = [], opt_limit = 0\<rparr>"

text \<open>What Log leaves behind when it reports no error.\<close>

lemma audit_foundI:
  "visible c t k = Some v \<Longrightarrow> has_prefix k ''audit/'' \<Longrightarrow> json_unmarshal (dec_audit P) v = Inr e \<Longrightarrow>
   audit_matches opts (query_since t opts) e \<Longrightarrow> e \<in> snd ` audit_found P c t opts"
  by (rule image_eqI[of _ _ "(k, e)"]) (auto simp: audit_found_def)

lemma audit_key_prefix: "has_prefix (audit_key P e) ''audit/''"
  by (simp add: audit_key_def has_prefix_Cons)

lemma audit_log_done:
  assumes "badger_laws B E" and "audit_log B P wr s f t i e = ((s', f'), None)" and "ent_time e \<noteq> zero_time"
  shows "\<exists>data. json_marshal (enc_audit P) (e\<lparr>ent_id := i\<rparr>) = Inr data \<and> wr f (data @ [newline]) = (f', True)
    \<and> E s' = (E s)(audit_key P (e\<lparr>ent_id := i\<rparr>) \<mapsto> (data, None))"
  using assms(2,3) kvdb.set_key_E[OF badger_laws.db_kvdb[OF assms(1)]]
  by (auto simp: audit_log_def Let_def split: sum.splits prod.splits if_splits)

text \<open>
  An entry that Log has recorded is found by every query that it matches.
\<close>

theorem audit_log_found:
  assumes "badger_laws B E" and "prims_laws P" and "\<And>xs. mset (order xs) = mset xs"
    and "audit_log B P wr s f t i e = ((s', f'), None)" and "audit_ok (e\<lparr>ent_id := i\<rparr>)" and "ent_time e \<noteq> zero_time"
    and "audit_matches opts (query_since t' opts) (e\<lparr>ent_id := i\<rparr>)" and "opt_limit opts \<le> 0"
  shows "\<exists>es. audit_query B P order s' t' opts = Inr es \<and> e\<lparr>ent_id := i\<rparr> \<in> set es"
proof -
  let ?e = "e\<lparr>ent_id := i\<rparr>"
  obtain data where d: "json_marshal (enc_audit P) ?e = Inr data" "E s' = (E s)(audit_key P ?e \<mapsto> (data, None))"
    using audit_log_done[OF assms(1,4,6)] by blast
  have "json_unmarshal (dec_audit P) data = Inr ?e"
    by (rule codec.unmarshal_marshal[OF prims_laws.audit_codec[OF assms(2)] assms(5) d(1)])
  moreover have "visible (E s') t' (audit_key P ?e) = Some data" unfolding d(2) by (rule visible_upd_same)
  ultimately have "?e \<in> snd ` audit_found P (E s') t' opts"
    using assms(7) by (intro audit_foundI[OF _ audit_key_prefix])
  then show ?thesis using audit_query_all[OF assms(1,3), of opts P s' t'] assms(8) by auto
qed

text \<open>
  A demonstration: the entry is logged to an empty database and an empty file, and the query
  without filters finds it.
\<close>

definition demo_append :: "bytes \<Rightarrow> bytes \<Rightarrow> bytes \<times> bool" where
  "demo_append f line = (f @ line, True)"

lemma demo_entry_ok: "audit_ok (demo_entry\<lparr>ent_id := ''01''\<rparr>)" "ent_time demo_entry \<noteq> zero_time"
  by (simp_all add: audit_ok_def demo_entry_def utf8_ok_all_ascii is_ascii_def time_ok_def second_def
      int64_ok_def zero_time_def)

lemma demo_audit_log_at:
  assumes "ent_time e \<noteq> zero_time" "time_ok (ent_time e)"
  shows "\<exists>s' f'. audit_log mem_badger demo_prims demo_append s f t i e = ((s', f'), None)"
proof -
  obtain data where "json_marshal (enc_audit demo_prims) (e\<lparr>ent_id := i\<rparr>) = Inr data"
    using assms(2) by (simp add: json_marshal_def enc_audit_def enc_time_def)
  then show ?thesis using assms(1)
    by (simp add: audit_log_def Let_def audit_key_def db_set_def lift_bdg_def mem_badger_def demo_append_def)
qed

lemma demo_audit_log:
  "\<exists>s' f'. audit_log mem_badger demo_prims demo_append [] [] 7 ''01'' demo_entry = ((s', f'), None)"
  using demo_audit_log_at[OF demo_entry_ok(2)] demo_entry_ok(1) by (simp add: audit_ok_def)

theorem audit_log_found_witness:
  "\<exists>s' f' es. audit_log mem_badger demo_prims demo_append [] [] 7 ''01'' demo_entry = ((s', f'), None)
     \<and> audit_query mem_badger demo_prims rev s' 9 all_entries = Inr es \<and> demo_entry\<lparr>ent_id := ''01''\<rparr> \<in> set es"
proof -
  obtain s' f' where l: "audit_log mem_badger demo_prims demo_append [] [] 7 ''01'' demo_entry = ((s', f'), None)"
    using demo_audit_log by blast
  have m: "audit_matches all_entries (query_since 9 all_entries) (demo_entry\<lparr>ent_id := ''01''\<rparr>)"
    "opt_limit all_entries \<le> 0"
    by (simp_all add: audit_matches_def all_entries_def query_since_def)
  have "\<exists>es. audit_query mem_badger demo_prims rev s' 9 all_entries = Inr es \<and> demo_entry\<lparr>ent_id := ''01''\<rparr> \<in> set es"
    using audit_log_found[OF mem_laws demo_laws _ l demo_entry_ok m, of rev] by simp
  with l show ?thesis by blast
qed

text \<open>
  Two entries of two users are logged: a query for one user finds that user's entry only, one for the last nanosecond
  the second entry only, and one limited to one entry has one result, of two that match.
\<close>

definition demo_other :: audit_entry where
  "demo_other = demo_entry\<lparr>ent_time := 8, ent_identity := ''user:bob''\<rparr>"

lemma demo_two_logged:
  obtains s1 f1 s2 f2 where "audit_log mem_badger demo_prims demo_append [] [] 7 ''01'' demo_entry = ((s1, f1), None)"
    "audit_log mem_badger demo_prims demo_append s1 f1 8 ''02'' demo_other = ((s2, f2), None)"
    "\<And>k e. has_prefix k ''audit/'' \<and> (\<exists>v. visible (map_of s2) 9 k = Some v \<and> json_unmarshal (dec_audit demo_prims) v = Inr e) \<longleftrightarrow>
       (k, e) \<in> {(audit_key demo_prims (demo_entry\<lparr>ent_id := ''01''\<rparr>), demo_entry\<lparr>ent_id := ''01''\<rparr>),
                 (audit_key demo_prims (demo_other\<lparr>ent_id := ''02''\<rparr>), demo_other\<lparr>ent_id := ''02''\<rparr>)}"
    "audit_key demo_prims (demo_entry\<lparr>ent_id := ''01''\<rparr>) \<noteq> audit_key demo_prims (demo_other\<lparr>ent_id := ''02''\<rparr>)"
proof -
  let ?e = "demo_entry\<lparr>ent_id := ''01''\<rparr>" and ?o = "demo_other\<lparr>ent_id := ''02''\<rparr>"
  have ok: "audit_ok ?o" "ent_time demo_other \<noteq> zero_time" "time_ok (ent_time demo_other)"
    by (simp_all add: demo_other_def audit_ok_def demo_entry_def utf8_ok_all_ascii is_ascii_def time_ok_def second_def
        int64_ok_def zero_time_def)
  obtain s1 f1 where l1: "audit_log mem_badger demo_prims demo_append [] [] 7 ''01'' demo_entry = ((s1, f1), None)"
    using demo_audit_log by blast
  obtain s2 f2 where l2: "audit_log mem_badger demo_prims demo_append s1 f1 8 ''02'' demo_other = ((s2, f2), None)"
    using demo_audit_log_at[OF ok(2,3)] by blast
  obtain d1 where d1: "json_marshal (enc_audit demo_prims) ?e = Inr d1" "map_of s1 = (map_of [])(audit_key demo_prims ?e \<mapsto> (d1, None))"
    using audit_log_done[OF mem_laws l1 demo_entry_ok(2)] by blast
  obtain d2 where d2: "json_marshal (enc_audit demo_prims) ?o = Inr d2" "map_of s2 = (map_of s1)(audit_key demo_prims ?o \<mapsto> (d2, None))"
    using audit_log_done[OF mem_laws l2 ok(2)] by blast
  note c = codec.unmarshal_marshal[OF prims_laws.audit_codec[OF demo_laws]]
  have u: "json_unmarshal (dec_audit demo_prims) d1 = Inr ?e" "json_unmarshal (dec_audit demo_prims) d2 = Inr ?o"
    using c[OF demo_entry_ok(1) d1(1)] c[OF ok(1) d2(1)] .
  have "last (audit_key demo_prims ?e) \<noteq> last (audit_key demo_prims ?o)" by (simp add: audit_key_def)
  then have n: "audit_key demo_prims ?e \<noteq> audit_key demo_prims ?o" by metis
  have "has_prefix k ''audit/'' \<and> (\<exists>v. visible (map_of s2) 9 k = Some v \<and> json_unmarshal (dec_audit demo_prims) v = Inr e) \<longleftrightarrow>
       (k, e) \<in> {(audit_key demo_prims ?e, ?e), (audit_key demo_prims ?o, ?o)}" for k e
    using u n audit_key_prefix by (auto simp: d1(2) d2(2) visible_def split: if_splits)
  from that[OF l1 l2 this n] show thesis .
qed

theorem audit_query_exact_witness:
  "\<exists>s1 f1 s2 f2 es. audit_log mem_badger demo_prims demo_append [] [] 7 ''01'' demo_entry = ((s1, f1), None)
     \<and> audit_log mem_badger demo_prims demo_append s1 f1 8 ''02'' demo_other = ((s2, f2), None)
     \<and> audit_query mem_badger demo_prims rev s2 9 (all_entries\<lparr>opt_identity := ''user:ada''\<rparr>) = Inr [demo_entry\<lparr>ent_id := ''01''\<rparr>]
     \<and> audit_query mem_badger demo_prims rev s2 9 (all_entries\<lparr>opt_since := 1\<rparr>) = Inr [demo_other\<lparr>ent_id := ''02''\<rparr>]
     \<and> audit_query mem_badger demo_prims rev s2 9 (all_entries\<lparr>opt_limit := 1\<rparr>) = Inr es \<and> length es = 1"
proof (rule demo_two_logged)
  fix s1 f1 s2 f2
  let ?e = "demo_entry\<lparr>ent_id := ''01''\<rparr>" and ?o = "demo_other\<lparr>ent_id := ''02''\<rparr>"
  let ?k = "audit_key demo_prims ?e" and ?l = "audit_key demo_prims ?o"
  assume l: "audit_log mem_badger demo_prims demo_append [] [] 7 ''01'' demo_entry = ((s1, f1), None)"
    "audit_log mem_badger demo_prims demo_append s1 f1 8 ''02'' demo_other = ((s2, f2), None)"
    and stored: "\<And>k e. has_prefix k ''audit/'' \<and> (\<exists>v. visible (map_of s2) 9 k = Some v \<and> json_unmarshal (dec_audit demo_prims) v = Inr e) \<longleftrightarrow>
       (k, e) \<in> {(?k, ?e), (?l, ?o)}" and n: "?k \<noteq> ?l"
  have w: "audit_wanted demo_prims (map_of s2) 9 opts = {(k, e). (k, e) \<in> {(?k, ?e), (?l, ?o)}
     \<and> (opt_identity opts = [] \<or> ent_identity e = opt_identity opts) \<and> (opt_path opts = [] \<or> ent_path e = opt_path opts)
     \<and> (opt_since opts \<le> 0 \<or> 9 - opt_since opts \<le> ent_time e)}" for opts
    unfolding audit_wanted_def conj_assoc[symmetric] stored by simp
  have one: "audit_wanted demo_prims (map_of s2) 9 (all_entries\<lparr>opt_identity := ''user:ada''\<rparr>) = {(?k, ?e)}"
    "audit_wanted demo_prims (map_of s2) 9 (all_entries\<lparr>opt_since := 1\<rparr>) = {(?l, ?o)}"
    "audit_wanted demo_prims (map_of s2) 9 (all_entries\<lparr>opt_limit := 1\<rparr>) = {(?k, ?e), (?l, ?o)}"
    unfolding w by (auto simp: all_entries_def demo_entry_def demo_other_def)
  have z: "9 - opt_since opts \<noteq> zero_time" if "opt_since opts \<in> {0, 1}" for opts
    using that by (auto simp: zero_time_def second_def)
  note q = audit_query_exact[OF mem_laws, of rev 9, simplified]
  have single: "es = [x]" if "mset es = {#x#}" for es :: "audit_entry list" and x using that by simp
  have a: "audit_query mem_badger demo_prims rev s2 9 (all_entries\<lparr>opt_identity := ''user:ada''\<rparr>) = Inr [?e]"
    using q[of "all_entries\<lparr>opt_identity := ''user:ada''\<rparr>" demo_prims s2] z[of all_entries] one(1) by (auto simp: all_entries_def)
  have b: "audit_query mem_badger demo_prims rev s2 9 (all_entries\<lparr>opt_since := 1\<rparr>) = Inr [?o]"
    using q[of "all_entries\<lparr>opt_since := 1\<rparr>" demo_prims s2] z[of "all_entries\<lparr>opt_since := 1\<rparr>"] one(2) by (auto simp: all_entries_def)
  obtain es where "audit_query mem_badger demo_prims rev s2 9 (all_entries\<lparr>opt_limit := 1\<rparr>) = Inr es" "length es = 1"
    using q[of "all_entries\<lparr>opt_limit := 1\<rparr>" demo_prims s2] z[of "all_entries\<lparr>opt_limit := 1\<rparr>"] one(3) n by (auto simp: all_entries_def)
  with l a b show ?thesis by blast
qed

text \<open>No entry breaks its line in the file.\<close>

lemma audit_one_line:
  assumes "json_marshal (enc_audit P) e = Inr data"
  shows "newline \<notin> set data"
proof -
  obtain j where j: "enc_audit P e = Some j" "data = json_print j"
    using assms by (auto simp: json_marshal_def split: option.splits)
  have "json_nums_ok j" using j(1) by (auto simp: enc_audit_def enc_time_def opt_str_def opt_int_def enc_int_def split: if_splits)
  then have "list_all printable data" using printable_json(1) j(2) by blast
  then show ?thesis by (auto simp: list_all_iff printable_def newline_def)
qed

text \<open>What an entry is read back as: its strings with the bytes that are no UTF-8 replaced by U+FFFD.\<close>

definition audit_clean :: "audit_entry \<Rightarrow> audit_entry" where
  "audit_clean e = \<lparr>ent_id = sanitize (ent_id e), ent_time = ent_time e, ent_identity = sanitize (ent_identity e),
     ent_method = sanitize (ent_method e), ent_operation = sanitize (ent_operation e), ent_path = sanitize (ent_path e),
     ent_version = ent_version e, ent_ip = sanitize (ent_ip e), ent_request = sanitize (ent_request e),
     ent_status = sanitize (ent_status e), ent_policy = sanitize (ent_policy e), ent_error = sanitize (ent_error e),
     ent_duration = ent_duration e\<rparr>"

lemma audit_clean_id: "audit_ok e \<Longrightarrow> audit_clean e = e"
  by (simp add: audit_clean_def audit_ok_def sanitize_id)

lemma sanitize_nonempty: "s \<noteq> [] \<Longrightarrow> sanitize s \<noteq> []"
proof (cases s)
  case (Cons a u)
  show "sanitize s \<noteq> []"
  proof (cases "decode_rune (a # u)")
    case None
    then show ?thesis using Cons by (simp add: sanitize.simps(2) replacement_def)
  next
    case (Some x)
    obtain r n where "x = (r, n)" by (cases x)
    then show ?thesis using Cons Some decode_rune_width[of "a # u" r n] by (simp add: sanitize.simps(2))
  qed
qed simp

lemma enc_audit_sanitize:
  assumes "prims_laws P" "enc_audit P e = Some j"
  shows "enc_audit P (audit_clean e) = Some (json_sanitize j)"
proof -
  have t: "sanitize (time_format P t) = time_format P t" for t
    using prims_laws.time_text[OF assms(1)] by (simp add: sanitize_id)
  have n: "map (\<lambda>(k, j). (sanitize k, json_sanitize j)) (opt_str name s) = opt_str name (sanitize s)"
    "map (\<lambda>(k, j). (sanitize k, json_sanitize j)) (opt_int name i) = opt_int name i" if "utf8_ok name" for name s i
    using that sanitize_nonempty by (auto simp: opt_str_def opt_int_def enc_int_def sanitize_id)
  have i: "json_sanitize (enc_int x) = enc_int x" for x by (simp add: enc_int_def)
  note names = audit_field_names[THEN sanitize_id] n[OF audit_field_names(7)] n[OF audit_field_names(11)] n[OF audit_field_names(12)]
  have "time_ok (ent_time e)" using assms(2) by (auto simp: enc_audit_def dest: enc_time_SomeD)
  then show ?thesis using assms(2)
    unfolding enc_audit_def audit_clean_def enc_time_def
    by (simp only: if_True option.map option.inject audit_entry.select_convs) (drule sym, simp only: json_sanitize.simps map_append list.map prod.case names i t)
qed

text \<open>
  C38: Whatever the strings of an entry are (the path of a request is the client's to choose), when Log and its
  write to the file succeed, exactly one line is appended to the file: it has no line break in it, and it reads back
  as the entry with every byte of a string that is no UTF-8 replaced by U+FFFD, so as the entry itself when all strings are UTF-8.
\<close>

theorem audit_log_line:
  assumes "badger_laws B E" and "prims_laws P" and "\<And>f line. wr f line = (f @ line, True)"
    and "audit_log B P wr s f t i e = ((s', f'), None)" and "ent_time e \<noteq> zero_time"
  shows "\<exists>line. f' = f @ line @ [newline] \<and> newline \<notin> set line
    \<and> (int64_ok (ent_version e) \<and> int64_ok (ent_duration e) \<longrightarrow>
        json_unmarshal (dec_audit P) line = Inr (audit_clean (e\<lparr>ent_id := i\<rparr>)))
    \<and> (audit_ok (e\<lparr>ent_id := i\<rparr>) \<longrightarrow> json_unmarshal (dec_audit P) line = Inr (e\<lparr>ent_id := i\<rparr>))"
proof -
  let ?e = "e\<lparr>ent_id := i\<rparr>"
  obtain data where d: "json_marshal (enc_audit P) ?e = Inr data" "f' = f @ data @ [newline]"
    using audit_log_done[OF assms(1,4,5)] assms(3) by auto
  note c = prims_laws.audit_codec[OF assms(2)]
  have "newline \<notin> set data" by (rule audit_one_line[OF d(1)])
  moreover have "json_unmarshal (dec_audit P) data = Inr (audit_clean ?e)" if "int64_ok (ent_version e)" "int64_ok (ent_duration e)"
  proof -
    obtain j where j: "enc_audit P ?e = Some j" using d(1) by (auto simp: json_marshal_def split: option.splits)
    then have "time_ok (ent_time e)" by (auto simp: enc_audit_def dest: enc_time_SomeD)
    then have "audit_ok (audit_clean ?e)" using that by (simp add: audit_ok_def audit_clean_def utf8_ok_sanitize)
    from codec.unmarshal_sanitized[OF c this j enc_audit_sanitize[OF assms(2) j] d(1)] show ?thesis .
  qed
  moreover have "json_unmarshal (dec_audit P) data = Inr ?e" if "audit_ok ?e"
    by (rule codec.unmarshal_marshal[OF c that d(1)])
  ultimately show ?thesis using d(2) by blast
qed

text \<open>A request path with a byte that is no UTF-8.\<close>

theorem audit_log_line_witness:
  "\<exists>s' f' line. audit_log mem_badger demo_prims demo_append [] [] 7 ''01'' (demo_entry\<lparr>ent_path := ''/v1/a'' @ [CHR 0xFF]\<rparr>) = ((s', f'), None)
     \<and> f' = line @ [newline]
     \<and> json_unmarshal (dec_audit demo_prims) line = Inr (demo_entry\<lparr>ent_id := ''01'', ent_path := ''/v1/a'' @ replacement\<rparr>)"
proof -
  let ?e = "demo_entry\<lparr>ent_path := ''/v1/a'' @ [CHR 0xFF]\<rparr>"
  have ok: "ent_time ?e \<noteq> zero_time" "time_ok (ent_time ?e)" "int64_ok (ent_version ?e)" "int64_ok (ent_duration ?e)"
    by (simp_all add: demo_entry_def zero_time_def time_ok_def second_def int64_ok_def)
  obtain s' f' where l: "audit_log mem_badger demo_prims demo_append [] [] 7 ''01'' ?e = ((s', f'), None)"
    using demo_audit_log_at[OF ok(1,2)] by blast
  have "sanitize (''/v1/a'' @ [CHR 0xFF]) = ''/v1/a'' @ replacement" by code_simp
  then have "audit_clean (?e\<lparr>ent_id := ''01''\<rparr>) = demo_entry\<lparr>ent_id := ''01'', ent_path := ''/v1/a'' @ replacement\<rparr>"
    by (simp add: audit_clean_def demo_entry_def sanitize_id utf8_ok_all_ascii is_ascii_def)
  with audit_log_line[OF mem_laws demo_laws _ l ok(1)] ok(3,4) l show ?thesis
    by (auto simp: demo_append_def)
qed

text \<open>
  C39: A limit promises nothing about which entries come back: each matching entry is, under some
  iteration order of the map, the only answer of the query limited to one.
\<close>

theorem audit_limit_arbitrary:
  assumes "badger_laws B E" and "(k, e) \<in> audit_found P (E s) t opts" and "opt_limit opts = 1"
  shows "\<exists>order. (\<forall>xs. mset (order xs) = mset xs) \<and> audit_query B P order s t opts = Inr [e]"
proof -
  obtain v where v: "has_prefix k ''audit/''" "visible (E s) t k = Some v" "json_unmarshal (dec_audit P) v = Inr e"
      "audit_matches opts (query_since t opts) e"
    using assms(2) by (auto simp: audit_found_def)
  obtain kvs where kvs: "db_scan B s t ''audit/'' = Inr kvs"
      "set kvs = {(k, v). has_prefix k ''audit/'' \<and> visible (E s) t k = Some v}"
    using badger_laws.scan_entries[OF assms(1)] by blast
  define order where "order = (\<lambda>xs. if (k, v) \<in> set xs then (k, v) # remove1 (k, v) xs else xs)"
  have "mset (order xs) = mset xs" for xs by (simp add: order_def)
  moreover have "(k, v) \<in> set kvs" using v(1,2) kvs(2) by simp
  then have "audit_query B P order s t opts = Inr [e]"
    using v(3,4) assms(3) by (simp add: audit_query_def kvs(1) order_def)
  ultimately show ?thesis by blast
qed

theorem audit_limit_arbitrary_witness:
  "\<exists>s' f' order. audit_log mem_badger demo_prims demo_append [] [] 7 ''01'' demo_entry = ((s', f'), None)
     \<and> audit_query mem_badger demo_prims order s' 9 (all_entries\<lparr>opt_limit := 1\<rparr>) = Inr [demo_entry\<lparr>ent_id := ''01''\<rparr>]"
proof -
  let ?e = "demo_entry\<lparr>ent_id := ''01''\<rparr>" and ?o = "all_entries\<lparr>opt_limit := 1\<rparr>"
  obtain s' f' where l: "audit_log mem_badger demo_prims demo_append [] [] 7 ''01'' demo_entry = ((s', f'), None)"
    using demo_audit_log by blast
  obtain data where d: "json_marshal (enc_audit demo_prims) ?e = Inr data"
      "map_of s' = (map_of [])(audit_key demo_prims ?e \<mapsto> (data, None))"
    using audit_log_done[OF mem_laws l demo_entry_ok(2)] by blast
  have "json_unmarshal (dec_audit demo_prims) data = Inr ?e"
    by (rule codec.unmarshal_marshal[OF prims_laws.audit_codec[OF demo_laws] demo_entry_ok(1) d(1)])
  moreover have "audit_matches ?o (query_since 9 ?o) ?e"
    by (simp add: audit_matches_def all_entries_def query_since_def)
  moreover have "visible (map_of s') 9 (audit_key demo_prims ?e) = Some data" unfolding d(2) by (rule visible_upd_same)
  ultimately have found: "(audit_key demo_prims ?e, ?e) \<in> audit_found demo_prims (map_of s') 9 ?o"
    using audit_key_prefix unfolding audit_found_def by blast
  have one: "opt_limit ?o = 1" by simp
  from audit_limit_arbitrary[OF mem_laws found one] l show ?thesis by blast
qed

end
