(* ===== verification/Api_Props.thy ===== *)
theory Api_Props
  imports Demo_Api Audit_Log_Props
begin

text \<open>
  What holds of a request through the whole server: a secret changes only under the policy of an
  authenticated caller, accounts change only by an administrator, sessions come only from the
  logins, and every answered request behind the authentication leaves its line in the audit log.
\<close>

section \<open>Who gets past the authentication\<close>

lemma authenticate_cases:
  assumes "authenticate v out r s = (s1, Inr a)"
  obtains (dev) "env_dev v" "a = \<lparr>as_identity = ''dev'', as_method = ''dev'', as_policy = ''root''\<rparr>" "s1 = s"
    | (bootstrap) "\<not> env_dev v" "extract_token r = []" "req_method r = ''POST''" "req_path r = ''/v1/sys/admin/create''"
      "has_admins (env_db v) (sv_db s) (out_clock out 1) = Inr False"
      "a = \<lparr>as_identity = ''bootstrap'', as_method = ''admin_token'', as_policy = ''root''\<rparr>" "s1 = s"
    | (session) m where "\<not> env_dev v"
      "session_validate (env_db v) (env_prims v) (sv_db s) (out_clock out 1) (extract_token r) = (sv_db s1, Inr m)"
      "a = \<lparr>as_identity = sess_identity m, as_method = sess_method m, as_policy = sess_policy m\<rparr>"
    | (admin) rec where "\<not> env_dev v"
      "admin_verify (env_db v) (env_prims v) (sv_db s) (out_clock out 1) (extract_token r) = Inr rec"
      "a = \<lparr>as_identity = ''admin:'' @ admin_name rec, as_method = ''admin_token'', as_policy = admin_policy rec\<rparr>" "s1 = s"
proof (cases "env_dev v")
  case True
  with assms show ?thesis by (intro dev) (auto simp: authenticate_def)
next
  case nd: False
  show ?thesis
  proof (cases "extract_token r = []")
    case True
    with nd assms show ?thesis
      by (intro bootstrap) (auto simp: authenticate_def allow_first_admin_bootstrap_def split: if_splits sum.splits)
  next
    case ne: False
    show ?thesis
    proof (cases "has_prefix (extract_token r) ''lvt_''")
      case True
      with nd ne assms show ?thesis
        by (auto simp: authenticate_def Let_def split: sum.splits prod.splits intro: session)
    next
      case False
      with nd ne assms show ?thesis
        by (auto simp: authenticate_def Let_def split: sum.splits prod.splits if_splits intro: admin)
    qed
  qed
qed

text \<open>An administrator in the sense of the gate withAdmin.\<close>

definition admin_proof :: "'s env \<Rightarrow> outside \<Rightarrow> request \<Rightarrow> 's server \<Rightarrow> bool" where
  "admin_proof v out r s \<longleftrightarrow> extract_token r = [] \<and> req_method r = ''POST'' \<and> req_path r = ''/v1/sys/admin/create''
         \<and> has_admins (env_db v) (sv_db s) (out_clock out 1) = Inr False
     \<or> (\<exists>rec. admin_verify (env_db v) (env_prims v) (sv_db s) (out_clock out 1) (extract_token r) = Inr rec)
     \<or> (\<exists>m. snd (session_validate (env_db v) (env_prims v) (sv_db s) (out_clock out 1) (extract_token r)) = Inr m
         \<and> sess_method m = ''admin_token'')"

lemma admin_method:
  assumes "authenticate v out r s = (s1, Inr a)" "env_dev v \<or> as_method a = ''admin_token''"
  shows "env_dev v \<or> admin_proof v out r s"
  using assms(1)
proof (cases rule: authenticate_cases)
  case (session m)
  then show ?thesis using assms(2) by (auto simp: admin_proof_def)
qed (auto simp: admin_proof_def)

section \<open>Secrets and accounts\<close>

lemma kv_changes:
  assumes "handle_kv v out r c s = (s', x)" "s' \<noteq> s"
  shows "\<exists>obj cap. needs_kv r = Some (obj, cap) \<and> cap \<in> {CapWrite, CapDelete}"
proof (cases "needs_kv r")
  case None
  then show ?thesis using assms kv_unneeded[OF None, of v out c s] by simp
next
  case (Some n)
  then show ?thesis using assms kv_reads[of r "fst n" "snd n" v out c s] by (cases n) auto
qed

lemma transit_changes:
  assumes "handle_transit v out r c s = (s', x)" "s' \<noteq> s"
  shows "\<exists>obj cap. needs_transit r = Some (obj, cap) \<and> cap \<in> {CapWrite, CapDelete}"
proof (cases "needs_transit r")
  case None
  then show ?thesis using assms transit_unneeded[OF None, of v out c s] by simp
next
  case (Some n)
  then show ?thesis using assms transit_reads[of r "fst n" "snd n" v out c s] by (cases n) auto
qed

context api
begin

lemma mediated:
  assumes "serve v out r s = (s', rid, resp)" and "secret_key k" and "E (sv_db s') k \<noteq> E (sv_db s) k"
  shows "\<exists>s1 a rt obj cap. mux_route public_routes r = MuxHandler PProtected
    \<and> authenticate v out r s = (s1, Inr a) \<and> mux_route authed_routes r = MuxHandler rt
    \<and> needs rt r = Some (obj, cap) \<and> cap \<in> {CapWrite, CapDelete}
    \<and> policy_allowed (sv_engine s) (as_policy a) obj cap"
  using assms(1,3) trail_disjoint(1)[OF assms(2)]
proof (rule serve_change)
  fix s1 a rt s2 x
  assume p: "mux_route public_routes r = MuxHandler PProtected" and a: "authenticate v out r s = (s1, Inr a)"
    and rt: "mux_route authed_routes r = MuxHandler rt" and h: "route_handler rt v out r (authed_ctx out a) s1 = (s2, x)"
    and d: "E (sv_db s2) k \<noteq> E (sv_db s1) k"
  have z: "\<not> account_key k" "\<not> token_key k" using zones_disjoint(1)[OF assms(2)] by auto
  have loud: "s2 \<noteq> s1" using d by auto
  have nadm: "rt \<notin> admin_routes"
    using admin_zone[of rt, OF _ h] d z(1) confined_changed by (fastforce simp: moves_def)
  have "rt = RKV \<or> rt = RTransit"
  proof (cases rt)
    case RSession
    then have "handle_logout v out r (authed_ctx out a) s1 = (s2, x)" using h by simp
    from logout_zone[OF this] d z(2) confined_changed show ?thesis by (fastforce simp: moves_def)
  qed (use nadm h loud in \<open>simp_all add: admin_routes_def handle_whoami_def\<close>)
  then obtain obj cap where n: "needs rt r = Some (obj, cap)" and w: "cap \<in> {CapWrite, CapDelete}"
    using h kv_changes[of v out r "authed_ctx out a" s1 s2 x] transit_changes[of v out r "authed_ctx out a" s1 s2 x] loud
    by auto
  have "allowed_here (authed_ctx out a) s1 obj cap"
    using needs_refused[OF n, of "authed_ctx out a" s1 v out] h loud by force
  then have "policy_allowed (sv_engine s) (as_policy a) obj cap"
    using authenticate_step(2)[OF a] by (simp add: allowed_here_def)
  with p a rt n w show ?thesis by blast
qed

lemma account_change:
  assumes "serve v out r s = (s', rid, resp)" and "account_key k" and "E (sv_db s') k \<noteq> E (sv_db s) k"
  shows "(\<exists>rt. mux_route authed_routes r = MuxHandler rt \<and> rt \<in> admin_routes) \<and> (env_dev v \<or> admin_proof v out r s)"
  using assms(1,3) trail_disjoint(2)[OF assms(2)]
proof (rule serve_change)
  fix s1 a rt s2 x
  assume a: "authenticate v out r s = (s1, Inr a)" and rt: "mux_route authed_routes r = MuxHandler rt"
    and h: "route_handler rt v out r (authed_ctx out a) s1 = (s2, x)" and d: "E (sv_db s2) k \<noteq> E (sv_db s1) k"
  have z: "\<not> secret_key k" "\<not> trail_key k"
    using zones_disjoint(1)[of k] assms(2) trail_disjoint(2) by auto
  have adm: "rt \<in> admin_routes"
    using route_quiet[OF h] d z confined_changed by (fastforce simp: quiet_def split: if_splits)
  have "env_dev v \<or> as_method a = ''admin_token''"
    using admin_refused[OF adm, of v "authed_ctx out a" out r s1] h d by auto
  with admin_method[OF a] adm rt show ?thesis by blast
qed

end

lemma log_entry_rest: "sv_engine (log_entry v out n e s) = sv_engine s" "sv_challenges (log_entry v out n e s) = sv_challenges s"
  by (simp_all add: log_entry_def split: prod.splits)

lemma authenticate_rest: "authenticate v out r s = (s1, d) \<Longrightarrow> sv_challenges s1 = sv_challenges s \<and> sv_log s1 = sv_log s"
  by (auto simp: authenticate_def Let_def split: if_splits sum.splits prod.splits)

context api
begin

lemma refused_quiet:
  assumes s: "serve v out r s = (s', rid, resp)" and p: "mux_route public_routes r = MuxHandler PProtected"
    and a: "authenticate v out r s = (s1, d)" and rt: "mux_route authed_routes r = MuxHandler rt"
    and d: "case d of Inl (_, msg) \<Rightarrow> code = 401 | Inr a \<Rightarrow> code = 403 \<and>
        (rt \<in> admin_routes \<and> \<not> env_dev v \<and> as_method a \<noteq> ''admin_token''
         \<or> (\<exists>obj cap. needs rt r = Some (obj, cap) \<and> \<not> policy_allowed (sv_engine s) (as_policy a) obj cap))"
  shows "(\<exists>x. resp = Done x \<and> resp_status x = code) \<and> sv_engine s' = sv_engine s \<and> sv_challenges s' = sv_challenges s
    \<and> (\<forall>k. \<not> trail_key k \<longrightarrow> E (sv_db s') k = E (sv_db s) k)"
proof -
  have "\<exists>x e. resp = Done x \<and> resp_status x = code \<and> s' = (if env_audit v then log_entry v out 5 e s1 else s1)"
  proof (cases d)
    case (Inl m)
    obtain b msg where m: "m = (b, msg)" by (cases m)
    from serve_unauthenticated[OF p a[unfolded Inl m]] s d Inl m show ?thesis by auto
  next
    case (Inr b)
    have "\<exists>x. route_handler rt v out r (authed_ctx out b) s1 = (s1, Done x) \<and> resp_status x = 403"
    proof (cases "rt \<in> admin_routes \<and> \<not> env_dev v \<and> as_method b \<noteq> ''admin_token''")
      case True
      then show ?thesis using admin_refused[of rt v "authed_ctx out b" out r s1] by simp
    next
      case False
      then obtain obj cap where "needs rt r = Some (obj, cap)" "\<not> policy_allowed (sv_engine s) (as_policy b) obj cap"
        using d Inr by auto
      then have "\<exists>x\<in>refusals (authed_ctx out b). route_handler rt v out r (authed_ctx out b) s1 = (s1, Done x)"
        using authenticate_step(2)[OF a] by (intro needs_refused) (simp_all add: allowed_here_def)
      then show ?thesis by (auto simp: refusals_def)
    qed
    then obtain x where h: "route_handler rt v out r (authed_ctx out b) s1 = (s1, Done x)" "resp_status x = 403" by blast
    from serve_answered[OF p _ rt h(1)] a Inr s h(2) d show ?thesis by auto
  qed
  moreover have "moves E token_key s s1" "sv_engine s1 = sv_engine s" using authenticate_step[OF a] by auto
  ultimately show ?thesis using authenticate_rest[OF a]
    by (auto simp: log_entry_rest log_entry_keeps moves_def confined_def trail_key_def)
qed

end

section \<open>Properties\<close>

text \<open>
  C1: A request changes a secret only when its caller is authenticated, it is routed to a secret
  engine, and the caller's policy grants write or delete on the secret that the request names; there
  is no other way to the secrets.
\<close>

theorem secrets_mediated:
  assumes "badger_laws (env_db v) E" and "prims_laws (env_prims v)"
    and "serve v out r s = (s', rid, resp)" and "secret_key k" and "E (sv_db s') k \<noteq> E (sv_db s) k"
  shows "\<exists>s1 a rt obj cap. mux_route public_routes r = MuxHandler PProtected
    \<and> authenticate v out r s = (s1, Inr a) \<and> mux_route authed_routes r = MuxHandler rt
    \<and> needs rt r = Some (obj, cap) \<and> cap \<in> {CapWrite, CapDelete}
    \<and> policy_allowed (sv_engine s) (as_policy a) obj cap"
  by (rule api.mediated[OF apiI[OF assms(1,2)] assms(3-5)])

theorem secrets_mediated_witness:
  "\<exists>db token s' rid x s1 a rt obj cap.
      serve demo_env (demo_out 0) (demo_put token) (demo_server db) = (s', rid, Done x) \<and> resp_status x = 200
    \<and> map_of (sv_db s') (kv_meta_key ''a'') \<noteq> map_of db (kv_meta_key ''a'')
    \<and> authenticate demo_env (demo_out 0) (demo_put token) (demo_server db) = (s1, Inr a)
    \<and> needs rt (demo_put token) = Some (obj, cap) \<and> policy_allowed (new_engine ''policies'') (as_policy a) obj cap"
proof -
  have u: "utf8_ok ''ada''" "utf8_ok ''user''" "utf8_ok ''admin''" using demo_identity_ok demo_admin_names by auto
  obtain db token m where d: "has_prefix token ''lvt_''" "token \<noteq> []" "\<And>k. \<not> token_key k \<Longrightarrow> map_of db k = None"
    "session_validate mem_badger demo_prims db (0 + 1) token = (db, Inr m)" "sess_policy m = ''admin''"
    by (rule demo_session_at[OF u, of 1]) (auto simp: minute_def second_def)
  have p: "policy_allowed (new_engine ''policies'') (sess_policy m) ''secrets/kv/a'' CapWrite"
    unfolding d(5) by code_simp
  have n: "map_of db (kv_meta_key ''a'') = None" using d(3) zones_disjoint(1) zone_keys(1) by blast
  obtain s' rid x where s: "serve demo_env (demo_out 0) (demo_put token) (demo_server db) = (s', rid, Done x)"
    "resp_status x = 200" "map_of (sv_db s') (kv_meta_key ''a'') \<noteq> None"
    by (rule demo_put_works[OF n _ _ d(4,1,2) p]) (auto simp: minute_def second_def)
  have laws: "badger_laws (env_db demo_env) map_of" "prims_laws (env_prims demo_env)" by (simp_all add: mem_laws demo_laws)
  have ch: "map_of (sv_db s') (kv_meta_key ''a'') \<noteq> map_of (sv_db (demo_server db)) (kv_meta_key ''a'')" using s(3) n by simp
  from secrets_mediated[OF laws s(1) zone_keys(1) ch] s ch show ?thesis by (simp del: not_None_eq) metis
qed

text \<open>
  C2: A request changes an account (user, administrator, service) only through an administration
  route, and, unless the server runs in development mode, only with the proof of an administrator: a stored
  administrator token, a session that an administrator login opened, or the bootstrap, which needs
  that there is no administrator yet. In development mode (env_dev) there is no such guard: whoever
  calls, without any token, may change accounts.
\<close>

theorem accounts_need_admin:
  assumes "badger_laws (env_db v) E" and "prims_laws (env_prims v)"
    and "serve v out r s = (s', rid, resp)" and "account_key k" and "E (sv_db s') k \<noteq> E (sv_db s) k"
  shows "(\<exists>rt. mux_route authed_routes r = MuxHandler rt \<and> rt \<in> admin_routes) \<and> (env_dev v \<or> admin_proof v out r s)"
  by (rule api.account_change[OF apiI[OF assms(1,2)] assms(3-5)])

lemma demo_bootstrap_routes:
  "mux_route public_routes (demo_request ''POST'' ''/v1/sys/admin/create'' tok b) = MuxHandler PProtected"
  "mux_route authed_routes (demo_request ''POST'' ''/v1/sys/admin/create'' tok b) = MuxHandler RAdminCreate"
proof -
  let ?r = "demo_request ''POST'' ''/v1/sys/admin/create'' tok b"
  have "mux_route public_routes (demo_request ''GET'' ''/v1/sys/admin/create'' [] []) = MuxHandler PProtected"
    "mux_route authed_routes (demo_request ''GET'' ''/v1/sys/admin/create'' [] []) = MuxHandler RAdminCreate" by code_simp+
  then show "mux_route public_routes ?r = MuxHandler PProtected" "mux_route authed_routes ?r = MuxHandler RAdminCreate"
    using mux_route_path[of ?r public_routes] mux_route_path[of ?r authed_routes] by simp_all
qed

definition demo_name_body :: bytes where
  "demo_name_body = ''{'' @ [dquote] @ ''name'' @ [dquote] @ '':'' @ [dquote] @ ''root'' @ [dquote] @ ''}''"

lemma demo_bootstrap:
  obtains s' rid x where
    "serve demo_env (demo_out (-2)) (demo_request ''POST'' ''/v1/sys/admin/create'' [] demo_name_body) (demo_server []) = (s', rid, Done x)"
    "resp_status x = 200" "map_of (sv_db s') (admin_key ''root'') \<noteq> None"
proof -
  let ?r = "demo_request ''POST'' ''/v1/sys/admin/create'' [] demo_name_body"
  let ?a = "\<lparr>as_identity = ''bootstrap'', as_method = ''admin_token'', as_policy = ''root''\<rparr>"
  have b: "decode_body (dec_fields2 ''name'' ''policy'') ?r = Some (''root'', [])" by code_simp
  have "has_admins mem_badger [] (-1) = Inr False" using demo_auth.has_admins_iff[of "[]"] by (simp add: visible_def)
  then have a: "authenticate demo_env (demo_out (-2)) ?r (demo_server []) = (demo_server [], Inr ?a)"
    by (simp add: authenticate_def allow_first_admin_bootstrap_def)
  obtain db token where c: "admin_create mem_badger demo_prims [] 0 demo_rng ''root'' ''admin'' = Inr (db, token)"
    using demo_admin_create by blast
  obtain y where y: "map_of db = (map_of [])(admin_key ''root'' \<mapsto> y)"
    by (rule demo_auth.admin_create_cases[OF c demo_admin_names]) blast
  obtain x where h: "route_handler RAdminCreate demo_env (demo_out (-2)) ?r (authed_ctx (demo_out (-2)) ?a) (demo_server []) =
      (demo_server []\<lparr>sv_db := db\<rparr>, Done x)" "resp_status x = 200"
    using b c by (simp add: with_admin_def handle_admin_create_def ok_strings_def ok_json_def)
  have z: "\<not> audit_zone (admin_key ''root'')" using zones_disjoint(2) zone_keys(5) by blast
  have "map_of (sv_db (log_entry demo_env (demo_out (-2)) 5 e (demo_server []\<lparr>sv_db := db\<rparr>))) (admin_key ''root'') = Some y" for e
    using demo_api.log_entry_keeps[OF z] y by simp
  with that serve_answered[OF demo_bootstrap_routes(1) a demo_bootstrap_routes(2) h(1)] h(2) show thesis by simp
qed

theorem accounts_need_admin_witness:
  "\<exists>s' rid x. serve demo_env (demo_out (-2)) (demo_request ''POST'' ''/v1/sys/admin/create'' [] demo_name_body) (demo_server []) = (s', rid, Done x)
    \<and> resp_status x = 200 \<and> map_of (sv_db s') (admin_key ''root'') \<noteq> None
    \<and> admin_proof demo_env (demo_out (-2)) (demo_request ''POST'' ''/v1/sys/admin/create'' [] demo_name_body) (demo_server [])"
proof -
  obtain s' rid x where s: "serve demo_env (demo_out (-2)) (demo_request ''POST'' ''/v1/sys/admin/create'' [] demo_name_body) (demo_server []) = (s', rid, Done x)"
    "resp_status x = 200" "map_of (sv_db s') (admin_key ''root'') \<noteq> None"
    by (rule demo_bootstrap)
  have ch: "map_of (sv_db s') (admin_key ''root'') \<noteq> map_of (sv_db (demo_server [])) (admin_key ''root'')" using s(3) by simp
  from accounts_need_admin[OF demo_env_laws s(1) zone_keys(5) ch] s show ?thesis by (simp del: not_None_eq)
qed

text \<open>
  C15: What is refused changes nothing but sessions and the audit log: without authentication the answer
  is 401, and a caller whose policy does not grant what the request needs, or who is no
  administrator on an administration route, is answered 403.
\<close>

theorem unauthorized_refused:
  assumes "badger_laws (env_db v) E" and "prims_laws (env_prims v)"
    and "serve v out r s = (s', rid, resp)" and "mux_route public_routes r = MuxHandler PProtected"
    and "authenticate v out r s = (s1, d)" and "mux_route authed_routes r = MuxHandler rt"
    and "case d of Inl (_, msg) \<Rightarrow> code = 401 | Inr a \<Rightarrow> code = 403 \<and>
        (rt \<in> admin_routes \<and> \<not> env_dev v \<and> as_method a \<noteq> ''admin_token''
         \<or> (\<exists>obj cap. needs rt r = Some (obj, cap) \<and> \<not> policy_allowed (sv_engine s) (as_policy a) obj cap))"
  shows "(\<exists>x. resp = Done x \<and> resp_status x = code) \<and> sv_engine s' = sv_engine s \<and> sv_challenges s' = sv_challenges s
    \<and> (\<forall>k. \<not> trail_key k \<longrightarrow> E (sv_db s') k = E (sv_db s) k)"
  by (rule api.refused_quiet[OF apiI[OF assms(1,2)] assms(3-7)])

text \<open>A caller with a read-only policy who tries to write.\<close>

theorem unauthorized_refused_witness:
  "\<exists>db token s' rid x. serve demo_env (demo_out 0) (demo_put token) (demo_server db) = (s', rid, Done x)
    \<and> resp_status x = 403 \<and> map_of (sv_db s') (kv_meta_key ''a'') = None"
proof -
  have u: "utf8_ok ''ada''" "utf8_ok ''user''" "utf8_ok ''readonly''" by (rule demo_identity_ok)+
  obtain db token m where d: "has_prefix token ''lvt_''" "token \<noteq> []" "\<And>k. \<not> token_key k \<Longrightarrow> map_of db k = None"
    "session_validate mem_badger demo_prims db (0 + 1) token = (db, Inr m)" "sess_policy m = ''readonly''"
    by (rule demo_session_at[OF u, of 1]) (auto simp: minute_def second_def)
  have a: "authenticate demo_env (demo_out 0) (demo_put token) (demo_server db) = (demo_server db, Inr
      \<lparr>as_identity = sess_identity m, as_method = sess_method m, as_policy = sess_policy m\<rparr>)"
    unfolding demo_put_def by (rule demo_authenticated[OF d(4,1,2)])
  have p: "\<not> policy_allowed (new_engine ''policies'') (sess_policy m) ''secrets/kv/a'' CapWrite"
    unfolding d(5) by code_simp
  have n: "needs RKV (demo_put token) = Some (''secrets/kv/a'', CapWrite)"
    using demo_put_path by (simp add: needs_kv_def demo_put_def kv_object_def)
  obtain s' rid resp where s: "serve demo_env (demo_out 0) (demo_put token) (demo_server db) = (s', rid, resp)"
    by (metis prod.exhaust)
  have z: "\<not> trail_key (kv_meta_key ''a'')" "map_of db (kv_meta_key ''a'') = None"
    using d(3) zones_disjoint(1) zone_keys(1) trail_disjoint(1) by blast+
  have "(\<exists>x. resp = Done x \<and> resp_status x = 403) \<and> (\<forall>k. \<not> trail_key k \<longrightarrow> map_of (sv_db s') k = map_of db k)"
    using unauthorized_refused[OF demo_env_laws s demo_put_routes(1) a demo_put_routes(2), of 403] n p by simp
  then obtain x where "resp = Done x" "resp_status x = 403" "map_of (sv_db s') (kv_meta_key ''a'') = None" using z by auto
  with s show ?thesis by (intro exI[of _ db] exI[of _ token] exI[of _ s'] exI[of _ rid] exI[of _ x]) simp
qed

text \<open>
  The administration routes look at how the caller authenticated and never at the caller's policy:
  with any policy, readonly or an unknown one included, an administrator's request has the same
  answer and the same effect, creating users and administrators with any policy among them.
\<close>

theorem admin_policy_irrelevant:
  assumes "rt \<in> admin_routes"
  shows "route_handler rt v out r (c\<lparr>ctx_policy := p\<rparr>) s = route_handler rt v out r c s"
proof -
  have rid: "get_request_id (c\<lparr>ctx_policy := p\<rparr>) = get_request_id c" by (simp add: get_request_id_def)
  note answers = fail_with_def refuse_rid_def ok_strings_def ok_json_def rid
  note handlers = handle_status_def handle_enroll_def handle_revoke_def handle_audit_def handle_admin_create_def
    handle_admin_delete_def handle_policy_reload_def handle_users_def handle_user_def handle_user_create_def
    handle_user_list_def handle_user_delete_def handle_user_update_def
  show ?thesis using assms unfolding admin_routes_def
    by (cases rt) (simp_all add: with_admin_def handlers answers Let_def
        cong: option.case_cong sum.case_cong prod.case_cong if_cong)
qed

theorem admin_policy_irrelevant_witness:
  "route_handler RAdminCreate demo_env (demo_out (-2)) (demo_request ''POST'' ''/v1/sys/admin/create'' [] demo_name_body)
     ((authed_ctx (demo_out (-2)) \<lparr>as_identity = ''admin:root'', as_method = ''admin_token'', as_policy = ''admin''\<rparr>)\<lparr>ctx_policy := Some ''readonly''\<rparr>) (demo_server [])
   = route_handler RAdminCreate demo_env (demo_out (-2)) (demo_request ''POST'' ''/v1/sys/admin/create'' [] demo_name_body)
     (authed_ctx (demo_out (-2)) \<lparr>as_identity = ''admin:root'', as_method = ''admin_token'', as_policy = ''admin''\<rparr>) (demo_server [])"
  by (rule admin_policy_irrelevant) (simp add: admin_routes_def)

end
