(* ===== verification/Api_Audit_Props.thy ===== *)
theory Api_Audit_Props
  imports Api_Props
begin

text \<open>
  The audit trail of the requests behind the authentication: an answered request appends its one
  line, a request that panics leaves none.
\<close>

section \<open>The handlers leave the log to the middleware\<close>

context api
begin

lemma moves_trail: "moves E Z s s' \<Longrightarrow> (\<And>k. audit_zone k \<Longrightarrow> \<not> Z k) \<Longrightarrow>
    sv_log s' = sv_log s \<and> (\<forall>k. audit_zone k \<longrightarrow> E (sv_db s') k = E (sv_db s) k)"
  by (simp add: moves_def confined_def)

lemma route_log:
  assumes "route_handler rt v out r c s = (s', x)"
  shows "sv_log s' = sv_log s \<and> (\<forall>k. audit_zone k \<longrightarrow> E (sv_db s') k = E (sv_db s) k)"
proof (cases "rt \<in> admin_routes")
  case True
  show ?thesis by (rule moves_trail[OF admin_zone[OF True assms]]) (use zones_disjoint in blast)
next
  case False
  then consider "rt = RKV" | "rt = RTransit" | "rt = RWhoAmI" | "rt = RSession"
    by (cases rt) (auto simp: admin_routes_def)
  then have "\<exists>Z. moves E Z s s' \<and> (\<forall>k. audit_zone k \<longrightarrow> \<not> Z k)"
  proof cases
    case 1
    then show ?thesis using assms kv_zone[of out r c s s' x] zones_disjoint(1) by auto
  next
    case 2
    then show ?thesis using assms transit_zone[of out r c s s' x] zones_disjoint(1) by auto
  next
    case 3
    then show ?thesis using assms zones_disjoint(1) by (auto simp: handle_whoami_def)
  next
    case 4
    then show ?thesis using assms logout_zone[of out r c s s' x] zones_disjoint(3) by auto
  qed
  then show ?thesis using moves_trail by blast
qed

lemma mux_log: "mux_serve authed_routes route_handler v out r c s = (s', x) \<Longrightarrow>
    sv_log s' = sv_log s \<and> (\<forall>k. audit_zone k \<longrightarrow> E (sv_db s') k = E (sv_db s) k)"
  by (auto simp: mux_serve_def dest: route_log split: mux_result.splits)

end

section \<open>Entries that arrived\<close>

text \<open>The entry is the new line of the file and lies in the database under its key.\<close>

definition entry_logged :: "'s env \<Rightarrow> ('s \<Rightarrow> contents) \<Rightarrow> bytes \<Rightarrow> 's server \<Rightarrow> audit_entry \<Rightarrow> bool" where
  "entry_logged v E f s e \<longleftrightarrow> (\<exists>line. json_marshal (enc_audit (env_prims v)) e = Inr line \<and> newline \<notin> set line
     \<and> sv_log s = f @ line @ [newline] \<and> E (sv_db s) (audit_key (env_prims v) e) = Some (line, None))"

definition writes_work :: "'s env \<Rightarrow> outside \<Rightarrow> bool" where
  "writes_work v out \<longleftrightarrow> (\<forall>f d. out_write out f d = (f @ d, True))
     \<and> (\<forall>db t k d. k \<noteq> [] \<longrightarrow> (\<exists>db'. bdg_set (env_db v) db t k d = Inr db'))"

text \<open>The audit state at the end of a request behind the authentication.\<close>

definition caller :: "audit_state \<times> string + audit_state \<Rightarrow> audit_state" where
  "caller d = (case d of Inl (a, _) \<Rightarrow> a | Inr a \<Rightarrow> a)"

lemma audit_key_nonempty: "audit_key P e \<noteq> []"
  by (simp add: audit_key_def)

context api
begin

lemma log_entry_arrives:
  assumes "writes_work v out" "time_ok (ent_time e)" "ent_time e \<noteq> zero_time"
  shows "entry_logged v E (sv_log s) (log_entry v out n e s) (e\<lparr>ent_id := out_ids out n\<rparr>)"
    and "k \<noteq> audit_key (env_prims v) (e\<lparr>ent_id := out_ids out n\<rparr>) \<Longrightarrow> E (sv_db (log_entry v out n e s)) k = E (sv_db s) k"
proof -
  let ?e = "e\<lparr>ent_id := out_ids out n\<rparr>"
  obtain line where line: "json_marshal (enc_audit (env_prims v)) ?e = Inr line"
    using assms(2) by (simp add: json_marshal_def enc_audit_def enc_time_ok)
  obtain db where "bdg_set (env_db v) (sv_db s) (out_clock out n) (audit_key (env_prims v) ?e) line = Inr db"
    using assms(1) audit_key_nonempty[of "env_prims v" ?e] unfolding writes_work_def by blast
  then have db: "db_set (env_db v) (sv_db s) (out_clock out n) (audit_key (env_prims v) ?e) line = Inr db"
    by (simp add: db_set_def lift_bdg_def)
  then have "log_entry v out n e s = s\<lparr>sv_db := db, sv_log := sv_log s @ line @ [newline]\<rparr>"
    using assms(1,3) line by (simp add: log_entry_def audit_log_def writes_work_def)
  with line audit_one_line[OF line] db.set_key_E[OF db]
  show "entry_logged v E (sv_log s) (log_entry v out n e s) ?e"
    and "k \<noteq> audit_key (env_prims v) ?e \<Longrightarrow> E (sv_db (log_entry v out n e s)) k = E (sv_db s) k"
    by (simp_all add: entry_logged_def)
qed

lemma protected_logs:
  assumes s: "serve v out r s = (s', rid, resp)" and p: "mux_route public_routes r = MuxHandler PProtected"
    and w: "env_audit v" "writes_work v out" "time_ok (out_clock out 5)" "out_clock out 5 \<noteq> zero_time"
    and a: "authenticate v out r s = (s1, d)"
  shows "case resp of
      Done x \<Rightarrow> \<exists>e. e = (request_entry out r (first_ctx out) (caller d) (resp_status x))\<lparr>ent_id := out_ids out 5\<rparr>
        \<and> entry_logged v E (sv_log s) s' e
        \<and> (\<forall>k. audit_zone k \<longrightarrow> k \<noteq> audit_key (env_prims v) e \<longrightarrow> E (sv_db s') k = E (sv_db s) k)
    | Panic _ \<Rightarrow> sv_log s' = sv_log s \<and> (\<forall>k. audit_zone k \<longrightarrow> E (sv_db s') k = E (sv_db s) k)"
proof -
  have t: "ent_time (request_entry out r c b code) = out_clock out 5" for c b code
    by (simp add: request_entry_def Let_def)
  have arrives: "entry_logged v E (sv_log q) (log_entry v out 5 (request_entry out r (first_ctx out) b code) q)
      ((request_entry out r (first_ctx out) b code)\<lparr>ent_id := out_ids out 5\<rparr>)
    \<and> (\<forall>k. k \<noteq> audit_key (env_prims v) ((request_entry out r (first_ctx out) b code)\<lparr>ent_id := out_ids out 5\<rparr>) \<longrightarrow>
      E (sv_db (log_entry v out 5 (request_entry out r (first_ctx out) b code) q)) k = E (sv_db q) k)" for q b code
    using log_entry_arrives[OF w(2), of "request_entry out r (first_ctx out) b code"] w(3,4) by (simp add: t)
  have auth: "sv_log q = sv_log s \<and> (\<forall>k. audit_zone k \<longrightarrow> E (sv_db q) k = E (sv_db s) k)"
    if "authenticate v out r s = (q, b)" for q b
    by (rule moves_trail[OF authenticate_step(1)[OF that]]) (use zones_disjoint in blast)
  have prot: "protected_handler v out r (first_ctx out) s = (s', resp)"
    using s serve_public[OF p, of v out s] by (auto split: prod.splits)
  then show ?thesis
  proof (cases rule: protected_cases)
    case (refused s2 b msg)
    then show ?thesis using a w(1) arrives[of s2 b 401] auth[OF refused(1)]
      by (auto simp: caller_def)
  next
    case (panicked s2 b m)
    then show ?thesis using mux_log[OF panicked(2)] auth[OF panicked(1)] by simp
  next
    case (answered s2 s3 b x)
    then show ?thesis using a w(1) arrives[of s3 b "resp_status x"]
        mux_log[OF answered(2)] auth[OF answered(1)]
      by (auto simp: caller_def)
  qed
qed

end

section \<open>Properties\<close>

text \<open>
  C14: With an audit logger (there is none in development mode), when the writes to the database and to the audit file
  succeed and the clock gives a time that JSON can hold, every answered request behind the authentication, refused ones included,
  leaves exactly one entry: one line at the end of the audit file and one record in the database. It has the identity,
  method and policy that the authentication found ("unauthenticated" when it found none), the operation by
  the name of the code (kv.write, not the HTTP method that the documentation names), the path, the
  client's address, the id of the request and the outcome: denied for 401 and 403, error for the other codes from 400 on, and else allowed.
  A request whose handler panics leaves neither line nor record. A write that fails is ignored by the middleware: then
  the entry may be missing, and the request is answered as if it were there.
\<close>

theorem protected_audited:
  assumes "badger_laws (env_db v) E" and "prims_laws (env_prims v)"
    and "serve v out r s = (s', rid, resp)" and "mux_route public_routes r = MuxHandler PProtected"
    and "env_audit v" and "writes_work v out" and "time_ok (out_clock out 5)" and "out_clock out 5 \<noteq> zero_time"
    and "authenticate v out r s = (s1, d)"
  shows "case resp of
      Done x \<Rightarrow> \<exists>e. entry_logged v E (sv_log s) s' e
        \<and> (\<forall>k. audit_zone k \<longrightarrow> k \<noteq> audit_key (env_prims v) e \<longrightarrow> E (sv_db s') k = E (sv_db s) k)
        \<and> ent_id e = out_ids out 5 \<and> ent_time e = out_clock out 5
        \<and> (ent_identity e, ent_method e, ent_policy e) =
            (if as_identity (caller d) \<noteq> [] then (as_identity (caller d), as_method (caller d), as_policy (caller d))
             else (''unauthenticated'', ''none'', []))
        \<and> ent_operation e = semantic_operation (req_method r) (req_path r) \<and> ent_path e = req_path r
        \<and> ent_ip e = req_remote r \<and> ent_request e = rid \<and> ent_version e = 0 \<and> ent_error e = []
        \<and> ent_status e = (if resp_status x = 401 \<or> resp_status x = 403 then ''denied''
             else if 400 \<le> resp_status x then ''error'' else ''allowed'')
    | Panic _ \<Rightarrow> sv_log s' = sv_log s \<and> (\<forall>k. audit_zone k \<longrightarrow> E (sv_db s') k = E (sv_db s) k)"
proof -
  have rid: "rid = ctx_request_id (first_ctx out)" using assms(3) serve_public[OF assms(4), of v out s] by (auto split: prod.splits)
  note l = api.protected_logs[OF apiI[OF assms(1,2)] assms(3-9)]
  show ?thesis
  proof (cases resp)
    case (Done x)
    let ?e = "(request_entry out r (first_ctx out) (caller d) (resp_status x))\<lparr>ent_id := out_ids out 5\<rparr>"
    have "entry_logged v E (sv_log s) s' ?e"
      "\<forall>k. audit_zone k \<longrightarrow> k \<noteq> audit_key (env_prims v) ?e \<longrightarrow> E (sv_db s') k = E (sv_db s) k" using l Done by auto
    then show ?thesis unfolding Done outcome.case
      by (intro exI[of _ ?e]) (simp add: request_entry_def unauthenticated_def audit_status_def Let_def rid)
  qed (use l in simp)
qed

theorem protected_audited_witness:
  "\<exists>s' rid x line. serve demo_env (demo_out 0) (demo_put ''guess'') (demo_server []) = (s', rid, Done x)
    \<and> resp_status x = 401 \<and> sv_log s' = line @ [newline] \<and> newline \<notin> set line
    \<and> (\<exists>e. json_marshal (enc_audit demo_prims) e = Inr line \<and> ent_status e = ''denied''
         \<and> ent_identity e = ''unauthenticated'' \<and> ent_operation e = ''kv.write'' \<and> ent_path e = ''/v1/secrets/kv/a'')"
proof -
  let ?r = "demo_put ''guess''" and ?s = "demo_server []" and ?out = "demo_out 0"
  have a: "authenticate demo_env ?out ?r ?s = (?s, Inl (unauthenticated ''unknown'', ''unrecognized token format''))"
  proof -
    have "\<not> has_prefix ''guess'' ''lvt_''" "\<not> has_prefix ''guess'' ''lkat_''" by code_simp+
    then show ?thesis by (simp add: authenticate_def demo_put_def Let_def)
  qed
  obtain s' rid x where s: "serve demo_env ?out ?r ?s = (s', rid, Done x)" "resp_status x = 401"
    using serve_unauthenticated[OF demo_put_routes(1) a] by simp
  have w: "writes_work demo_env ?out"
    by (simp add: writes_work_def mem_badger_def)
  have t: "time_ok (out_clock ?out 5)" "out_clock ?out 5 \<noteq> zero_time"
    by (simp_all add: time_ok_def second_def zero_time_def)
  have op: "semantic_operation ''PUT'' ''/v1/secrets/kv/a'' = ''kv.write''" by code_simp
  obtain e where "entry_logged demo_env map_of [] s' e" and e: "ent_status e = ''denied''" "ent_identity e = ''unauthenticated''"
    "ent_operation e = ''kv.write''" "ent_path e = ''/v1/secrets/kv/a''"
    using protected_audited[OF demo_env_laws s(1) demo_put_routes(1) _ w t a] s(2) op
    by (auto simp: caller_def unauthenticated_def demo_put_def)
  then obtain line where l: "json_marshal (enc_audit demo_prims) e = Inr line" "newline \<notin> set line" "sv_log s' = line @ [newline]"
    by (auto simp: entry_logged_def)
  from s l e show ?thesis by blast
qed

end
