(* ===== verification/Server_Run.thy ===== *)
theory Server_Run
  imports Api_Router
begin

text \<open>
  internal/server/server.go: what Run sets up before it listens, from the configuration and what it
  finds on the host, and the command that calls it (serverCmd and loadConfig in cmd/lockr/main.go).
  Listening, signals and the shutdown belong to the operating system.
\<close>

section \<open>The host\<close>

text \<open>
  \<open>host_open\<close> is badger.Open on a directory, in memory or not; \<open>host_log\<close> is opening a file for
  appending, with the contents it has; \<open>host_pair\<close> says whether a certificate and its key load.
\<close>

record 's host =
  host_open :: "string \<Rightarrow> bool \<Rightarrow> err + 's"
  host_environ :: "string \<Rightarrow> string"
  host_read :: "string \<Rightarrow> bytes option"
  host_log :: "string \<Rightarrow> bytes option"
  host_pair :: "string \<Rightarrow> string \<Rightarrow> bool"
  host_policies :: policy_files
  host_rng :: rng
  host_time :: time

definition storage_open :: "'s host \<Rightarrow> string \<Rightarrow> bool \<Rightarrow> err + 's" where
  "storage_open h data_dir in_memory = host_open h (if in_memory then [] else data_dir) in_memory"

definition new_logger :: "'s host \<Rightarrow> string \<Rightarrow> err + bytes" where
  "new_logger h path = (case host_log h path of
     None \<Rightarrow> Inl (Wrapped ''open audit log'' (ErrFile path)) | Some f \<Rightarrow> Inr f)"

section \<open>Run\<close>

text \<open>The four stages that can fail, each with what development mode does instead.\<close>

definition open_crypto :: "prims \<Rightarrow> 's host \<Rightarrow> config \<Rightarrow> bool \<Rightarrow> (err + crypto) outcome" where
  "open_crypto P h cfg dev =
     (if dev then (case generate_master_key (host_rng h) 0 of
        Inl e \<Rightarrow> Done (Inl e) | Inr key \<Rightarrow> Done (Inr \<lparr>masterKey = key\<rparr>))
      else (let passphrase = host_environ h ''LOCKR_PASSPHRASE'' in
        if passphrase = [] then Done (Inl (ErrText ''LOCKR_PASSPHRASE environment variable is required''))
        else (case load_master_key P (host_read h (sto_master_key (cfg_storage cfg))) passphrase of
            Panic m \<Rightarrow> Panic m
          | Done (Inl e) \<Rightarrow> Done (Inl (Wrapped ''load master key'' e))
          | Done (Inr key) \<Rightarrow> Done (Inr \<lparr>masterKey = key\<rparr>))))"

definition open_audit :: "'s host \<Rightarrow> config \<Rightarrow> bool \<Rightarrow> err + bytes" where
  "open_audit h cfg dev = (if dev then Inr []
     else (case new_logger h (aud_log_file (cfg_audit cfg)) of
        Inl e \<Rightarrow> Inl (Wrapped ''init audit logger'' e) | Inr f \<Rightarrow> Inr f))"

definition open_policies :: "'s host \<Rightarrow> config \<Rightarrow> bool \<Rightarrow> err + engine" where
  "open_policies h cfg dev = (let engine = new_engine (pol_dir (cfg_policy cfg)) in
     if dev then Inr engine
     else (case load_all (host_policies h) engine of
        Inl e \<Rightarrow> Inl (Wrapped ''load policies'' e) | Inr loaded \<Rightarrow> Inr loaded))"

definition open_tls :: "'s host \<Rightarrow> config \<Rightarrow> bool \<Rightarrow> err option" where
  "open_tls h cfg dev = (if dev then None
     else if host_pair h (srv_tls_cert (cfg_server cfg)) (srv_tls_key (cfg_server cfg)) then None
     else Some (Wrapped ''load TLS cert'' (ErrFile (srv_tls_cert (cfg_server cfg)))))"

text \<open>
  Run up to the point where it listens: the fixed part of the server and its first state. \<open>v\<close> carries the
  database, the primitives and the texts of the Go library.
\<close>

definition server_run :: "'s env \<Rightarrow> 's host \<Rightarrow> config \<Rightarrow> bool \<Rightarrow> (err + 's env \<times> 's server) outcome" where
  "server_run v h cfg dev = (case storage_open h (sto_data_dir (cfg_storage cfg)) dev of
     Inl e \<Rightarrow> Done (Inl (Wrapped ''open storage'' e))
   | Inr db \<Rightarrow> (case open_crypto (env_prims v) h cfg dev of
        Panic m \<Rightarrow> Panic m
      | Done (Inl e) \<Rightarrow> Done (Inl e)
      | Done (Inr crypto) \<Rightarrow> (case open_audit h cfg dev of
           Inl e \<Rightarrow> Done (Inl e)
         | Inr f \<Rightarrow> (case open_policies h cfg dev of
              Inl e \<Rightarrow> Done (Inl e)
            | Inr engine \<Rightarrow> (case open_tls h cfg dev of
                 Some e \<Rightarrow> Done (Inl e)
               | None \<Rightarrow> Done (Inr
                   (v\<lparr>env_crypto := crypto, env_dev := dev, env_audit := \<not> dev, env_config := cfg, env_start := host_time h\<rparr>,
                    \<lparr>sv_db = db, sv_engine = engine, sv_challenges = (\<lambda>_. None), sv_log = f\<rparr>)))))))"

text \<open>SIGHUP: the policies are loaded again, and a failure is ignored.\<close>

definition reload_policies :: "policy_files \<Rightarrow> 's server \<Rightarrow> 's server" where
  "reload_policies F s = (case load_all F (sv_engine s) of Inl _ \<Rightarrow> s | Inr engine \<Rightarrow> s\<lparr>sv_engine := engine\<rparr>)"

section \<open>The server command\<close>

definition load_config :: "config_files \<Rightarrow> string \<Rightarrow> err + config" where
  "load_config F cfg_file = config_load F (if cfg_file = [] then ''/etc/lockr/config.yml'' else cfg_file)"

text \<open>Development mode ignores the configuration, its errors included, and listens on all interfaces.\<close>

definition dev_config :: config where
  "dev_config = config_defaults\<lparr>cfg_server := (cfg_server config_defaults)\<lparr>srv_addr := ''0.0.0.0:8300''\<rparr>\<rparr>"

definition server_cmd :: "'s env \<Rightarrow> 's host \<Rightarrow> config_files \<Rightarrow> string \<Rightarrow> bool \<Rightarrow> (err + 's env \<times> 's server) outcome" where
  "server_cmd v h F cfg_file dev = (case load_config F cfg_file of
     Inl e \<Rightarrow> if \<not> dev then Done (Inl (Wrapped ''load config'' e)) else server_run v h dev_config dev
   | Inr cfg \<Rightarrow> server_run v h (if dev then dev_config else cfg) dev)"

lemma server_run_Inr:
  assumes "server_run v h cfg dev = Done (Inr (v', s))"
  obtains db crypto f engine where "storage_open h (sto_data_dir (cfg_storage cfg)) dev = Inr db"
    "open_crypto (env_prims v) h cfg dev = Done (Inr crypto)" "open_audit h cfg dev = Inr f"
    "open_policies h cfg dev = Inr engine" "open_tls h cfg dev = None"
    "v' = v\<lparr>env_crypto := crypto, env_dev := dev, env_audit := \<not> dev, env_config := cfg, env_start := host_time h\<rparr>"
    "s = \<lparr>sv_db = db, sv_engine = engine, sv_challenges = (\<lambda>_. None), sv_log = f\<rparr>"
  using assms by (auto simp: server_run_def split: sum.splits outcome.splits option.splits)

end
