(* ===== verification/Go_Wellformed.thy ===== *)
theory Go_Wellformed
  imports Go_Json
begin

text \<open>
  What the JSON decoder can return: whatever the text, the strings are UTF-8 and the numbers are literals
  of the grammar.
\<close>

section \<open>Runes\<close>

lemma utf8_two:
  assumes "x < 32" "2 \<le> x" "y < 64"
  shows "utf8_ok (char_of (192 + x :: nat) # char_of (128 + y :: nat) # t) = utf8_ok t"
proof -
  have "of_char (char_of (192 + x)) = (192 + x :: nat)" "of_char (char_of (128 + y)) = (128 + y :: nat)"
    using assms by simp_all
  then show ?thesis using assms
    by (simp add: utf8_ok.simps(2) decode_rune_def second_ok_def second_range_def byte_in_def Let_def)
qed

lemma utf8_three:
  assumes "x < 16" "y < 64" "z < 64" "x = 0 \<Longrightarrow> 32 \<le> y" "x = 13 \<Longrightarrow> y < 32"
  shows "utf8_ok (char_of (224 + x :: nat) # char_of (128 + y :: nat) # char_of (128 + z :: nat) # t) = utf8_ok t"
proof -
  have "of_char (char_of (224 + x)) = (224 + x :: nat)" "of_char (char_of (128 + y)) = (128 + y :: nat)"
    "of_char (char_of (128 + z)) = (128 + z :: nat)"
    using assms by simp_all
  then show ?thesis using assms
    by (auto simp: utf8_ok.simps(2) decode_rune_def second_ok_def second_range_def byte_in_def Let_def)
qed

lemma utf8_four:
  assumes "x < 5" "w < 64" "y < 64" "z < 64" "x = 0 \<Longrightarrow> 16 \<le> w" "x = 4 \<Longrightarrow> w < 16"
  shows "utf8_ok (char_of (240 + x :: nat) # char_of (128 + w :: nat) # char_of (128 + y :: nat) # char_of (128 + z :: nat) # t)
    = utf8_ok t"
proof -
  have "of_char (char_of (240 + x)) = (240 + x :: nat)" "of_char (char_of (128 + w)) = (128 + w :: nat)"
    "of_char (char_of (128 + y)) = (128 + y :: nat)" "of_char (char_of (128 + z)) = (128 + z :: nat)"
    using assms by simp_all
  then show ?thesis using assms
    by (auto simp: utf8_ok.simps(2) decode_rune_def second_ok_def second_range_def byte_in_def Let_def)
qed

lemma utf8_encode_rune [simp]: "utf8_ok (encode_rune r @ t) = utf8_ok t"
proof -
  consider "r < 128" | "128 \<le> r" "r < 2048" | "1114111 < r \<or> 55296 \<le> r \<and> r \<le> 57343"
    | "2048 \<le> r" "r < 65536" "\<not> (55296 \<le> r \<and> r \<le> 57343)" | "65536 \<le> r" "r \<le> 1114111" by linarith
  then show ?thesis
  proof cases
    case 1
    then show ?thesis by (simp add: encode_rune_def is_ascii_def)
  next
    case 2
    then have "utf8_ok (char_of (192 + r div 64) # char_of (128 + r mod 64) # t) = utf8_ok t"
      by (intro utf8_two) (simp_all add: less_mult_imp_div_less le_div_geq div_le_mono[of 128 r 64, simplified])
    with 2 show ?thesis by (simp add: encode_rune_def)
  next
    case 3
    then have "encode_rune r = replacement" by (auto simp: encode_rune_def)
    then show ?thesis by simp
  next
    case 4
    have e: "r div 64 = 64 * (r div 4096) + r div 64 mod 64" using div_mult2_eq[of r 64 64] by simp
    then have s: "r div 4096 = 13 \<Longrightarrow> r div 64 mod 64 < 32" using 4 by linarith
    have z: "r div 4096 = 0 \<Longrightarrow> 32 \<le> r div 64 mod 64" using 4 e by linarith
    have "r div 4096 < 16" using 4 by (simp add: less_mult_imp_div_less)
    then have "utf8_ok (char_of (224 + r div 4096) # char_of (128 + r div 64 mod 64) # char_of (128 + r mod 64) # t) = utf8_ok t"
      by (intro utf8_three) (use s z in simp_all)
    with 4 show ?thesis by (simp add: encode_rune_def)
  next
    case 5
    have e: "r div 4096 = 64 * (r div 262144) + r div 4096 mod 64" using div_mult2_eq[of r 4096 64] by simp
    then have s: "r div 262144 = 4 \<Longrightarrow> r div 4096 mod 64 < 16" using 5 by linarith
    have z: "r div 262144 = 0 \<Longrightarrow> 16 \<le> r div 4096 mod 64" using 5 e by linarith
    have "r div 262144 < 5" using 5 by (simp add: less_mult_imp_div_less)
    then have "utf8_ok (char_of (240 + r div 262144) # char_of (128 + r div 4096 mod 64)
        # char_of (128 + r div 64 mod 64) # char_of (128 + r mod 64) # t) = utf8_ok t"
      by (intro utf8_four) (use s z in simp_all)
    with 5 show ?thesis by (simp add: encode_rune_def)
  qed
qed

section \<open>Strings\<close>

lemma simple_escape_ascii: "simple_escape e = Some c \<Longrightarrow> is_ascii c"
  by (auto simp: simple_escape_def is_ascii_def dquote_def backslash_def split: if_splits)

lemma unquote_utf8: "unquote s = Some (x, r) \<Longrightarrow> utf8_ok x"
proof (induction s arbitrary: x r rule: length_induct)
  case (1 s)
  show ?case
  proof (cases s)
    case (Cons a u)
    have ih: "utf8_ok t" if "unquote (drop n u) = Some (t, q)" for n t q
    proof -
      have "length (drop n u) < length s" using Cons by simp
      with "1.IH" that show ?thesis by blast
    qed
    note ih0 = ih[of 0, simplified]
    have step: "utf8_ok t" if "decode_rune (a # u) = Some (c, n)" "unquote (drop n (a # u)) = Some (t, q)" for c n t q
      using that ih[of "n - 1"] decode_rune_width[OF that(1)] by (cases n) auto
    have esc: "utf8_ok t" if "u = e # w" "unquote (drop n w) = Some (t, q)" for e w n t q
      using that ih[of "Suc n"] by simp
    note esc0 = esc[of _ _ 0, simplified]
    show ?thesis using "1.prems" Cons
      by (auto simp: unquote.simps(2)[of a u] utf8_ok_rune simple_escape_ascii
        split: if_splits list.splits option.splits dest!: prepend_SomeD intro: ih0 step esc esc0)
  qed (use "1.prems" in simp)
qed

section \<open>Numbers\<close>

lemma scan_digits_again: "scan_digits s = Some (a, b) \<Longrightarrow> scan_digits a = Some (a, []) \<and> s = a @ b \<and> a \<noteq> []"
  by (auto simp: scan_digits_def Let_def takeWhile_eq_all_conv dropWhile_eq_Nil_conv
      split: if_splits dest: set_takeWhileD)

lemma scan_int_again:
  assumes "scan_int s = Some (a, b)"
  shows "scan_int a = Some (a, []) \<and> s = a @ b \<and> a \<noteq> []"
proof (cases "\<exists>r. s = CHR ''0'' # r")
  case False
  then have "scan_digits s = Some (a, b)" using assms by (auto simp: scan_int_def split: list.splits)
  from scan_digits_again[OF this] False show ?thesis by (cases a) (auto simp: scan_int_def)
qed (use assms in \<open>auto simp: scan_int_def\<close>)

lemma scan_frac_again:
  assumes "scan_frac s = Some (a, b)"
  shows "scan_frac a = Some (a, []) \<and> s = a @ b"
proof (cases "\<exists>r. s = CHR ''.'' # r")
  case True
  then obtain r t where "s = CHR ''.'' # r" "scan_digits r = Some (t, b)" "a = CHR ''.'' # t"
    using assms by (auto simp: scan_frac_def dest!: prepend_SomeD)
  with scan_digits_again show ?thesis by (auto simp: scan_frac_def)
qed (use assms in \<open>auto simp: scan_frac_def split: list.splits\<close>)

lemma scan_exp_again:
  assumes "scan_exp s = Some (a, b)"
  shows "scan_exp a = Some (a, []) \<and> s = a @ b"
proof (cases "\<exists>c r. s = c # r \<and> (c = CHR ''e'' \<or> c = CHR ''E'')")
  case True
  then obtain c d r where s: "s = c # d # r" "c = CHR ''e'' \<or> c = CHR ''E''"
    using assms by (auto simp: scan_exp_def split: list.splits)
  show ?thesis
  proof (cases "d = CHR ''+'' \<or> d = CHR ''-''")
    case True
    then obtain t where t: "scan_digits r = Some (t, b)" "a = c # d # t"
      using assms s by (auto simp: scan_exp_def dest!: prepend_SomeD)
    with scan_digits_again[OF t(1)] True s show ?thesis by (auto simp: scan_exp_def)
  next
    case False
    then obtain t where t: "scan_digits (d # r) = Some (t, b)" "a = c # t"
      using assms s by (auto simp: scan_exp_def dest!: prepend_SomeD)
    with scan_digits_again[OF t(1)] False s show ?thesis by (cases t) (auto simp: scan_exp_def)
  qed
qed (use assms in \<open>auto simp: scan_exp_def split: list.splits\<close>)

text \<open>A part of a number followed by something that does not continue its digits.\<close>

definition no_digit :: "string \<Rightarrow> bool" where
  "no_digit s \<longleftrightarrow> s = [] \<or> \<not> is_digit (hd s)"

lemma scan_digits_then: "scan_digits a = Some (a, []) \<Longrightarrow> no_digit t \<Longrightarrow> scan_digits (a @ t) = Some (a, t)"
  using takeWhile_stop[of t is_digit a] by (auto simp: no_digit_def scan_digits_def Let_def split: if_splits)

lemma scan_int_then:
  assumes "scan_int a = Some (a, [])" "no_digit t"
  shows "scan_int (a @ t) = Some (a, t)"
proof (cases "\<exists>r. a = CHR ''0'' # r")
  case False
  then have "scan_digits a = Some (a, [])" "a \<noteq> []" using assms(1) by (auto simp: scan_int_def split: list.splits)
  with scan_digits_then[OF this(1) assms(2)] False show ?thesis by (cases a) (auto simp: scan_int_def)
qed (use assms in \<open>auto simp: scan_int_def\<close>)

lemma scan_frac_then:
  assumes "scan_frac a = Some (a, [])" "no_digit t" "t = [] \<or> hd t \<noteq> CHR ''.''"
  shows "scan_frac (a @ t) = Some (a, t)"
proof (cases "\<exists>r. a = CHR ''.'' # r")
  case True
  then obtain r where r: "a = CHR ''.'' # r" "scan_digits r = Some (r, [])"
    using assms(1) by (auto simp: scan_frac_def dest!: prepend_SomeD)
  with scan_digits_then[OF r(2) assms(2)] show ?thesis by (simp add: scan_frac_def)
next
  case False
  then have "a = []" using assms(1) by (auto simp: scan_frac_def split: list.splits)
  with assms(3) show ?thesis by (cases t) (auto simp: scan_frac_def)
qed

lemma frac_no_digit: "scan_frac a = Some (a, []) \<Longrightarrow> a = [] \<or> hd a = CHR ''.''"
  by (auto simp: scan_frac_def split: list.splits if_splits)

lemma exp_no_digit: "scan_exp a = Some (a, []) \<Longrightarrow> a = [] \<or> hd a = CHR ''e'' \<or> hd a = CHR ''E''"
  by (auto simp: scan_exp_def split: list.splits if_splits)

lemma scan_unsigned_again:
  assumes "scan_unsigned s = Some (a, b)"
  shows "scan_unsigned a = Some (a, []) \<and> a \<noteq> []"
proof -
  obtain i r f t x where p: "scan_int s = Some (i, r)" "scan_frac r = Some (f, t)" "scan_exp t = Some (x, b)"
    and a: "a = i @ f @ x"
    using assms by (auto simp: scan_unsigned_def split: option.splits dest!: prepend_SomeD)
  note q = scan_int_again[OF p(1)] scan_frac_again[OF p(2)] scan_exp_again[OF p(3)]
  have x: "x = [] \<or> hd x = CHR ''e'' \<or> hd x = CHR ''E''" using q exp_no_digit by blast
  then have nx: "no_digit x" "x = [] \<or> hd x \<noteq> CHR ''.''" by (auto simp: no_digit_def is_digit_def)
  have nf: "no_digit (f @ x)"
    using frac_no_digit[of f] q nx(1) by (cases f) (auto simp: no_digit_def is_digit_def)
  have "scan_int (i @ f @ x) = Some (i, f @ x)" "scan_frac (f @ x) = Some (f, x)"
    using scan_int_then[OF _ nf] scan_frac_then[OF _ nx] q by blast+
  with a q show ?thesis by (simp add: scan_unsigned_def)
qed

lemma scan_number_ok:
  assumes "scan_number s = Some (a, b)"
  shows "num_ok a"
proof (cases "has_prefix s ''-''")
  case True
  then obtain t where t: "scan_unsigned (tl s) = Some (t, b)" "a = CHR ''-'' # t"
    using assms by (auto simp: scan_number_def dest!: prepend_SomeD)
  with scan_unsigned_again[OF t(1)] show ?thesis by (simp add: num_ok_def scan_number_def has_prefix_def)
next
  case False
  then have u: "scan_unsigned s = Some (a, b)" using assms by (simp add: scan_number_def)
  then obtain i where "scan_int s = Some i" by (auto simp: scan_unsigned_def split: option.splits)
  note w = scan_unsigned_again[OF u]
  have "\<not> has_prefix a ''-''"
  proof
    assume "has_prefix a ''-''"
    then obtain r where "a = CHR ''-'' # r" by (auto simp: has_prefix_iff)
    then have "scan_int a = None" by (auto simp: scan_int_def scan_digits_def is_digit_def)
    with w show False by (simp add: scan_unsigned_def)
  qed
  with w show ?thesis by (simp add: num_ok_def scan_number_def)
qed

section \<open>Values\<close>

lemma parse_wellformed:
  "(\<forall>s j r. parse_value n s = Some (j, r) \<longrightarrow> json_nums_ok j \<and> json_utf8 j)
   \<and> (\<forall>s js r. parse_elems n s = Some (js, r) \<longrightarrow> list_all json_nums_ok js \<and> list_all json_utf8 js)
   \<and> (\<forall>s ms r. parse_members n s = Some (ms, r) \<longrightarrow>
        list_all (\<lambda>(k, j). json_nums_ok j) ms \<and> list_all (\<lambda>(k, j). utf8_ok k \<and> json_utf8 j) ms)"
proof (induction n)
  case (Suc n)
  have v: "json_nums_ok j \<and> json_utf8 j" if "parse_value n s = Some (j, r)" for s j r using Suc that by blast
  have es: "list_all json_nums_ok js \<and> list_all json_utf8 js" if "parse_elems n s = Some (js, r)" for s js r
    using Suc that by blast
  have ms: "list_all (\<lambda>(k, j). json_nums_ok j) ms \<and> list_all (\<lambda>(k, j). utf8_ok k \<and> json_utf8 j) ms"
    if "parse_members n s = Some (ms, r)" for s ms r using Suc that by blast
  have "json_nums_ok j \<and> json_utf8 j" if "parse_value (Suc n) s = Some (j, r)" for s j r
    using that by (auto split: list.splits if_splits option.splits dest: es ms unquote_utf8 scan_number_ok)
  moreover have "list_all json_nums_ok js \<and> list_all json_utf8 js" if "parse_elems (Suc n) s = Some (js, r)" for s js r
    using that by (auto split: list.splits if_splits option.splits dest!: v es)
  moreover have "list_all (\<lambda>(k, j). json_nums_ok j) ms \<and> list_all (\<lambda>(k, j). utf8_ok k \<and> json_utf8 j) ms"
    if "parse_members (Suc n) s = Some (ms, r)" for s ms r
    using that by (auto split: list.splits if_splits option.splits dest!: v ms unquote_utf8)
  ultimately show ?case by blast
qed simp

lemma json_decode_ok:
  assumes "json_decode s = Some j"
  shows "json_ok j"
proof -
  obtain r where "parse_value (2 * length s + 2) s = Some (j, r)" "json_depth j \<le> max_depth"
    using assms by (auto simp: json_decode_def split: option.splits if_splits)
  with parse_wellformed[of "2 * length s + 2"] show ?thesis unfolding json_ok_def by blast
qed

end
