(* ===== verification/Api_Runs.thy ===== *)
theory Api_Runs
  imports Api_Secrets Server_Run Go_Wellformed
begin

text \<open>
  Whole runs of the server: any number of requests of any callers, with reloads of the policies between
  them. Through all of them the stored records of the two engines keep representing histories and key rings
  that only grow.
\<close>

section \<open>Paths of requests\<close>

text \<open>An ASCII byte is no part of a longer rune, so a path stays UTF-8 when an ASCII suffix is cut off.\<close>

lemma decode_rune_before:
  assumes "decode_rune (x @ c # u) = Some (r, n)" "is_ascii c" "x \<noteq> []"
  shows "n \<le> length x"
proof (rule ccontr)
  assume n: "\<not> n \<le> length x"
  have c: "\<not> byte_in 128 191 c" "\<not> second_ok a c" for a
    using assms(2) by (auto simp: byte_in_def second_ok_def second_range_def is_ascii_def)
  obtain a y where x: "x = a # y" using assms(3) by (cases x) auto
  consider "y = []" | b where "y = [b]" | b d where "y = [b, d]" | b d e z where "y = b # d # e # z"
    by (cases y rule: list.exhaust; cases "tl y" rule: list.exhaust; cases "tl (tl y)" rule: list.exhaust) auto
  then show False using assms(1) n c x
    by cases (auto simp: decode_rune_def Let_def split: if_splits list.splits)
qed

lemma utf8_before_ascii: "utf8_ok (x @ c # u) \<Longrightarrow> is_ascii c \<Longrightarrow> utf8_ok x"
proof (induction x rule: length_induct)
  case (1 x)
  show ?case
  proof (cases x)
    case (Cons a y)
    then obtain r n where d: "decode_rune (x @ c # u) = Some (r, n)" and k: "utf8_ok (drop n (x @ c # u))"
      using "1.prems"(1) by (auto simp: utf8_ok.simps(2) split: option.splits)
    have n: "n \<le> length x" "1 \<le> n" using decode_rune_before[OF d "1.prems"(2)] decode_rune_width[OF d] Cons by auto
    have "decode_rune x = Some (r, n)" using decode_rune_take[OF d, of "drop n x"] n by simp
    moreover have "utf8_ok (drop n x)"
    proof -
      have "utf8_ok (drop n x @ c # u)" using k n by simp
      moreover have "length (drop n x) < length x" using n by simp
      ultimately show ?thesis using "1.IH" "1.prems"(2) by blast
    qed
    ultimately show ?thesis using Cons by (simp add: utf8_ok.simps(2))
  qed simp
qed

lemma utf8_trim_prefix:
  assumes "utf8_ok p" "list_all is_ascii q"
  shows "utf8_ok (trim_prefix p q)"
proof (cases "has_prefix p q")
  case True
  then obtain t where "p = q @ t" by (rule has_prefixE)
  then show ?thesis using assms utf8_ok_append[OF utf8_ok_all_ascii[OF assms(2)]] by simp
qed (use assms in \<open>simp add: trim_prefix_absent\<close>)

lemma utf8_trim_suffix:
  assumes "utf8_ok p" "is_ascii c"
  shows "utf8_ok (trim_suffix p (c # q))"
proof (cases "has_suffix p (c # q)")
  case True
  then obtain t where "p = t @ c # q" by (auto simp: has_suffix_iff)
  with utf8_before_ascii assms show ?thesis by auto
qed (use assms in \<open>simp add: trim_suffix_absent\<close>)

text \<open>
  The requests that the invariant is about: the path is UTF-8, and the body is not nested 10000 deep (a value of
  that depth is stored but cannot be read back).
\<close>

definition fine_request :: "request \<Rightarrow> bool" where
  "fine_request r \<longleftrightarrow> utf8_ok (req_path r) \<and> (\<forall>j. json_decode (req_body r) = Some j \<longrightarrow> json_depth j < max_depth)"

lemma fine_body: "fine_request r \<Longrightarrow> json_decode (req_body r) = Some j \<Longrightarrow> value_ok j"
  using json_decode_ok by (auto simp: fine_request_def value_ok_def)

lemma fine_paths:
  assumes "fine_request r"
  shows "utf8_ok (trim_prefix (req_path r) kv_prefix)"
    and "utf8_ok (trim_suffix (trim_prefix (req_path r) kv_prefix) ''/rollback'')"
    and "is_ascii c \<Longrightarrow> utf8_ok (transit_key_name (req_path r) (c # suffix))"
proof -
  have a: "list_all is_ascii kv_prefix" "list_all is_ascii ''/v1/secrets/transit/''" by code_simp+
  have p: "utf8_ok (req_path r)" using assms by (simp add: fine_request_def)
  show k: "utf8_ok (trim_prefix (req_path r) kv_prefix)" by (rule utf8_trim_prefix[OF p a(1)])
  show "utf8_ok (trim_suffix (trim_prefix (req_path r) kv_prefix) ''/rollback'')"
    by (rule utf8_trim_suffix[OF k]) (simp add: is_ascii_def)
  show "is_ascii c \<Longrightarrow> utf8_ok (transit_key_name (req_path r) (c # suffix))"
    unfolding transit_key_name_def by (rule utf8_trim_suffix[OF utf8_trim_prefix[OF p a(2)]])
qed

section \<open>One request\<close>

text \<open>The engine steps of the two secret handlers.\<close>

lemma handle_kv_step:
  assumes "handle_kv v out r c s = (s', x)" "fine_request r"
  shows "s' = s \<or> kv_step (env_db v) (env_prims v) (env_crypto v) (sv_db s) (sv_db s')"
proof -
  note u = fine_paths[OF assms(2)] and b = fine_body[OF assms(2)]
  have "fst (handle_kv_get v out r c s) = s" by (rule kv_get_reads)
  then show ?thesis using assms(1)
    by (auto simp: handle_kv_def handle_kv_put_def handle_kv_rollback_def handle_kv_delete_def Let_def
      intro: step_set[OF u(1) b] step_delete[OF u(1)] step_rollback[OF u(2)]
      split: if_splits sum.splits option.splits prod.splits)
qed

lemma handle_transit_step:
  assumes "handle_transit v out r c s = (s', x)" "fine_request r"
  shows "s' = s \<or> transit_step (env_db v) (env_prims v) (env_crypto v) (sv_db s) (sv_db s')"
proof -
  have u: "utf8_ok (transit_key_name (req_path r) ''/create'')" "utf8_ok (transit_key_name (req_path r) ''/rotate'')"
    by (rule fine_paths(3)[OF assms(2)], simp add: is_ascii_def)+
  note w = transit_step.step_create[OF u(1)] transit_step.step_rotate[OF u(2)]
  show ?thesis using assms(1)
  proof (cases rule: transit_cases[of v out r c s])
    case creates
    then show ?thesis using assms(1)
      by (auto simp: with_admin_def handle_transit_create_def Let_def intro: w(1) split: if_splits sum.splits)
  next
    case rotates
    then show ?thesis using assms(1)
      by (auto simp: handle_transit_rotate_def Let_def intro: w(2) split: if_splits sum.splits)
  next
    case encrypts
    have "fst (handle_transit v out r c s) = s" by (rule transit_reads[OF encrypts(2)]) (simp add: cap_defs)
    then show ?thesis unfolding assms(1) by simp
  next
    case decrypts
    have "fst (handle_transit v out r c s) = s" by (rule transit_reads[OF decrypts(2)]) (simp add: cap_defs)
    then show ?thesis unfolding assms(1) by simp
  next
    case informs
    have "fst (handle_transit v out r c s) = s" by (rule transit_reads[OF informs(2)]) (simp add: cap_defs)
    then show ?thesis unfolding assms(1) by simp
  next
    case neither
    then show ?thesis using assms(1) by simp
  qed
qed

context api
begin

text \<open>A request is quiet, or it is a handler behind the authentication with only the trail around it.\<close>

lemma serve_shape:
  assumes "serve v out r s = (s', rid, resp)"
  shows "quiet E trail_key s s' \<or> (\<exists>s1 a rt s2 x. quiet E trail_key s s1
    \<and> route_handler rt v out r (authed_ctx out a) s1 = (s2, x) \<and> quiet E trail_key s2 s')"
proof -
  have m: "mux_serve public_routes public_handler v out r (first_ctx out) s = (s', resp)"
    using assms by (auto simp: serve_eq split: prod.splits)
  show ?thesis
  proof (cases "mux_route public_routes r = MuxHandler PProtected")
    case False
    then have "s' = s \<or> (\<exists>p. p \<noteq> PProtected \<and> public_handler p v out r (first_ctx out) s = (s', resp))"
      using m by (auto simp: mux_serve_def split: mux_result.splits)
    then show ?thesis
    proof
      assume "\<exists>p. p \<noteq> PProtected \<and> public_handler p v out r (first_ctx out) s = (s', resp)"
      then obtain p where "p \<noteq> PProtected" "public_handler p v out r (first_ctx out) s = (s', resp)" by blast
      then have "quiet E trail_key s s'" using login_quiet by (cases p) (auto simp: handle_health_def)
      then show ?thesis ..
    qed simp
  next
    case True
    then have "protected_handler v out r (first_ctx out) s = (s', resp)" using m by (simp add: mux_serve_def)
    then show ?thesis
    proof (cases rule: protected_cases)
      case (refused s1 a msg)
      have "quiet E trail_key s s1" using authenticate_step(1)[OF refused(1)] token_trail
        by (auto intro: quiet_mono dest: moves_quiet)
      with refused(3) log_entry_quiet quiet_trans show ?thesis by metis
    next
      case (panicked s1 a m)
      have q: "quiet E trail_key s s1" using authenticate_step(1)[OF panicked(1)] token_trail
        by (auto intro: quiet_mono dest: moves_quiet)
      obtain rt x where "route_handler rt v out r (authed_ctx out a) s1 = (s', x)"
        using panicked(2) by (auto simp: mux_serve_def split: mux_result.splits)
      with q show ?thesis by blast
    next
      case (answered s1 s2 a x)
      have q: "quiet E trail_key s s1" using authenticate_step(1)[OF answered(1)] token_trail
        by (auto intro: quiet_mono dest: moves_quiet)
      have l: "quiet E trail_key s2 s'" using answered(4) log_entry_quiet by auto
      have "s2 = s1 \<or> (\<exists>rt x. route_handler rt v out r (authed_ctx out a) s1 = (s2, x))"
        using answered(2) by (auto simp: mux_serve_def split: mux_result.splits)
      with q l quiet_trans show ?thesis by blast
    qed
  qed
qed

text \<open>So what a request does to the records of secrets is one step of one engine, or nothing.\<close>

definition engine_step :: "'s \<Rightarrow> 's \<Rightarrow> bool" where
  "engine_step a b \<longleftrightarrow> a = b \<or> kv_step (env_db v) (env_prims v) (env_crypto v) a b
     \<or> transit_step (env_db v) (env_prims v) (env_crypto v) a b"

lemma serve_engine:
  assumes "serve v out r s = (s', rid, resp)" "fine_request r"
  obtains a b where "\<And>k. secret_key k \<Longrightarrow> E a k = E (sv_db s) k" "engine_step a b"
    "\<And>k. secret_key k \<Longrightarrow> E (sv_db s') k = E b k"
proof -
  have k: "E (sv_db t') k = E (sv_db t) k" if "quiet E trail_key t t'" "secret_key k" for t t' k
    using that trail_disjoint(1) by (simp add: quiet_def confined_def)
  consider "quiet E trail_key s s'" | s1 a rt s2 x where "quiet E trail_key s s1"
      "route_handler rt v out r (authed_ctx out a) s1 = (s2, x)" "quiet E trail_key s2 s'"
    using serve_shape[OF assms(1)] by blast
  then show thesis
  proof cases
    case 1
    with that[of "sv_db s" "sv_db s"] k show thesis by (simp add: engine_step_def)
  next
    case 2
    have "engine_step (sv_db s1) (sv_db s2) \<or> (\<forall>k. secret_key k \<longrightarrow> E (sv_db s2) k = E (sv_db s1) k)"
    proof (cases "rt = RKV \<or> rt = RTransit")
      case True
      then show ?thesis
      proof
        assume "rt = RKV"
        then have "handle_kv v out r (authed_ctx out a) s1 = (s2, x)" using 2(2) by simp
        from handle_kv_step[OF this assms(2)] show ?thesis by (auto simp: engine_step_def)
      next
        assume "rt = RTransit"
        then have "handle_transit v out r (authed_ctx out a) s1 = (s2, x)" using 2(2) by simp
        from handle_transit_step[OF this assms(2)] show ?thesis by (auto simp: engine_step_def)
      qed
    next
      case False
      have "\<forall>k. secret_key k \<longrightarrow> E (sv_db s2) k = E (sv_db s1) k"
      proof (cases "rt \<in> admin_routes")
        case True
        from admin_zone[OF True 2(2)] zones_disjoint(1) show ?thesis by (auto simp: moves_def confined_def)
      next
        case na: False
        then have "rt = RSession \<or> rt = RWhoAmI" using False by (cases rt) (auto simp: admin_routes_def)
        then show ?thesis using 2(2) logout_zone[of out r "authed_ctx out a" s1 s2 x] zones_disjoint(1)
          by (auto simp: handle_whoami_def moves_def confined_def)
      qed
      then show ?thesis ..
    qed
    then show thesis
    proof
      assume "engine_step (sv_db s1) (sv_db s2)"
      from that[OF _ this] k[OF 2(1)] k[OF 2(3)] show thesis by blast
    next
      assume "\<forall>k. secret_key k \<longrightarrow> E (sv_db s2) k = E (sv_db s1) k"
      with that[of "sv_db s1" "sv_db s1"] k[OF 2(1)] k[OF 2(3)] show thesis by (simp add: engine_step_def)
    qed
  qed
qed

end

section \<open>Growth\<close>

definition past :: "secret option \<Rightarrow> (json \<times> time) list" where
  "past x = (case x of None \<Rightarrow> [] | Some h \<Rightarrow> history h)"

definition secret_grows :: "secret option \<Rightarrow> secret option \<Rightarrow> bool" where
  "secret_grows x y \<longleftrightarrow> (\<exists>later. past y = past x @ later)"

lemma secret_grows_refl [simp]: "secret_grows x x"
  by (simp add: secret_grows_def)

lemma secret_grows_trans: "secret_grows x y \<Longrightarrow> secret_grows y z \<Longrightarrow> secret_grows x z"
  by (auto simp: secret_grows_def)

context vault
begin

lemma kv_set_grows:
  assumes "kv_set B P c s t rng path v = (s', r)" "utf8_ok path" "value_ok v" "kv_inv B P c n s" "int64_ok (int n + 1)"
    "kv_rep B P c s q y" "count y \<le> int n"
  shows "\<exists>z. kv_rep B P c s' q z \<and> count z \<le> int (Suc n) \<and> secret_grows y z"
proof (cases "q = path")
  case True
  have k: "int64_ok (count y + 1)" using assms(5,7) by (simp add: int64_ok_def)
  show ?thesis
  proof (cases r)
    case (Inl e)
    then show ?thesis using kv_set_rep[OF assms(6) k] assms(1,2,3,7) True by (intro exI[of _ y]) fastforce
  next
    case (Inr e)
    then show ?thesis using kv_set_rep[OF assms(6) k] assms(1,2,3,7) True
      by (intro exI[of _ "Some (abs_set y v t)"]) (fastforce simp: secret_grows_def past_def abs_set_def split: option.splits)
  qed
next
  case False
  obtain x where x: "kv_rep B P c s path x" "count x \<le> int n" using assms(2,4) by (auto simp: kv_inv_def)
  have "int64_ok (count x + 1)" using assms(5) x(2) by (simp add: int64_ok_def)
  then have "set_from B P c s t rng path v (count x + 1) = (s', r)" using assms(1) kv_set_from[OF x(1)] by simp
  from kv_rep_same[OF assms(6)] set_from_other[OF this False] assms(7) show ?thesis by (intro exI[of _ y]) auto
qed

lemma kv_step_grows:
  assumes "kv_step B P c s s'" "kv_inv B P c n s" "int64_ok (int n + 1)" "kv_rep B P c s q y" "count y \<le> int n"
  shows "\<exists>z. kv_rep B P c s' q z \<and> count z \<le> int (Suc n) \<and> secret_grows y z"
  using assms(1)
proof cases
  case (step_set path v t rng r)
  from kv_set_grows[OF step_set(3,1,2) assms(2-5)] show ?thesis .
next
  case (step_delete path t rng)
  show ?thesis
  proof (cases "q = path")
    case True
    obtain h where "y = Some h" "kv_rep B P c s' path (Some (h\<lparr>removed := Some t\<rparr>))"
      using kv_delete_rep(1)[OF assms(4)] step_delete True by blast
    then show ?thesis using True assms(5)
      by (intro exI[of _ "Some (h\<lparr>removed := Some t\<rparr>)"]) (simp add: secret_grows_def past_def)
  next
    case False
    obtain x where x: "kv_rep B P c s path x" using assms(2) step_delete(1) by (auto simp: kv_inv_def)
    from kv_rep_same[OF assms(4)] kv_delete_other[OF x step_delete(2) False] assms(5) show ?thesis
      by (intro exI[of _ y]) auto
  qed
next
  case (step_rollback path t rng i r)
  show ?thesis
  proof (cases "kv_get B P c s t path i")
    case (Inl e)
    then have "s' = s" using step_rollback by (simp add: kv_rollback_def)
    with assms(4,5) show ?thesis by (intro exI[of _ y]) auto
  next
    case (Inr old)
    obtain x where "kv_rep B P c s path x" using assms(2) step_rollback(1) by (auto simp: kv_inv_def)
    then have "value_ok (kv_value old)" using kv_get_value_ok Inr by blast
    moreover have "kv_set B P c s t rng path (kv_value old) = (s', r)"
      using step_rollback Inr by (simp add: kv_rollback_def)
    ultimately show ?thesis using kv_set_grows step_rollback(1) assms(2-5) by blast
  qed
qed

lemma transit_inv_mono: "transit_inv B P c n s \<Longrightarrow> transit_inv B P c (Suc n) s"
  unfolding transit_inv_def by (meson le_SucI)

end

section \<open>Runs of the server\<close>

text \<open>
  Requests that are in \<open>Q\<close>, each with whatever the outside gives; reloads of the policies; and the pruning of
  challenges. The number counts the requests.
\<close>

inductive api_run :: "'s env \<Rightarrow> (request \<Rightarrow> bool) \<Rightarrow> nat \<Rightarrow> 's server \<Rightarrow> 's server \<Rightarrow> bool" for v Q where
  run_start: "api_run v Q 0 s s"
| run_request: "api_run v Q n s s1 \<Longrightarrow> Q r \<Longrightarrow> serve v out r s1 = (s2, rid, resp) \<Longrightarrow> api_run v Q (Suc n) s s2"
| run_reload: "api_run v Q n s s1 \<Longrightarrow> api_run v Q n s (reload_policies F s1)"
| run_prune: "api_run v Q n s s1 \<Longrightarrow> api_run v Q n s (s1\<lparr>sv_challenges := prune_expired t (sv_challenges s1)\<rparr>)"

lemma reload_keeps [simp]: "sv_db (reload_policies F s) = sv_db s"
  by (simp add: reload_policies_def split: sum.split)

abbreviation holds_kv :: "'s env \<Rightarrow> 's \<Rightarrow> string \<Rightarrow> secret option \<Rightarrow> bool" where
  "holds_kv v \<equiv> kv_rep (env_db v) (env_prims v) (env_crypto v)"

abbreviation holds_transit :: "'s env \<Rightarrow> 's \<Rightarrow> string \<Rightarrow> key_ring option \<Rightarrow> bool" where
  "holds_transit v \<equiv> transit_rep (env_db v) (env_prims v) (env_crypto v)"

definition secrets_inv :: "'s env \<Rightarrow> nat \<Rightarrow> 's \<Rightarrow> bool" where
  "secrets_inv v n db \<longleftrightarrow> kv_inv (env_db v) (env_prims v) (env_crypto v) n db
     \<and> transit_inv (env_db v) (env_prims v) (env_crypto v) n db"

text \<open>What holds between two states: everything stored grew, by at most \<open>m\<close> versions.\<close>

definition all_grow :: "'s env \<Rightarrow> nat \<Rightarrow> nat \<Rightarrow> 's \<Rightarrow> 's \<Rightarrow> bool" where
  "all_grow v n m a b \<longleftrightarrow>
     (\<forall>q y. utf8_ok q \<longrightarrow> holds_kv v a q y \<longrightarrow> count y \<le> int n \<longrightarrow>
        (\<exists>z. holds_kv v b q z \<and> count z \<le> int (n + m) \<and> secret_grows y z))
   \<and> (\<forall>q x. utf8_ok q \<longrightarrow> holds_transit v a q x \<longrightarrow> ring_size x \<le> n \<longrightarrow>
        (\<exists>y. holds_transit v b q y \<and> ring_size y \<le> n + m \<and> ring_grows x y))"

lemma kv_still:
  "holds_kv v b q y \<Longrightarrow> count y \<le> int n \<Longrightarrow> \<exists>z. holds_kv v b q z \<and> count z \<le> int (n + m) \<and> secret_grows y z"
  by (intro exI[of _ y]) simp

lemma transit_still:
  "holds_transit v b q x \<Longrightarrow> ring_size x \<le> n \<Longrightarrow> \<exists>y. holds_transit v b q y \<and> ring_size y \<le> n + m \<and> ring_grows x y"
  by (intro exI[of _ x]) simp

lemma all_grow_refl: "all_grow v n m a a"
  unfolding all_grow_def by (blast intro: kv_still transit_still)

lemma all_grow_trans: "all_grow v n m a b \<Longrightarrow> all_grow v (n + m) l b c \<Longrightarrow> all_grow v n (m + l) a c"
  unfolding all_grow_def add.assoc by (meson secret_grows_trans ring_grows_trans)

context api
begin

lemma same_grow:
  assumes "\<And>k. secret_key k \<Longrightarrow> E b k = E a k"
  shows "all_grow v n m a b"
proof -
  have e: "\<And>k. kv_record k \<Longrightarrow> E b k = E a k" "\<And>k. transit_record k \<Longrightarrow> E b k = E a k"
    using assms kv_record_secret transit_record_secret by blast+
  have "holds_kv v a q y \<Longrightarrow> holds_kv v b q y" "holds_transit v a q x \<Longrightarrow> holds_transit v b q x" for q x y
    using kv_rep_agree[OF _ e(1)] transit_rep_agree[OF _ e(2)] by blast+
  then show ?thesis unfolding all_grow_def by (blast intro: kv_still transit_still)
qed

lemma same_inv: "secrets_inv v n a \<Longrightarrow> (\<And>k. secret_key k \<Longrightarrow> E b k = E a k) \<Longrightarrow> secrets_inv v n b"
  unfolding secrets_inv_def
  using kv_inv_agree[of n a b] transit_inv_agree[of n a b] kv_record_secret transit_record_secret by blast

lemma engine_step_inv:
  assumes "engine_step a b" "secrets_inv v n a" "int64_ok (int n + 1)"
  shows "secrets_inv v (Suc n) b \<and> all_grow v n 1 a b"
proof -
  have i: "kv_inv (env_db v) (env_prims v) (env_crypto v) n a" "transit_inv (env_db v) (env_prims v) (env_crypto v) n a"
    using assms(2) by (auto simp: secrets_inv_def)
  consider "a = b" | "kv_step (env_db v) (env_prims v) (env_crypto v) a b"
    | "transit_step (env_db v) (env_prims v) (env_crypto v) a b" using assms(1) by (auto simp: engine_step_def)
  then show ?thesis
  proof cases
    case 1
    with i show ?thesis by (simp add: secrets_inv_def kv_inv_mono transit_inv_mono all_grow_refl)
  next
    case 2
    have t: "\<And>k. transit_record k \<Longrightarrow> E b k = E a k"
      using kv_step_apart[OF 2] records_disjoint by (auto simp: confined_def)
    have "transit_inv (env_db v) (env_prims v) (env_crypto v) n b" using transit_inv_agree[OF i(2) t] .
    moreover have "all_grow v n 1 a b"
      unfolding all_grow_def Suc_eq_plus1[symmetric] using kv_step_grows[OF 2 i(1) assms(3)]
      by (blast intro: transit_still[of v b _ _ n 1, unfolded Suc_eq_plus1[symmetric]] transit_rep_agree[OF _ t])
    ultimately show ?thesis using kv_step_inv[OF 2 assms(3) i(1)] transit_inv_mono by (simp add: secrets_inv_def)
  next
    case 3
    have t: "\<And>k. kv_record k \<Longrightarrow> E b k = E a k"
      using transit_step_apart[OF 3] records_disjoint by (auto simp: confined_def)
    have "kv_inv (env_db v) (env_prims v) (env_crypto v) n b" using kv_inv_agree[OF i(1) t] .
    moreover have "all_grow v n 1 a b"
      unfolding all_grow_def Suc_eq_plus1[symmetric] using transit_step_name[OF 3 i(2) assms(3)]
      by (blast intro: kv_still[of v b _ _ n 1, unfolded Suc_eq_plus1[symmetric]] kv_rep_agree[OF _ t])
    ultimately show ?thesis using transit_step_inv[OF 3 i(2) assms(3)] kv_inv_mono by (simp add: secrets_inv_def)
  qed
qed

lemma request_inv:
  assumes "serve v out r s = (s', rid, resp)" "fine_request r" "secrets_inv v n (sv_db s)" "int64_ok (int n + 1)"
  shows "secrets_inv v (Suc n) (sv_db s') \<and> all_grow v n 1 (sv_db s) (sv_db s')"
proof -
  obtain a b where ab: "\<And>k. secret_key k \<Longrightarrow> E a k = E (sv_db s) k" "engine_step a b"
      "\<And>k. secret_key k \<Longrightarrow> E (sv_db s') k = E b k"
    by (rule serve_engine[OF assms(1,2)]) blast
  have "secrets_inv v (Suc n) b \<and> all_grow v n 1 a b"
    by (rule engine_step_inv[OF ab(2) same_inv[OF assms(3) ab(1)] assms(4)])
  with same_inv[of "Suc n" b "sv_db s'"] same_grow[OF ab(1), of n 0] same_grow[OF ab(3), of "n + 1" 0] ab(3)
  show ?thesis
    using all_grow_trans[of v n 0 "sv_db s" a 1 b] all_grow_trans[of v n 1 "sv_db s" b 0 "sv_db s'"] by simp
qed

lemma run_inv:
  "api_run v fine_request m s s' \<Longrightarrow> secrets_inv v n (sv_db s) \<Longrightarrow> int64_ok (int (n + m)) \<Longrightarrow>
   secrets_inv v (n + m) (sv_db s') \<and> all_grow v n m (sv_db s) (sv_db s')"
proof (induction rule: api_run.induct)
  case (run_start s)
  then show ?case by (simp add: all_grow_refl)
next
  case (run_request m s s1 r out s2 rid resp)
  have k: "int64_ok (int (n + m))" "int64_ok (int (n + m) + 1)" using run_request.prems(2) by (simp_all add: int64_ok_def)
  from run_request.IH[OF run_request.prems(1) k(1)]
  have i: "secrets_inv v (n + m) (sv_db s1)" "all_grow v n m (sv_db s) (sv_db s1)" by auto
  from request_inv[OF run_request.hyps(3,2) i(1) k(2)] all_grow_trans[OF i(2), of 1 "sv_db s2"] show ?case by simp
qed simp_all

lemma empty_inv: "(\<And>k. secret_key k \<Longrightarrow> E db k = None) \<Longrightarrow> secrets_inv v 0 db"
  unfolding secrets_inv_def
  using kv_inv_empty[of db] transit_inv_empty(2)[of db] kv_record_secret transit_record_secret
  unfolding kv_record_def transit_record_def by blast

end

end
