(* ===== verification/Api_Login_Props.thy ===== *)
theory Api_Login_Props
  imports Demo_Api
begin

text \<open>
  Where sessions come from: only a login whose proof of identity was accepted stores one, and the
  token that a login answers with is accepted on the state that the login leaves. Api_Sessions carries it further.
\<close>

section \<open>Proofs of identity\<close>

text \<open>
  The request proves, by the means of the login route, an identity with its method and policy.
\<close>

fun proves :: "'s env \<Rightarrow> outside \<Rightarrow> request \<Rightarrow> 's server \<Rightarrow> public_route \<Rightarrow> string \<Rightarrow> string \<Rightarrow> string \<Rightarrow> bool" where
  "proves v out r s PVerify identity meth pol \<longleftrightarrow> (\<exists>challenge signature cb sb chs svc.
     decode_body (dec_fields2 ''challenge'' ''signature'') r = Some (challenge, signature)
   \<and> hex_decode challenge = Some cb \<and> hex_decode signature = Some sb
   \<and> service_verify (env_db v) (env_prims v) (sv_db s) (out_clock out 2) (sv_challenges s) cb sb = (chs, Done (Inr svc))
   \<and> identity = ''svc:'' @ svc_name svc \<and> meth = ''ed25519'' \<and> pol = svc_policy svc)"
| "proves v out r s PTotp identity meth pol \<longleftrightarrow> (\<exists>service code rec.
     decode_body dec_totp_login r = Some (service, code)
   \<and> totp_verify (env_db v) (env_prims v) (sv_db s) (out_clock out 2) service code = Inr rec
   \<and> identity = ''svc:'' @ totp_name rec \<and> meth = ''totp'' \<and> pol = totp_policy rec)"
| "proves v out r s PAdminLogin identity meth pol \<longleftrightarrow> (\<exists>token rec.
     decode_body (dec_field ''token'') r = Some token
   \<and> admin_verify (env_db v) (env_prims v) (sv_db s) (out_clock out 2) token = Inr rec
   \<and> identity = ''admin:'' @ admin_name rec \<and> meth = ''admin_token'' \<and> pol = admin_policy rec)"
| "proves v out r s PLogin identity meth pol \<longleftrightarrow> (\<exists>username password rec.
     decode_body (dec_fields2 ''username'' ''password'') r = Some (username, password)
   \<and> user_verify (env_db v) (env_prims v) (sv_db s) (out_clock out 2) username password = Inr rec
   \<and> identity = ''user:'' @ user_name rec \<and> meth = ''password'' \<and> pol = user_policy rec)"
| "proves v out r s p identity meth pol \<longleftrightarrow> False"

text \<open>The session that a login stores.\<close>

definition issues :: "'s env \<Rightarrow> outside \<Rightarrow> 's server \<Rightarrow> string \<Rightarrow> string \<Rightarrow> string \<Rightarrow> 's \<Rightarrow> string \<Rightarrow> bool" where
  "issues v out s identity meth pol db token \<longleftrightarrow> session_issue (env_db v) (env_prims v) (session_ttl v) (sv_db s)
     (out_clock out 3) (rng_from 8 (out_rng out)) identity meth pol = Inr (db, token)"

lemma login_runs:
  assumes "proves v out r s p identity meth pol"
  obtains chs where "public_handler p v out r c s = issue_session v out r c identity meth pol (s\<lparr>sv_challenges := chs\<rparr>)"
proof (cases p)
  case PVerify
  then show ?thesis using assms that by (auto simp: handle_verify_def)
next
  case PTotp
  then show ?thesis using assms that[of "sv_challenges s"] by (auto simp: handle_totp_login_def)
next
  case PAdminLogin
  then show ?thesis using assms that[of "sv_challenges s"] by (auto simp: handle_admin_login_def)
next
  case PLogin
  then show ?thesis using assms that[of "sv_challenges s"] by (auto simp: handle_user_login_def)
qed (use assms in simp_all)

text \<open>And the other way round: a public handler that is not proved to leaves the sessions.\<close>

lemma issue_session_E:
  "session_issue (env_db v) (env_prims v) (session_ttl v) (sv_db s) (out_clock out 3) (rng_from 8 (out_rng out)) i m p = Inl e \<Longrightarrow>
   issue_session v out r c i m p s = (s, refuse_rid c 500 ''could not issue session'')"
  "issues v out s i m p db token \<Longrightarrow> issue_session v out r c i m p s =
     (log_auth_attempt v out r c i m ''allowed'' (s\<lparr>sv_db := db\<rparr>), login_answer v c token i p)"
  by (simp_all add: issue_session_def issues_def)

lemma issues_challenges [simp]: "issues v out (s\<lparr>sv_challenges := chs\<rparr>) = issues v out s"
  by (simp add: issues_def fun_eq_iff)

context api
begin

lemma log_auth_keeps: "\<not> audit_zone k \<Longrightarrow> E (sv_db (log_auth_attempt v out r c i m st s)) k = E (sv_db s) k"
  by (simp add: log_auth_attempt_def log_entry_keeps)

lemma login_cases:
  assumes "public_handler p v out r c s = (s', x)" "p \<noteq> PProtected" "\<not> audit_zone k" "E (sv_db s') k \<noteq> E (sv_db s) k"
  obtains i m pol chs where "proves v out r s p i m pol"
    "issue_session v out r c i m pol (s\<lparr>sv_challenges := chs\<rparr>) = (s', x)"
proof (cases p)
  case PChallenge
  then show ?thesis using assms(1,3,4)
    by (auto simp: handle_challenge_def log_auth_keeps split: option.splits sum.splits prod.splits if_splits)
next
  case PVerify
  then show ?thesis using assms(1,3,4)
    by (auto simp: handle_verify_def log_auth_keeps split: option.splits sum.splits prod.splits outcome.splits intro: that)
next
  case PTotp
  then show ?thesis using assms(1,3,4) that[of _ _ _ "sv_challenges s"]
    by (auto simp: handle_totp_login_def log_auth_keeps split: option.splits sum.splits prod.splits)
next
  case PAdminLogin
  then show ?thesis using assms(1,3,4) that[of _ _ _ "sv_challenges s"]
    by (auto simp: handle_admin_login_def log_auth_keeps split: option.splits sum.splits)
next
  case PLogin
  then show ?thesis using assms(1,3,4) that[of _ _ _ "sv_challenges s"]
    by (auto simp: handle_user_login_def log_auth_keeps split: option.splits sum.splits prod.splits)
qed (use assms in \<open>simp_all add: handle_health_def\<close>)

text \<open>What runs behind the authentication removes sessions at most.\<close>

lemma authenticate_removes:
  assumes "authenticate v out r s = (s1, d)"
  shows "E (sv_db s1) k = E (sv_db s) k \<or> E (sv_db s1) k = None"
proof (cases "\<not> env_dev v \<and> has_prefix (extract_token r) ''lvt_'' \<and> extract_token r \<noteq> []")
  case True
  obtain db x where x: "session_validate (env_db v) (env_prims v) (sv_db s) (out_clock out 1) (extract_token r) = (db, x)"
    by (cases "session_validate (env_db v) (env_prims v) (sv_db s) (out_clock out 1) (extract_token r)")
  then have "sv_db s1 = db" using assms True by (auto simp: authenticate_def Let_def split: sum.splits)
  with auth.validate_E[OF x] show ?thesis by (cases "k = session_key (env_prims v) (extract_token r)") auto
qed (use assms in \<open>auto simp: authenticate_def Let_def split: if_splits sum.splits\<close>)

lemma route_stays:
  assumes "route_handler rt v out r c s = (s', x)" "token_key k" "rt = RSession \<Longrightarrow> k \<noteq> session_key (env_prims v) (extract_token r)"
  shows "E (sv_db s') k = E (sv_db s) k"
proof (cases "rt = RSession")
  case True
  then show ?thesis using assms(1,3) auth.revoke_E
    by (auto simp: handle_logout_def Let_def split: if_splits sum.splits)
next
  case False
  have z: "\<not> secret_key k" "\<not> account_key k" using zones_disjoint assms(2) by blast+
  show ?thesis
  proof (cases "rt \<in> admin_routes")
    case True
    from admin_zone[OF True assms(1)] z show ?thesis by (simp add: moves_def confined_def)
  next
    case nadm: False
    consider "rt = RKV" | "rt = RTransit" | "rt = RWhoAmI"
      using False nadm by (cases rt) (auto simp: admin_routes_def)
    then show ?thesis
    proof cases
      case 1
      then have "handle_kv v out r c s = (s', x)" using assms(1) by simp
      from kv_zone[OF this] z show ?thesis by (simp add: moves_def confined_def)
    next
      case 2
      then have "handle_transit v out r c s = (s', x)" using assms(1) by simp
      from transit_zone[OF this] z show ?thesis by (simp add: moves_def confined_def)
    next
      case 3
      then show ?thesis using assms(1) by (simp add: handle_whoami_def)
    qed
  qed
qed

lemma route_removes:
  assumes "route_handler rt v out r c s = (s', x)" "token_key k"
  shows "E (sv_db s') k = E (sv_db s) k \<or> E (sv_db s') k = None"
proof (cases "rt = RSession")
  case True
  then show ?thesis using assms(1) auth.revoke_E
    by (auto simp: handle_logout_def Let_def split: if_splits sum.splits)
qed (use route_stays[OF assms] in blast)

lemma protected_removes:
  assumes "protected_handler v out r (first_ctx out) s = (s', x)" "token_key k"
  shows "E (sv_db s') k = E (sv_db s) k \<or> E (sv_db s') k = None"
proof -
  have z: "\<not> audit_zone k" using zones_disjoint(3)[OF assms(2)] .
  have inner: "E (sv_db s2) k = E (sv_db s) k \<or> E (sv_db s2) k = None"
    if a: "authenticate v out r s = (s1, Inr a)" and m: "mux_serve authed_routes route_handler v out r c s1 = (s2, y)" for s1 a c s2 y
  proof -
    have "E (sv_db s2) k = E (sv_db s1) k \<or> E (sv_db s2) k = None"
      using m route_removes[OF _ assms(2)] by (auto simp: mux_serve_def split: mux_result.splits)
    with authenticate_removes[OF a, of k] show ?thesis by metis
  qed
  from assms(1) show ?thesis
  proof (cases rule: protected_cases)
    case (refused s1 a msg)
    then show ?thesis using authenticate_removes[OF refused(1), of k] z by (simp add: log_entry_keeps)
  next
    case (panicked s1 a m)
    then show ?thesis using inner[OF panicked(1,2)] by simp
  next
    case (answered s1 s2 a y)
    then show ?thesis using inner[OF answered(1,2)] z by (simp add: log_entry_keeps)
  qed
qed

lemma session_origin:
  assumes "serve v out r s = (s', rid, resp)" and "token_key k"
    and "E (sv_db s') k \<noteq> E (sv_db s) k" and "E (sv_db s') k \<noteq> None"
  shows "\<exists>p identity meth pol db token. mux_route public_routes r = MuxHandler p
    \<and> proves v out r s p identity meth pol \<and> issues v out s identity meth pol db token
    \<and> k = session_key (env_prims v) token"
proof -
  have z: "\<not> audit_zone k" using zones_disjoint(3)[OF assms(2)] .
  obtain p where p: "mux_route public_routes r = MuxHandler p" "public_handler p v out r (first_ctx out) s = (s', resp)"
    using assms(1,3) by (auto simp: serve_eq mux_serve_def split: mux_result.splits prod.splits)
  have np: "p \<noteq> PProtected" using p(2) protected_removes[OF _ assms(2)] assms(3,4) by fastforce
  obtain i m pol chs where l: "proves v out r s p i m pol"
    "issue_session v out r (first_ctx out) i m pol (s\<lparr>sv_challenges := chs\<rparr>) = (s', resp)"
    by (rule login_cases[OF p(2) np z assms(3)])
  obtain db token where t: "issues v out s i m pol db token"
    using l(2) assms(3) by (auto simp: issues_def issue_session_def split: sum.splits)
  then have "sv_db s' = sv_db (log_auth_attempt v out r (first_ctx out) i m ''allowed'' (s\<lparr>sv_challenges := chs, sv_db := db\<rparr>))"
    using l(2) issue_session_E(2)[of v out "s\<lparr>sv_challenges := chs\<rparr>"] by simp
  then have k: "E db k \<noteq> E (sv_db s) k" using assms(3) z by (simp add: log_auth_keeps)
  have "k = session_key (env_prims v) token"
    using t unfolding issues_def
  proof (cases rule: auth.issue_cases)
    case (1 raw h data)
    from db.set_ttl_E[OF 1(5)] k show ?thesis by (auto split: if_splits)
  qed
  with p(1) l(1) t show ?thesis by blast
qed

lemma login_answered:
  assumes "mux_route public_routes r = MuxHandler p" and "proves v out r s p identity meth pol"
    and "issues v out s identity meth pol db token"
  shows "\<exists>s' rid. serve v out r s = (s', rid, login_answer v (first_ctx out) token identity pol)
    \<and> (\<forall>k. \<not> audit_zone k \<longrightarrow> E (sv_db s') k = E db k)"
proof -
  obtain chs where c: "public_handler p v out r (first_ctx out) s =
      issue_session v out r (first_ctx out) identity meth pol (s\<lparr>sv_challenges := chs\<rparr>)"
    by (rule login_runs[OF assms(2)])
  have "public_handler p v out r (first_ctx out) s = (log_auth_attempt v out r (first_ctx out) identity meth ''allowed''
      (s\<lparr>sv_challenges := chs, sv_db := db\<rparr>), login_answer v (first_ctx out) token identity pol)"
    using assms(3) c issue_session_E(2)[of v out "s\<lparr>sv_challenges := chs\<rparr>"] by simp
  then show ?thesis by (simp add: serve_public[OF assms(1)] log_auth_keeps)
qed

end

context api
begin

lemma login_session:
  assumes "issues v out s identity meth pol db token" and "utf8_ok identity" "utf8_ok meth" "utf8_ok pol"
    and "\<not> env_dev v" and "E (sv_db s') (session_key (env_prims v) token) = E db (session_key (env_prims v) token)"
    and "extract_token r' = token" and "out_clock out' 1 + second \<le> out_clock out 3 + session_ttl v"
  shows "authenticate v out' r' s' = (s', Inr \<lparr>as_identity = identity, as_method = meth, as_policy = pol\<rparr>)"
proof -
  note i = assms(1)[unfolded issues_def]
  have p: "has_prefix token ''lvt_''" using auth.issue_E[OF i assms(2-4)] by (metis sessionTokenPrefix_def)
  then have ne: "token \<noteq> []" by (auto simp: has_prefix_def)
  note same = assms(6)
  obtain h where "session_validate (env_db v) (env_prims v) db (out_clock out' 1) token = (db, Inr \<lparr>sess_identity = identity,
      sess_method = meth, sess_policy = pol, sess_issued = out_clock out 3, sess_expires = out_clock out 3 + session_ttl v,
      sess_hash = h\<rparr>)"
    using auth.session_life[OF i assms(2-4), of "out_clock out' 1"] assms(8) by blast
  then have "session_validate (env_db v) (env_prims v) (sv_db s') (out_clock out' 1) token = (sv_db s', Inr \<lparr>sess_identity = identity,
      sess_method = meth, sess_policy = pol, sess_issued = out_clock out 3, sess_expires = out_clock out 3 + session_ttl v,
      sess_hash = h\<rparr>)"
    unfolding auth.validate_iff by (simp add: visible_def same)
  with p ne assms(5,7) show ?thesis by (simp add: authenticate_def Let_def)
qed

end

section \<open>A demonstration\<close>

text \<open>An administrator token logs in.\<close>

definition demo_login :: "string \<Rightarrow> request" where
  "demo_login token = demo_request ''POST'' ''/v1/auth/admin/login'' []
     (json_print (JObj [(''token'', JStr token)]))"

lemma demo_login_route: "mux_route public_routes (demo_login token) = MuxHandler PAdminLogin"
proof -
  have "mux_route public_routes (demo_request ''GET'' ''/v1/auth/admin/login'' [] []) = MuxHandler PAdminLogin" by code_simp
  then show ?thesis using mux_route_path[of "demo_login token" public_routes] by (simp add: demo_login_def)
qed

lemma demo_login_proves:
  obtains db token where "proves demo_env (demo_out (-1)) (demo_login token) (demo_server db) PAdminLogin ''admin:root'' ''admin_token'' ''admin''"
    "\<forall>k. token_key k \<longrightarrow> map_of db k = None"
proof -
  obtain db token where c: "admin_create mem_badger demo_prims [] 0 demo_rng ''root'' ''admin'' = Inr (db, token)"
    using demo_admin_create by blast
  obtain x where h: "map_of db = (map_of [])(admin_key ''root'' \<mapsto> x)"
    by (rule demo_auth.admin_create_cases[OF c demo_admin_names]) blast
  have tok: "token = adminTokenPrefix @ raw_url_encode (fill 32 ''A'')"
    using c by (auto simp: admin_create_def demo_draw Let_def split: sum.splits)
  have "utf8_ok token" "utf8_ok ''token''" unfolding tok adminTokenPrefix_def
    by (simp_all add: utf8_ok_all_ascii raw_url_ascii is_ascii_def)
  then have "json_ok (JObj [(''token'', JStr token)])" by (simp add: json_ok_def max_depth_def)
  then have body: "decode_body (dec_field ''token'') (demo_login token) = Some token"
    by (simp add: decode_body_def demo_login_def json_decode_print dec_field_def del: json_print.simps)
  have "\<exists>rec. admin_verify mem_badger demo_prims db 1 token = Inr rec \<and> admin_name rec = ''root'' \<and> admin_policy rec = ''admin''"
    using demo_auth.admin_first[OF c demo_admin_names] by simp
  with body have "proves demo_env (demo_out (-1)) (demo_login token) (demo_server db) PAdminLogin ''admin:root'' ''admin_token'' ''admin''"
    by auto
  moreover have "\<forall>k. token_key k \<longrightarrow> map_of db k = None"
    using h zones_disjoint(2)[of "admin_key ''root''"] by auto
  ultimately show thesis by (rule that)
qed

lemma demo_login_ok: "utf8_ok ''admin:root''" "utf8_ok ''admin_token''" "utf8_ok ''admin''"
  by (simp_all add: utf8_ok_all_ascii is_ascii_def)

lemma demo_login_issues:
  obtains db token db' fresh where "proves demo_env (demo_out (-1)) (demo_login token) (demo_server db) PAdminLogin
      ''admin:root'' ''admin_token'' ''admin''" "\<forall>k. token_key k \<longrightarrow> map_of db k = None"
    "issues demo_env (demo_out (-1)) (demo_server db) ''admin:root'' ''admin_token'' ''admin'' db' fresh"
proof -
  obtain db token where p: "proves demo_env (demo_out (-1)) (demo_login token) (demo_server db) PAdminLogin
      ''admin:root'' ''admin_token'' ''admin''" and n: "\<forall>k. token_key k \<longrightarrow> map_of db k = None"
    by (rule demo_login_proves)
  have "\<exists>db' fresh. issues demo_env (demo_out (-1)) (demo_server db) ''admin:root'' ''admin_token'' ''admin'' db' fresh"
    by (simp add: issues_def session_ttl_def config_defaults_def session_issue_def Let_def rand_read_def rng_from_def demo_out_def
      hash_argon2id_def json_marshal_def enc_session_def enc_time_def time_ok_def second_def hour_def minute_def
      db_set_with_ttl_def lift_bdg_def mem_badger_def)
  with that[OF p n] show thesis by blast
qed

section \<open>Properties\<close>

text \<open>
  Only a login stores a session: when a request leaves a record under a session's key that was
  not there before, it went to one of the four login routes, proved an identity there (a signed
  challenge, a TOTP code, an administrator token or a password), and the record is the session
  issued for that identity with the method and policy of the proof.
\<close>

theorem sessions_only_by_login:
  assumes "badger_laws (env_db v) E" and "prims_laws (env_prims v)"
    and "serve v out r s = (s', rid, resp)" and "token_key k"
    and "E (sv_db s') k \<noteq> E (sv_db s) k" and "E (sv_db s') k \<noteq> None"
  shows "\<exists>p identity meth pol db token. mux_route public_routes r = MuxHandler p
    \<and> proves v out r s p identity meth pol \<and> issues v out s identity meth pol db token
    \<and> k = session_key (env_prims v) token"
  by (rule api.session_origin[OF apiI[OF assms(1,2)] assms(3-6)])

theorem sessions_only_by_login_witness:
  "\<exists>db token s' rid resp k. serve demo_env (demo_out (-1)) (demo_login token) (demo_server db) = (s', rid, resp)
    \<and> token_key k \<and> map_of db k = None \<and> map_of (sv_db s') k \<noteq> None
    \<and> (\<exists>p. proves demo_env (demo_out (-1)) (demo_login token) (demo_server db) p ''admin:root'' ''admin_token'' ''admin'')"
proof -
  obtain db token db' fresh where p: "proves demo_env (demo_out (-1)) (demo_login token) (demo_server db) PAdminLogin
      ''admin:root'' ''admin_token'' ''admin''" and n: "\<forall>k. token_key k \<longrightarrow> map_of db k = None"
    and i: "issues demo_env (demo_out (-1)) (demo_server db) ''admin:root'' ''admin_token'' ''admin'' db' fresh"
    by (rule demo_login_issues)
  let ?k = "session_key demo_prims fresh"
  obtain s' rid where s: "serve demo_env (demo_out (-1)) (demo_login token) (demo_server db) =
      (s', rid, login_answer demo_env (first_ctx (demo_out (-1))) fresh ''admin:root'' ''admin'')"
    and e: "\<forall>k. \<not> audit_zone k \<longrightarrow> map_of (sv_db s') k = map_of db' k"
    using demo_api.login_answered[OF demo_login_route p i] by blast
  have "\<not> audit_zone ?k" using zones_disjoint(3) zone_keys(8) by blast
  moreover have "map_of db' ?k \<noteq> None"
    by (rule demo_auth.issue_E[OF i[unfolded issues_def, simplified] demo_login_ok]) simp
  ultimately have ch: "map_of (sv_db s') ?k \<noteq> None" using e by simp
  have old: "map_of db ?k = None" using n zone_keys(8) by blast
  then have "map_of (sv_db s') ?k \<noteq> map_of (sv_db (demo_server db)) ?k" using ch by simp
  from sessions_only_by_login[OF demo_env_laws s zone_keys(8) this ch] have
    "\<exists>p i m pol. mux_route public_routes (demo_login token) = MuxHandler p \<and>
      proves demo_env (demo_out (-1)) (demo_login token) (demo_server db) p i m pol" by blast
  with s old ch p zone_keys(8)[of demo_prims fresh] show ?thesis by blast
qed

end
