(* ===== verification/Api_Sessions.thy ===== *)
theory Api_Sessions
  imports Api_Runs Api_Login_Props
begin

text \<open>
  Sessions through whole runs of the server, whatever its requests are: whoever is authenticated with a
  session token was logged in by a request of the run, and who was logged in is authenticated with the token
  until the session ends or is logged out.
\<close>

section \<open>Stored names are UTF-8\<close>

text \<open>A string that was decoded from JSON is valid UTF-8, whatever bytes were stored.\<close>

lemma json_parse_ok:
  assumes "json_parse s = Some j"
  shows "json_ok j"
proof -
  obtain r where "parse_value (2 * length s + 2) s = Some (j, r)" "json_depth j \<le> max_depth"
    using assms by (auto simp: json_parse_def split: option.splits if_splits)
  with parse_wellformed[of "2 * length s + 2"] show ?thesis unfolding json_ok_def by blast
qed

lemma obj_str_utf8:
  "obj_get f dec_str z ms = Some x \<Longrightarrow> utf8_ok z \<Longrightarrow> list_all (\<lambda>(k, j). utf8_ok k \<and> json_utf8 j) ms \<Longrightarrow> utf8_ok x"
  by (induction f dec_str z ms rule: obj_get.induct) (auto simp: dec_str_def split: if_splits option.splits json.splits)

lemma members_utf8: "members j = Some ms \<Longrightarrow> json_ok j \<Longrightarrow> list_all (\<lambda>(k, j). utf8_ok k \<and> json_utf8 j) ms"
  by (auto simp: members_def json_ok_def split: json.splits)

lemma read_rec_json:
  assumes "read_rec B dec s t key = Inr r"
  obtains j where "dec j = Some r" "json_ok j"
  using assms json_parse_ok by (auto simp: read_rec_def json_unmarshal_def split: sum.splits option.splits)

lemma record_names:
  "read_rec B dec_service s t key = Inr svc \<Longrightarrow> utf8_ok (svc_name svc) \<and> utf8_ok (svc_policy svc)"
  "read_rec B dec_totp s t key = Inr tot \<Longrightarrow> utf8_ok (totp_name tot) \<and> utf8_ok (totp_policy tot)"
  "read_rec B (dec_admin P) s t key = Inr adm \<Longrightarrow> utf8_ok (admin_name adm) \<and> utf8_ok (admin_policy adm)"
  "read_rec B (dec_user P) s t key = Inr usr \<Longrightarrow> utf8_ok (user_name usr) \<and> utf8_ok (user_policy usr)"
  by (erule read_rec_json, auto simp: dec_service_def dec_totp_def dec_admin_def dec_user_def
    dest!: members_utf8 obj_str_utf8 split: option.splits)+

lemma verified_names:
  "service_verify B P s t ch challenge sig = (chs, Done (Inr svc)) \<Longrightarrow> utf8_ok (svc_name svc) \<and> utf8_ok (svc_policy svc)"
  "totp_verify B P s t name code = Inr tot \<Longrightarrow> utf8_ok (totp_name tot) \<and> utf8_ok (totp_policy tot)"
  "admin_verify B P s t token = Inr adm \<Longrightarrow> utf8_ok (admin_name adm) \<and> utf8_ok (admin_policy adm)"
  "user_verify B P s t name password = Inr usr \<Longrightarrow> utf8_ok (user_name usr) \<and> utf8_ok (user_policy usr)"
  by (auto simp: service_verify_def get_service_def totp_verify_def admin_verify_def user_verify_def user_get_def Let_def
    simp del: totp_windows.simps dest!: record_names admin_scan_Some split: option.splits if_splits sum.splits)

lemma proved_names: "proves v out r s p identity meth pol \<Longrightarrow> utf8_ok identity \<and> utf8_ok meth \<and> utf8_ok pol"
  by (cases p) (auto simp: is_ascii_def dest!: verified_names)

section \<open>Logins of a run\<close>

text \<open>
  A request of the run logged the identity in: the login route accepted its proof, and the session of
  \<open>token\<close> was issued at that time.
\<close>

definition logged_in ::
  "'s env \<Rightarrow> 's server \<Rightarrow> 's server \<Rightarrow> string \<Rightarrow> audit_state \<Rightarrow> time \<Rightarrow> 's \<Rightarrow> bool" where
  "logged_in v s0 s token a t db \<longleftrightarrow> (\<exists>n s1 out r p s2 rid resp m. api_run v (\<lambda>_. True) n s0 s1
     \<and> mux_route public_routes r = MuxHandler p \<and> proves v out r s1 p (as_identity a) (as_method a) (as_policy a)
     \<and> issues v out s1 (as_identity a) (as_method a) (as_policy a) db token \<and> out_clock out 3 = t
     \<and> serve v out r s1 = (s2, rid, resp) \<and> api_run v (\<lambda>_. True) m s2 s)"

lemma logged_in_later:
  assumes "logged_in v s0 s token a t db" "\<And>m s2. api_run v (\<lambda>_. True) m s2 s \<Longrightarrow> \<exists>m'. api_run v (\<lambda>_. True) m' s2 s'"
  shows "logged_in v s0 s' token a t db"
  using assms unfolding logged_in_def by metis

context api
begin

text \<open>Every record of a session is one of the start, or a login of the run wrote it.\<close>

lemma session_from_run:
  assumes "api_run v (\<lambda>_. True) n s0 s" "token_key k" "E (sv_db s) k \<noteq> None" "E (sv_db s0) k = None"
  shows "\<exists>token a t db. logged_in v s0 s token a t db \<and> k = session_key (env_prims v) token \<and> E (sv_db s) k = E db k"
  using assms
proof (induction rule: api_run.induct)
  case (run_request n s0 s1 r out s2 rid resp)
  show ?case
  proof (cases "E (sv_db s2) k = E (sv_db s1) k")
    case True
    then obtain token a t db where l: "logged_in v s0 s1 token a t db" "k = session_key (env_prims v) token"
        "E (sv_db s1) k = E db k" using run_request by auto
    have "logged_in v s0 s2 token a t db"
      by (rule logged_in_later[OF l(1)]) (use api_run.run_request[OF _ run_request.hyps(2,3)] in blast)
    with l True show ?thesis by metis
  next
    case False
    obtain p i m pol db token where o: "mux_route public_routes r = MuxHandler p" "proves v out r s1 p i m pol"
        "issues v out s1 i m pol db token" "k = session_key (env_prims v) token"
      using session_origin[OF run_request.hyps(3) run_request.prems(1) False run_request.prems(2)] by blast
    let ?a = "\<lparr>as_identity = i, as_method = m, as_policy = pol\<rparr>"
    have l: "logged_in v s0 s2 token ?a (out_clock out 3) db"
      unfolding logged_in_def using o run_request.hyps(1,3) run_start by fastforce
    obtain s' rid' where "serve v out r s1 = (s', rid', login_answer v (first_ctx out) token i pol)"
        "\<forall>k. \<not> audit_zone k \<longrightarrow> E (sv_db s') k = E db k"
      using login_answered[OF o(1-3)] by blast
    then have "E (sv_db s2) k = E db k" using run_request.hyps(3) zones_disjoint(3)[OF run_request.prems(1)] by simp
    with l o(4) show ?thesis by blast
  qed
next
  case (run_reload n s0 s1 F)
  then obtain token a t db where l: "logged_in v s0 s1 token a t db" "k = session_key (env_prims v) token"
      "E (sv_db s1) k = E db k" by auto
  have "logged_in v s0 (reload_policies F s1) token a t db"
    by (rule logged_in_later[OF l(1)]) (blast intro: api_run.run_reload)
  with l show ?case by auto
next
  case (run_prune n s0 s1 t')
  then obtain token a t db where l: "logged_in v s0 s1 token a t db" "k = session_key (env_prims v) token"
      "E (sv_db s1) k = E db k" by auto
  have "logged_in v s0 (s1\<lparr>sv_challenges := prune_expired t' (sv_challenges s1)\<rparr>) token a t db"
    by (rule logged_in_later[OF l(1)]) (blast intro: api_run.run_prune)
  with l show ?case by auto
qed simp

text \<open>So a caller with a session token was logged in as that identity.\<close>

lemma caller_logged_in:
  assumes "api_run v (\<lambda>_. True) n s0 s" "E (sv_db s0) (session_key (env_prims v) (extract_token r)) = None"
    "\<not> env_dev v" "has_prefix (extract_token r) ''lvt_''" "authenticate v out r s = (s', Inr a)"
  shows "\<exists>token t db. logged_in v s0 s token a t db \<and> out_clock out 1 \<le> t + session_ttl v
    \<and> sha256 (env_prims v) token = sha256 (env_prims v) (extract_token r)"
proof -
  let ?k = "session_key (env_prims v) (extract_token r)"
  have "extract_token r \<noteq> []" using assms(4) by (auto simp: has_prefix_def)
  then obtain db1 m where va: "session_validate (env_db v) (env_prims v) (sv_db s) (out_clock out 1) (extract_token r) = (db1, Inr m)"
      and a: "a = \<lparr>as_identity = sess_identity m, as_method = sess_method m, as_policy = sess_policy m\<rparr>"
    using assms(3-5) by (auto simp: authenticate_def Let_def split: prod.splits sum.splits)
  then obtain data where d: "visible (E (sv_db s)) (out_clock out 1) ?k = Some data"
      "json_unmarshal (dec_session (env_prims v)) data = Inr m" "out_clock out 1 \<le> sess_expires m"
    by (auto simp: auth.validate_iff)
  then have "E (sv_db s) ?k \<noteq> None" by (auto simp: visible_def split: option.splits)
  from session_from_run[OF assms(1) _ this assms(2)] obtain token b t db where
    l: "logged_in v s0 s token b t db" "?k = session_key (env_prims v) token" "E (sv_db s) ?k = E db ?k" by auto
  then obtain out1 r1 s1 p where i: "issues v out1 s1 (as_identity b) (as_method b) (as_policy b) db token"
      "proves v out1 r1 s1 p (as_identity b) (as_method b) (as_policy b)" "out_clock out1 3 = t"
    unfolding logged_in_def by blast
  note u = proved_names[OF i(2)]
  have "m = \<lparr>sess_identity = as_identity b, sess_method = as_method b, sess_policy = as_policy b, sess_issued = t,
      sess_expires = t + session_ttl v, sess_hash = sess_hash m\<rparr>"
  proof (rule auth.issue_E[OF i(1)[unfolded issues_def]])
    fix h data' e
    assume "json_unmarshal (dec_session (env_prims v)) data' = Inr \<lparr>sess_identity = as_identity b, sess_method = as_method b,
        sess_policy = as_policy b, sess_issued = out_clock out1 3, sess_expires = out_clock out1 3 + session_ttl v, sess_hash = h\<rparr>"
      and "E db = (E (sv_db s1))(session_key (env_prims v) token \<mapsto> (data', Some e))"
    with d(1,2) l(2,3) i(3) show ?thesis by (auto simp: visible_def split: if_splits)
  qed (use u in auto)
  from arg_cong[OF this, of sess_identity] arg_cong[OF this, of sess_method] arg_cong[OF this, of sess_policy]
    arg_cong[OF this, of sess_expires]
  have "b = a" "out_clock out 1 \<le> t + session_ttl v" using a d(3) by simp_all
  with l(1,2) show ?thesis by (metis session_key_inject)
qed

text \<open>A logout whose deletion succeeded leaves no record of the session.\<close>

lemma logout_removes:
  assumes "serve v out r s = (s1, rid, resp)" "mux_route public_routes r = MuxHandler PProtected"
    "mux_route authed_routes r = MuxHandler RSession" "authenticate v out r s = (sa, Inr a)" "extract_token r \<noteq> []"
    "session_revoke (env_db v) (env_prims v) (sv_db sa) (out_clock out 2) (extract_token r) = Inr db"
  shows "E (sv_db s1) (session_key (env_prims v) (extract_token r)) = None"
proof -
  have "route_handler RSession v out r (authed_ctx out a) sa = (sa\<lparr>sv_db := db\<rparr>, ok_strings (authed_ctx out a) [(''status'', ''logged out'')])"
    using assms(5,6) by (simp add: handle_logout_def Let_def)
  then obtain x where "route_handler RSession v out r (authed_ctx out a) sa = (sa\<lparr>sv_db := db\<rparr>, Done x)"
    by (simp add: ok_strings_def ok_json_def)
  from serve_answered[OF assms(2,4,3) this] assms(1) have
    "s1 = (if env_audit v then log_entry v out 5 (request_entry out r (first_ctx out) a (resp_status x)) (sa\<lparr>sv_db := db\<rparr>)
       else sa\<lparr>sv_db := db\<rparr>)" by simp
  moreover have "\<not> audit_zone (session_key (env_prims v) (extract_token r))" using zones_disjoint(3) zone_keys(8) by blast
  ultimately show ?thesis using auth.revoke_E[OF assms(6)] by (simp add: log_entry_keeps)
qed

end

section \<open>A session lasts\<close>

text \<open>
  What may happen between a login and a use of its token: requests of anybody, except a logout with the token and
  a login that is issued a token of the same digest; reloads of the policies; the pruning of challenges.
\<close>

definition logs_out :: "'s env \<Rightarrow> string \<Rightarrow> request \<Rightarrow> bool" where
  "logs_out v token r \<longleftrightarrow> mux_route public_routes r = MuxHandler PProtected \<and> mux_route authed_routes r = MuxHandler RSession
     \<and> sha256 (env_prims v) (extract_token r) = sha256 (env_prims v) token"

definition reissues :: "'s env \<Rightarrow> string \<Rightarrow> outside \<Rightarrow> request \<Rightarrow> 's server \<Rightarrow> bool" where
  "reissues v token out r s \<longleftrightarrow> (\<exists>p i m pol db tok. mux_route public_routes r = MuxHandler p \<and> proves v out r s p i m pol
     \<and> issues v out s i m pol db tok \<and> sha256 (env_prims v) tok = sha256 (env_prims v) token)"

inductive kept_run :: "'s env \<Rightarrow> string \<Rightarrow> 's server \<Rightarrow> 's server \<Rightarrow> bool" for v token where
  kept_start: "kept_run v token s s"
| kept_request: "kept_run v token s s1 \<Longrightarrow> \<not> logs_out v token r \<Longrightarrow> \<not> reissues v token out r s1 \<Longrightarrow>
    serve v out r s1 = (s2, rid, resp) \<Longrightarrow> kept_run v token s s2"
| kept_reload: "kept_run v token s s1 \<Longrightarrow> kept_run v token s (reload_policies F s1)"
| kept_prune: "kept_run v token s s1 \<Longrightarrow> kept_run v token s (s1\<lparr>sv_challenges := prune_expired t (sv_challenges s1)\<rparr>)"

text \<open>The record of a session, which the database hides before the session ends.\<close>

definition session_at :: "prims \<Rightarrow> contents \<Rightarrow> string \<Rightarrow> session_meta \<Rightarrow> bool" where
  "session_at P c k m \<longleftrightarrow> (\<exists>data e. c k = Some (data, Some e) \<and> e \<le> sess_expires m
     \<and> json_unmarshal (dec_session P) data = Inr m)"

context api
begin

text \<open>Validate deletes a session that has ended only while it still finds it, which is never.\<close>

lemma validate_stays:
  assumes "session_at (env_prims v) (E db) k m" "session_validate (env_db v) (env_prims v) db t token = (db', x)"
  shows "E db' k = E db k"
proof (cases "k = session_key (env_prims v) token")
  case False
  then show ?thesis using auth.validate_E[OF assms(2)] by auto
next
  case True
  obtain data e where d: "E db k = Some (data, Some e)" "e \<le> sess_expires m" "json_unmarshal (dec_session (env_prims v)) data = Inr m"
    using assms(1) by (auto simp: session_at_def)
  have "visible (E db) t k = (if t < e then Some data else None)" using d(1) by (simp add: visible_def)
  then show ?thesis using assms(2) d(2,3) True
    by (auto simp: session_validate_def db_get_visible split: if_splits)
qed

lemma authenticate_stays:
  assumes "session_at (env_prims v) (E (sv_db s)) k m" "authenticate v out r s = (s1, d)"
  shows "E (sv_db s1) k = E (sv_db s) k"
proof (cases "\<not> env_dev v \<and> has_prefix (extract_token r) ''lvt_'' \<and> extract_token r \<noteq> []")
  case True
  obtain db x where x: "session_validate (env_db v) (env_prims v) (sv_db s) (out_clock out 1) (extract_token r) = (db, x)"
    by (cases "session_validate (env_db v) (env_prims v) (sv_db s) (out_clock out 1) (extract_token r)")
  then have "sv_db s1 = db" using assms(2) True by (auto simp: authenticate_def Let_def split: sum.splits)
  with validate_stays[OF assms(1) x] show ?thesis by simp
qed (use assms(2) in \<open>auto simp: authenticate_def Let_def split: if_splits sum.splits\<close>)

lemma protected_stays:
  assumes "session_at (env_prims v) (E (sv_db s)) k m" "protected_handler v out r (first_ctx out) s = (s', x)" "token_key k"
    and "mux_route authed_routes r = MuxHandler RSession \<Longrightarrow> k \<noteq> session_key (env_prims v) (extract_token r)"
  shows "E (sv_db s') k = E (sv_db s) k"
proof -
  have z: "\<not> audit_zone k" using zones_disjoint(3)[OF assms(3)] .
  have inner: "E (sv_db s2) k = E (sv_db s) k"
    if a: "authenticate v out r s = (s1, Inr a)" and m: "mux_serve authed_routes route_handler v out r c s1 = (s2, y)" for s1 a c s2 y
  proof -
    have "E (sv_db s2) k = E (sv_db s1) k"
      using m route_stays[OF _ assms(3)] assms(4) by (auto simp: mux_serve_def split: mux_result.splits)
    with authenticate_stays[OF assms(1) a] show ?thesis by simp
  qed
  from assms(2) show ?thesis
  proof (cases rule: protected_cases)
    case (refused s1 a msg)
    then show ?thesis using authenticate_stays[OF assms(1) refused(1)] z by (simp add: log_entry_keeps)
  next
    case (panicked s1 a m)
    then show ?thesis using inner[OF panicked(1,2)] by simp
  next
    case (answered s1 s2 a y)
    then show ?thesis using inner[OF answered(1,2)] z by (simp add: log_entry_keeps)
  qed
qed

lemma serve_stays:
  assumes "session_at (env_prims v) (E (sv_db s)) (session_key (env_prims v) token) m" "serve v out r s = (s', rid, resp)"
    and "\<not> logs_out v token r" "\<not> reissues v token out r s"
  shows "E (sv_db s') (session_key (env_prims v) token) = E (sv_db s) (session_key (env_prims v) token)"
proof (rule ccontr)
  let ?k = "session_key (env_prims v) token"
  assume ch: "\<not> ?thesis"
  have tk: "token_key ?k" by (rule zone_keys(8))
  show False
  proof (cases "E (sv_db s') ?k = None")
    case False
    from session_origin[OF assms(2) tk ch False] assms(4) show False
      unfolding reissues_def by (metis session_key_inject)
  next
    case gone: True
    have z: "\<not> audit_zone ?k" using zones_disjoint(3)[OF tk] .
    obtain p where p: "mux_route public_routes r = MuxHandler p" "public_handler p v out r (first_ctx out) s = (s', resp)"
      using assms(2) ch by (auto simp: serve_eq mux_serve_def split: mux_result.splits prod.splits)
    show False
    proof (cases "p = PProtected")
      case True
      have "protected_handler v out r (first_ctx out) s = (s', resp)" using p True by simp
      from protected_stays[OF assms(1) this tk] p True assms(3) ch show False
        by (auto simp: logs_out_def session_key_inject)
    next
      case np: False
      obtain i m pol chs where l: "proves v out r s p i m pol"
        "issue_session v out r (first_ctx out) i m pol (s\<lparr>sv_challenges := chs\<rparr>) = (s', resp)"
        by (rule login_cases[OF p(2) np z ch])
      obtain db tok where t: "issues v out s i m pol db tok"
        using l(2) ch by (auto simp: issues_def issue_session_def split: sum.splits)
      then have "sv_db s' = sv_db (log_auth_attempt v out r (first_ctx out) i m ''allowed'' (s\<lparr>sv_challenges := chs, sv_db := db\<rparr>))"
        using l(2) issue_session_E(2)[of v out "s\<lparr>sv_challenges := chs\<rparr>"] by simp
      then have k: "E db ?k = None" "E db ?k \<noteq> E (sv_db s) ?k" using gone ch z by (simp_all add: log_auth_keeps)
      show False
        using t unfolding issues_def
      proof (cases rule: auth.issue_cases)
        case (1 raw h data)
        from db.set_ttl_E[OF 1(5)] k show False by (auto split: if_splits)
      qed
    qed
  qed
qed

lemma kept_stays:
  assumes "kept_run v token s s'" "session_at (env_prims v) (E (sv_db s)) (session_key (env_prims v) token) m"
  shows "E (sv_db s') (session_key (env_prims v) token) = E (sv_db s) (session_key (env_prims v) token)"
  using assms
proof (induction rule: kept_run.induct)
  case (kept_request s s1 r out s2 rid resp)
  then have same: "E (sv_db s1) (session_key (env_prims v) token) = E (sv_db s) (session_key (env_prims v) token)" by blast
  then have "session_at (env_prims v) (E (sv_db s1)) (session_key (env_prims v) token) m"
    using kept_request.prems by (simp add: session_at_def)
  from serve_stays[OF this kept_request.hyps(4,2,3)] same show ?case by simp
qed simp_all

end

section \<open>A demonstration\<close>

text \<open>An administrator logs in; what the session token is good for.\<close>

lemma demo_logged_in:
  obtains db token s1 rid resp fresh where "\<And>k. token_key k \<Longrightarrow> map_of (sv_db (demo_server db)) k = None"
    "serve demo_env (demo_out (-1)) (demo_login token) (demo_server db) = (s1, rid, resp)" "has_prefix fresh ''lvt_''"
    "\<And>r t. extract_token r = fresh \<Longrightarrow> t \<le> 100 \<Longrightarrow> authenticate demo_env (demo_out t) r s1 =
      (s1, Inr \<lparr>as_identity = ''admin:root'', as_method = ''admin_token'', as_policy = ''admin''\<rparr>)"
proof -
  obtain db token db' fresh where p: "proves demo_env (demo_out (-1)) (demo_login token) (demo_server db) PAdminLogin
      ''admin:root'' ''admin_token'' ''admin''" and n: "\<forall>k. token_key k \<longrightarrow> map_of db k = None"
    and i: "issues demo_env (demo_out (-1)) (demo_server db) ''admin:root'' ''admin_token'' ''admin'' db' fresh"
    by (rule demo_login_issues)
  obtain s1 rid where s: "serve demo_env (demo_out (-1)) (demo_login token) (demo_server db) =
      (s1, rid, login_answer demo_env (first_ctx (demo_out (-1))) fresh ''admin:root'' ''admin'')"
    and e: "\<And>k. \<not> audit_zone k \<Longrightarrow> map_of (sv_db s1) k = map_of db' k"
    using demo_api.login_answered[OF demo_login_route p i] by blast
  have nz: "\<not> audit_zone (session_key (env_prims demo_env) fresh)" using zones_disjoint(3) zone_keys(8) by blast
  have "has_prefix fresh ''lvt_''"
    using demo_auth.issue_E[OF i[unfolded issues_def, simplified] demo_login_ok] by (metis sessionTokenPrefix_def)
  moreover have "authenticate demo_env (demo_out t) r s1 =
      (s1, Inr \<lparr>as_identity = ''admin:root'', as_method = ''admin_token'', as_policy = ''admin''\<rparr>)"
    if "extract_token r = fresh" "t \<le> 100" for r t
    by (rule demo_api.login_session[OF i demo_login_ok _ e[OF nz] that(1)])
      (use that(2) in \<open>simp_all add: session_ttl_def config_defaults_def hour_def minute_def second_def\<close>)
  ultimately show thesis using that[of db token s1 rid] n s by simp
qed

definition demo_logout :: "string \<Rightarrow> request" where
  "demo_logout token = demo_request ''DELETE'' ''/v1/auth/session'' token []"

lemma demo_logout_routes:
  "mux_route public_routes (demo_logout token) = MuxHandler PProtected"
  "mux_route authed_routes (demo_logout token) = MuxHandler RSession"
proof -
  have "mux_route public_routes (demo_request ''GET'' ''/v1/auth/session'' [] []) = MuxHandler PProtected"
    "mux_route authed_routes (demo_request ''GET'' ''/v1/auth/session'' [] []) = MuxHandler RSession" by code_simp+
  then show "mux_route public_routes (demo_logout token) = MuxHandler PProtected"
    "mux_route authed_routes (demo_logout token) = MuxHandler RSession"
    using mux_route_path[of "demo_logout token" public_routes] mux_route_path[of "demo_logout token" authed_routes]
    by (simp_all add: demo_logout_def)
qed

section \<open>Properties\<close>

text \<open>
  C10: Whoever is authenticated with a session token was logged in: in whatever state the server reached from one without the
  token's record, by whatever requests, reloads and prunings, an earlier request of the run went to a login route,
  proved the identity with the method and policy that the caller has now, and was issued a token of
  the same digest, no longer ago than the lifetime of sessions.
\<close>

theorem caller_was_logged_in:
  assumes "badger_laws (env_db v) E" and "prims_laws (env_prims v)" and "\<not> env_dev v"
    and "api_run v (\<lambda>_. True) n s0 s" and "E (sv_db s0) (session_key (env_prims v) (extract_token r)) = None"
    and "has_prefix (extract_token r) ''lvt_''" and "authenticate v out r s = (s', Inr a)"
  shows "\<exists>token t db. logged_in v s0 s token a t db \<and> out_clock out 1 \<le> t + session_ttl v
    \<and> sha256 (env_prims v) token = sha256 (env_prims v) (extract_token r)"
  by (rule api.caller_logged_in[OF apiI[OF assms(1,2)] assms(4,5,3,6,7)])

theorem caller_was_logged_in_witness:
  "\<exists>db s token t db'. api_run demo_env (\<lambda>_. True) 1 (demo_server db) s \<and> logged_in demo_env (demo_server db) s token
     \<lparr>as_identity = ''admin:root'', as_method = ''admin_token'', as_policy = ''admin''\<rparr> t db'"
proof (rule demo_logged_in)
  fix db token s1 rid resp fresh
  assume n: "\<And>k. token_key k \<Longrightarrow> map_of (sv_db (demo_server db)) k = None"
    and s: "serve demo_env (demo_out (-1)) (demo_login token) (demo_server db) = (s1, rid, resp)" and p: "has_prefix fresh ''lvt_''"
    and a: "\<And>r t. extract_token r = fresh \<Longrightarrow> t \<le> 100 \<Longrightarrow> authenticate demo_env (demo_out t) r s1 =
      (s1, Inr \<lparr>as_identity = ''admin:root'', as_method = ''admin_token'', as_policy = ''admin''\<rparr>)"
  have t: "extract_token (demo_put fresh) = fresh" by (simp add: demo_put_def)
  have "api_run demo_env (\<lambda>_. True) (Suc 0) (demo_server db) s1" by (rule run_request[OF run_start _ s]) simp
  from caller_was_logged_in[OF demo_env_laws demo_env_simps(4) this _ _ a[OF t, of 100]] n p t this
  show ?thesis by (fastforce simp: zone_keys)
qed

text \<open>
  C12: A proof of identity opens a session that lasts: when the session can be issued, the login answers with its
  token, and in every state that the server reaches from there, until a second before the session ends, a protected request with
  that token is authenticated as the proved identity, with its method and policy. Anything may happen
  in between, uses of the token, other callers' requests, the deletion of the account, reloads of the policies, but no
  request to the logout route with the token, and no login that is issued a token of the same digest.
\<close>

theorem login_opens_session:
  assumes "badger_laws (env_db v) E" and "prims_laws (env_prims v)" and "\<not> env_dev v"
    and "mux_route public_routes r = MuxHandler p" and "proves v out r s p identity meth pol"
    and "issues v out s identity meth pol db token"
  shows "\<exists>s' rid. serve v out r s = (s', rid, login_answer v (first_ctx out) token identity pol)
    \<and> (\<forall>s'' out' r'. kept_run v token s' s'' \<and> extract_token r' = token
        \<and> out_clock out' 1 + second \<le> out_clock out 3 + session_ttl v \<longrightarrow>
        authenticate v out' r' s'' = (s'', Inr \<lparr>as_identity = identity, as_method = meth, as_policy = pol\<rparr>))"
proof -
  note a = apiI[OF assms(1,2)]
  let ?k = "session_key (env_prims v) token"
  have u: "utf8_ok identity" "utf8_ok meth" "utf8_ok pol" using proved_names[OF assms(5)] by auto
  obtain s' rid where s: "serve v out r s = (s', rid, login_answer v (first_ctx out) token identity pol)"
    and k: "\<forall>k. \<not> audit_zone k \<longrightarrow> E (sv_db s') k = E db k"
    using api.login_answered[OF a assms(4-6)] by blast
  have new: "E (sv_db s') ?k = E db ?k" using k zones_disjoint(3) zone_keys(8) by blast
  have "\<exists>m. session_at (env_prims v) (E (sv_db s')) ?k m"
  proof (rule auth_base.issue_E[OF authI[OF assms(1,2)] assms(6)[unfolded issues_def] u])
    fix h data e
    assume "json_unmarshal (dec_session (env_prims v)) data = Inr \<lparr>sess_identity = identity, sess_method = meth,
       sess_policy = pol, sess_issued = out_clock out 3, sess_expires = out_clock out 3 + session_ttl v, sess_hash = h\<rparr>"
      and "E db = (E (sv_db s))(?k \<mapsto> (data, Some e))" and "e \<le> out_clock out 3 + session_ttl v"
    then show ?thesis unfolding session_at_def new by auto
  qed
  then obtain m where m: "session_at (env_prims v) (E (sv_db s')) ?k m" ..
  have "authenticate v out' r' s'' = (s'', Inr \<lparr>as_identity = identity, as_method = meth, as_policy = pol\<rparr>)"
    if "kept_run v token s' s''" "extract_token r' = token" "out_clock out' 1 + second \<le> out_clock out 3 + session_ttl v" for s'' out' r'
    by (rule api.login_session[OF a assms(6) u assms(3) _ that(2,3)]) (use api.kept_stays[OF a that(1) m] new in simp)
  with s show ?thesis by blast
qed

text \<open>The administrator writes a secret with the token and uses it again.\<close>

theorem login_opens_session_witness:
  "\<exists>db token fresh s1 rid s2 rid2 resp. serve demo_env (demo_out (-1)) (demo_login token) (demo_server db) =
      (s1, rid, login_answer demo_env (first_ctx (demo_out (-1))) fresh ''admin:root'' ''admin'')
    \<and> serve demo_env (demo_out 50) (demo_put fresh) s1 = (s2, rid2, resp)
    \<and> authenticate demo_env (demo_out 100) (demo_put fresh) s2 =
      (s2, Inr \<lparr>as_identity = ''admin:root'', as_method = ''admin_token'', as_policy = ''admin''\<rparr>)"
proof -
  obtain db token db' fresh where p: "proves demo_env (demo_out (-1)) (demo_login token) (demo_server db) PAdminLogin
      ''admin:root'' ''admin_token'' ''admin''"
    and i: "issues demo_env (demo_out (-1)) (demo_server db) ''admin:root'' ''admin_token'' ''admin'' db' fresh"
    by (rule demo_login_issues)
  obtain s1 rid where s1: "serve demo_env (demo_out (-1)) (demo_login token) (demo_server db) =
      (s1, rid, login_answer demo_env (first_ctx (demo_out (-1))) fresh ''admin:root'' ''admin'')"
    and l: "\<And>s'' out' r'. kept_run demo_env fresh s1 s'' \<Longrightarrow> extract_token r' = fresh \<Longrightarrow>
        out_clock out' 1 + second \<le> out_clock (demo_out (-1)) 3 + session_ttl demo_env \<Longrightarrow>
        authenticate demo_env out' r' s'' = (s'', Inr \<lparr>as_identity = ''admin:root'', as_method = ''admin_token'', as_policy = ''admin''\<rparr>)"
    using login_opens_session[OF demo_env_laws demo_env_simps(4) demo_login_route p i] by blast
  obtain s2 rid2 resp where s2: "serve demo_env (demo_out 50) (demo_put fresh) s1 = (s2, rid2, resp)" by (metis prod.exhaust)
  have "\<not> logs_out demo_env fresh (demo_put fresh)" by (simp add: logs_out_def demo_put_routes)
  moreover have "\<not> reissues demo_env fresh (demo_out 50) (demo_put fresh) s1" by (simp add: reissues_def demo_put_routes)
  ultimately have "kept_run demo_env fresh s1 s2" using kept_request[OF kept_start _ _ s2] by blast
  moreover have "extract_token (demo_put fresh) = fresh" by (simp add: demo_put_def)
  moreover have "out_clock (demo_out 100) 1 + second \<le> out_clock (demo_out (-1)) 3 + session_ttl demo_env"
    by (simp add: session_ttl_def config_defaults_def hour_def minute_def second_def)
  ultimately show ?thesis using s1 s2 l by blast
qed

text \<open>
  C11: A session that was revoked stays revoked: after a logout whose deletion succeeded, and whatever requests
  follow it, the token authenticates nobody, unless a later login of the run was issued a token of the same digest,
  and then it authenticates whom that login proved.
\<close>

theorem logout_ends_session:
  assumes "badger_laws (env_db v) E" and "prims_laws (env_prims v)" and "\<not> env_dev v"
    and "serve v out r s = (s1, rid, resp)" and "mux_route public_routes r = MuxHandler PProtected"
    and "mux_route authed_routes r = MuxHandler RSession" and "authenticate v out r s = (sa, Inr a)"
    and "session_revoke (env_db v) (env_prims v) (sv_db sa) (out_clock out 2) (extract_token r) = Inr db"
    and "has_prefix (extract_token r) ''lvt_''" and "extract_token r' = extract_token r"
    and "api_run v (\<lambda>_. True) n s1 s'"
  shows "case snd (authenticate v out' r' s') of Inl refusal \<Rightarrow> True
    | Inr b \<Rightarrow> \<exists>token t db'. logged_in v s1 s' token b t db' \<and> sha256 (env_prims v) token = sha256 (env_prims v) (extract_token r)"
proof -
  note api = apiI[OF assms(1,2)]
  have "extract_token r \<noteq> []" using assms(9) by (auto simp: has_prefix_def)
  from api.logout_removes[OF api assms(4-7) this assms(8)]
  have "E (sv_db s1) (session_key (env_prims v) (extract_token r')) = None" using assms(10) by simp
  note l = api.caller_logged_in[OF api assms(11) this assms(3)]
  obtain s'' y where "authenticate v out' r' s' = (s'', y)" by (cases "authenticate v out' r' s'")
  then show ?thesis using l[of out' s''] assms(9,10) by (fastforce split: sum.split)
qed

text \<open>The administrator logs out and tries the token again.\<close>

theorem logout_ends_session_witness:
  "\<exists>s fresh s1 rid resp. serve demo_env (demo_out 5) (demo_logout fresh) s = (s1, rid, resp)
     \<and> (\<exists>a. snd (authenticate demo_env (demo_out 5) (demo_logout fresh) s) = Inr a)
     \<and> (case snd (authenticate demo_env (demo_out 9) (demo_put fresh) s1) of Inl refusal \<Rightarrow> True
        | Inr b \<Rightarrow> \<exists>token t db. logged_in demo_env s1 s1 token b t db \<and> sha256 demo_prims token = sha256 demo_prims fresh)"
proof (rule demo_logged_in)
  fix db token s rid resp fresh
  assume p: "has_prefix fresh ''lvt_''"
    and a: "\<And>r t. extract_token r = fresh \<Longrightarrow> t \<le> 100 \<Longrightarrow> authenticate demo_env (demo_out t) r s =
      (s, Inr \<lparr>as_identity = ''admin:root'', as_method = ''admin_token'', as_policy = ''admin''\<rparr>)"
  have t: "extract_token (demo_put fresh) = fresh" "extract_token (demo_logout fresh) = fresh"
    by (simp_all add: demo_put_def demo_logout_def)
  obtain db' where r: "session_revoke mem_badger demo_prims (sv_db s) (out_clock (demo_out 5) 2) fresh = Inr db'"
    by (simp add: session_revoke_def db_delete_def lift_bdg_def mem_badger_def)
  obtain s1 rid1 resp1 where s1: "serve demo_env (demo_out 5) (demo_logout fresh) s = (s1, rid1, resp1)" by (metis prod.exhaust)
  have "case snd (authenticate demo_env (demo_out 9) (demo_put fresh) s1) of Inl refusal \<Rightarrow> True
    | Inr b \<Rightarrow> \<exists>token t db'. logged_in demo_env s1 s1 token b t db'
        \<and> sha256 (env_prims demo_env) token = sha256 (env_prims demo_env) (extract_token (demo_logout fresh))"
    by (rule logout_ends_session[OF demo_env_laws demo_env_simps(4) s1 demo_logout_routes a[OF t(2), of 5] _ _ _ run_start])
      (use r p t in simp_all)
  from this[unfolded t(2) demo_env_simps] s1 a[OF t(2), of 5] have "serve demo_env (demo_out 5) (demo_logout fresh) s = (s1, rid1, resp1)
     \<and> (\<exists>a. snd (authenticate demo_env (demo_out 5) (demo_logout fresh) s) = Inr a)
     \<and> (case snd (authenticate demo_env (demo_out 9) (demo_put fresh) s1) of Inl refusal \<Rightarrow> True
        | Inr b \<Rightarrow> \<exists>token t db. logged_in demo_env s1 s1 token b t db \<and> sha256 demo_prims token = sha256 demo_prims fresh)"
    by simp
  then show ?thesis by (intro exI)
qed

end
