(* ===== verification/Api_Run_Props.thy ===== *)
theory Api_Run_Props
  imports Api_Runs Demo_Api Transit_Props
begin

text \<open>
  What holds of the secrets after any run of the server: what is stored under every path and name is a
  history and a key ring, what was once read stays so, and what was once encrypted stays readable.
\<close>

context api
begin

text \<open>Records of secrets are in no other zone: authentication and the audit trail leave them.\<close>

lemma secrets_kept:
  "authenticate v out r s = (s1, d) \<Longrightarrow> secret_key k \<Longrightarrow> E (sv_db s1) k = E (sv_db s) k"
  "secret_key k \<Longrightarrow> E (sv_db (if b then log_entry v out i e s2 else s2)) k = E (sv_db s2) k"
  using authenticate_step(1) zones_disjoint(1) by (auto simp: moves_def confined_def log_entry_keeps)

lemma reached:
  assumes "\<And>k. secret_key k \<Longrightarrow> E (sv_db s0) k = None" "api_run v fine_request n s0 s" "n < 2 ^ 63"
  shows "secrets_inv v n (sv_db s)"
  using run_inv[OF assms(2) empty_inv[OF assms(1)]] assms(3) by (simp add: int64_ok_def)

text \<open>A version that was read once, later: as it was, or gone.\<close>

lemma version_later:
  assumes "holds_kv v db q y" "holds_kv v db' q z" "secret_grows y z"
    "kv_get (env_db v) (env_prims v) (env_crypto v) db t q w = Inr e"
  shows "kv_get (env_db v) (env_prims v) (env_crypto v) db' t' q (kv_version e) \<in>
      {Inr e, Inl (ErrSecretDeleted q), Inl ErrNotFound}"
proof -
  obtain h where h: "y = Some h" using assms(1,4) by (cases y) (auto simp: kv_rep_def kv_get_def)
  let ?n = "int (length (history h))"
  define u where "u = (if w = 0 then ?n else w)"
  have u: "1 \<le> u" "u \<le> ?n" "get_version (env_db v) (env_prims v) (env_crypto v) db t q u = Inr e"
    using assms(4) kv_repD(1)[OF assms(1)[unfolded h], of t]
    by (auto simp: kv_get_def u_def Let_def Suc_le_eq split: if_splits)
  then have e: "e = abs_entry q h u" using kv_repD(5)[OF assms(1)[unfolded h], of u t] by auto
  then have ev: "kv_version e = u" by (simp add: abs_entry_def split: prod.splits)
  obtain later where l: "past z = history h @ later" using assms(3) h by (auto simp: secret_grows_def past_def)
  moreover have "history h \<noteq> []" using u(1,2) by auto
  ultimately obtain g where g: "z = Some g" "history g = history h @ later" by (cases z) (auto simp: past_def)
  have "nat (u - 1) < length (history h)" using u(1,2) by linarith
  then have same: "abs_entry q g u = e" using e g(2) by (simp add: abs_entry_def nth_append)
  have "u \<le> int (length (history g))" using u(2) g(2) by simp
  then show ?thesis
    using kv_repD(1)[OF assms(2)[unfolded g(1)], of t'] kv_repD(5)[OF assms(2)[unfolded g(1)] u(1), of t'] u(1) same
    by (auto simp: kv_get_def ev Let_def)
qed

end

section \<open>A demonstration\<close>

lemma demo_put_fine: "fine_request (demo_put token)"
proof -
  have "json_decode [dquote, CHR ''x'', dquote] = Some (JStr ''x'')" "utf8_ok ''/v1/secrets/kv/a''"
    "json_depth (JStr ''x'') < max_depth" by code_simp+
  then show ?thesis by (simp add: fine_request_def demo_put_def)
qed

lemma demo_request_run:
  "fine_request r \<Longrightarrow> serve demo_env out r s = (s', rid, resp) \<Longrightarrow> api_run demo_env fine_request 1 s s'"
  using run_request[OF run_start] by fastforce

lemma demo_other_request: "\<exists>s'. api_run demo_env fine_request 1 s s'"
  using demo_request_run[OF demo_put_fine] by (metis prod.exhaust)

text \<open>A server without secrets, on which an administrator stored one.\<close>

lemma demo_stored:
  obtains db s where "\<And>k. secret_key k \<Longrightarrow> map_of (sv_db (demo_server db)) k = None" "api_run demo_env fine_request 1 (demo_server db) s"
    "holds_kv demo_env (sv_db s) ''a'' (Some (abs_set None (JStr ''x'') 2))"
proof -
  have u: "utf8_ok ''ada''" "utf8_ok ''user''" "utf8_ok ''admin''" using demo_identity_ok demo_admin_names by auto
  obtain db token m where d: "has_prefix token ''lvt_''" "token \<noteq> []" "\<And>k. \<not> token_key k \<Longrightarrow> map_of db k = None"
    "session_validate mem_badger demo_prims db (0 + 1) token = (db, Inr m)" "sess_policy m = ''admin''"
    by (rule demo_session_at[OF u, of 1]) (auto simp: minute_def second_def)
  have e: "map_of db k = None" if "secret_key k" for k using d(3) that zones_disjoint(1) by blast
  have p: "policy_allowed (new_engine ''policies'') (sess_policy m) ''secrets/kv/a'' CapWrite"
    unfolding d(5) by code_simp
  obtain s rid x where "serve demo_env (demo_out 0) (demo_put token) (demo_server db) = (s, rid, Done x)"
    "kv_rep mem_badger demo_prims demo_crypto (sv_db s) ''a'' (Some (abs_set None (JStr ''x'') (0 + 2)))"
    by (rule demo_put_stored[OF e[OF zone_keys(1)] _ _ d(4,1,2) p]) (auto simp: minute_def second_def)
  with that[of db s] e demo_request_run[OF demo_put_fine] show thesis by simp
qed

lemma demo_stored_read:
  "holds_kv demo_env db ''a'' (Some (abs_set None (JStr ''x'') 2)) \<Longrightarrow>
   kv_get mem_badger demo_prims demo_crypto db t ''a'' 0 = Inr (abs_entry ''a'' (abs_set None (JStr ''x'') 2) 1)"
  using kv_get_rep[of mem_badger demo_prims demo_crypto db "''a''" "abs_set None (JStr ''x'') 2" t 0] by (simp add: abs_set_def maxVersions_def)

text \<open>A server on which an administrator made a transit key.\<close>

definition demo_make_key :: "string \<Rightarrow> request" where
  "demo_make_key token = demo_request ''POST'' ''/v1/secrets/transit/k/create'' token []"

lemma demo_make_key_fine: "fine_request (demo_make_key token)"
proof -
  have "json_decode [] = None" "utf8_ok ''/v1/secrets/transit/k/create''" by code_simp+
  then show ?thesis by (simp add: fine_request_def demo_make_key_def)
qed

lemma demo_make_key_routes:
  "mux_route public_routes (demo_make_key token) = MuxHandler PProtected"
  "mux_route authed_routes (demo_make_key token) = MuxHandler RTransit"
proof -
  have "mux_route public_routes (demo_request ''GET'' ''/v1/secrets/transit/k/create'' [] []) = MuxHandler PProtected"
    "mux_route authed_routes (demo_request ''GET'' ''/v1/secrets/transit/k/create'' [] []) = MuxHandler RTransit" by code_simp+
  then show "mux_route public_routes (demo_make_key token) = MuxHandler PProtected"
    "mux_route authed_routes (demo_make_key token) = MuxHandler RTransit"
    using mux_route_path[of "demo_make_key token" public_routes] mux_route_path[of "demo_make_key token" authed_routes]
    by (simp_all add: demo_make_key_def)
qed

lemma demo_made:
  obtains db s k where "\<And>k. secret_key k \<Longrightarrow> map_of (sv_db (demo_server db)) k = None" "api_run demo_env fine_request 1 (demo_server db) s"
    "holds_transit demo_env (sv_db s) ''k'' (Some [(k, 2)])"
proof -
  have u: "utf8_ok ''ada''" "utf8_ok ''admin_token''" "utf8_ok ''root''" by code_simp+
  obtain db token m where d: "has_prefix token ''lvt_''" "token \<noteq> []" "\<And>k. \<not> token_key k \<Longrightarrow> map_of db k = None"
    "session_validate mem_badger demo_prims db (0 + 1) token = (db, Inr m)" "sess_policy m = ''root''" "sess_method m = ''admin_token''"
    by (rule demo_session_at[OF u, of 1]) (auto simp: minute_def second_def)
  let ?a = "\<lparr>as_identity = sess_identity m, as_method = sess_method m, as_policy = sess_policy m\<rparr>"
  have e: "map_of db k = None" if "secret_key k" for k using d(3) that zones_disjoint(1) by blast
  have a: "authenticate demo_env (demo_out 0) (demo_make_key token) (demo_server db) = (demo_server db, Inr ?a)"
    unfolding demo_make_key_def by (rule demo_authenticated[OF d(4,1,2)])
  have p: "policy_allowed (new_engine ''policies'') (sess_policy m) ''secrets/transit/k'' CapWrite"
    unfolding d(5) by code_simp
  have n: "transit_rep mem_badger demo_prims demo_crypto db ''k'' None"
    by (rule demo_vault.transit_inv_empty(1)) (use e transit_record_secret in \<open>simp add: transit_record_def\<close>)
  obtain db' where c: "transit_create mem_badger demo_prims demo_crypto db 2 demo_rng ''k'' = Inr db'"
    using demo_create_at[OF n, of 2] by (auto simp: time_ok_def second_def)
  obtain k where k: "transit_rep mem_badger demo_prims demo_crypto db' ''k'' (Some [(k, 2)])"
    using demo_vault.transit_create_rep[OF c] by (auto simp: utf8_ok_all_ascii is_ascii_def)
  have suf: "has_suffix ''/v1/secrets/transit/k/create'' ''/create''"
    "transit_key_name ''/v1/secrets/transit/k/create'' ''/create'' = ''k''" by code_simp+
  obtain x where h: "route_handler RTransit demo_env (demo_out 0) (demo_make_key token) (authed_ctx (demo_out 0) ?a) (demo_server db) =
      (demo_server db\<lparr>sv_db := db'\<rparr>, Done x)"
    using c p suf d(6) by (simp add: handle_transit_def with_admin_def handle_transit_create_def demo_make_key_def allowed_here_def Let_def ok_strings_def ok_json_def)
  let ?s = "log_entry demo_env (demo_out 0) 5 (request_entry (demo_out 0) (demo_make_key token) (first_ctx (demo_out 0)) ?a (resp_status x))
     (demo_server db\<lparr>sv_db := db'\<rparr>)"
  have "serve demo_env (demo_out 0) (demo_make_key token) (demo_server db) = (?s, ctx_request_id (first_ctx (demo_out 0)), Done x)"
    using serve_answered[OF demo_make_key_routes(1) a demo_make_key_routes(2) h] by simp
  then have r: "api_run demo_env fine_request 1 (demo_server db) ?s" by (rule demo_request_run[OF demo_make_key_fine])
  have "map_of (sv_db ?s) q = map_of db' q" if "transit_record q" for q
    using that transit_record_secret zones_disjoint(1) by (simp add: demo_api.log_entry_keeps)
  from that[OF _ r, of k] e demo_vault.transit_rep_agree[OF k this] show thesis by simp
qed

section \<open>Properties\<close>

text \<open>
  C3: After any run of fewer than 2^63 requests whose paths are UTF-8 and whose bodies are nested less than ten thousand
  levels deep, on a server that started without secrets, reloads and prunings of challenges between them, every UTF-8 path holds the
  stored form of a history and every UTF-8 name that of a key ring, each with no more versions than there were requests: no such
  request of any caller, answered, refused or failed, leaves records that the engines cannot read. Both conditions are needed: a value
  nested ten thousand deep is stored and cannot be read back, and the records of a path that is not UTF-8 name another
  path, to which later writes go (kv_invalid_path_delete, transit_rotate_overwrites).
\<close>

theorem api_reachable:
  assumes "badger_laws (env_db v) E" and "prims_laws (env_prims v)"
    and "\<And>k. secret_key k \<Longrightarrow> E (sv_db s0) k = None" and "api_run v fine_request n s0 s" and "n < 2 ^ 63"
  shows "(\<forall>path. utf8_ok path \<longrightarrow> (\<exists>x. holds_kv v (sv_db s) path x \<and> count x \<le> int n))
    \<and> (\<forall>name. utf8_ok name \<longrightarrow> (\<exists>x. holds_transit v (sv_db s) name x \<and> ring_size x \<le> n))"
  using api.reached[OF apiI[OF assms(1,2)] assms(3-5)] by (simp add: secrets_inv_def kv_inv_def transit_inv_def)

theorem api_reachable_witness:
  "\<exists>db s. api_run demo_env fine_request 1 (demo_server db) s \<and> sv_db s \<noteq> db
    \<and> (\<exists>x. holds_kv demo_env (sv_db s) ''b'' x \<and> count x \<le> 1)"
proof (rule demo_stored)
  fix db s
  assume e: "\<And>k. secret_key k \<Longrightarrow> map_of (sv_db (demo_server db)) k = None"
    and r: "api_run demo_env fine_request 1 (demo_server db) s"
    and h: "holds_kv demo_env (sv_db s) ''a'' (Some (abs_set None (JStr ''x'') 2))"
  have "sv_db s \<noteq> db" using h demo_fresh[of db "''a''"] e[OF zone_keys(1)] by (auto simp: kv_rep_def)
  moreover have "utf8_ok ''b''" by code_simp
  ultimately show ?thesis using api_reachable[OF demo_env_laws e r] r by fastforce
qed

text \<open>
  C6: A version of a secret is immutable under requests with UTF-8 paths and bodies nested less than ten thousand levels
  deep: what was read as version w under a UTF-8 path, in a state that such requests reached, is after further such requests of anybody
  (fewer than 2^63 in all) either still read as it was, or the secret is deleted, or the version was pruned. A
  request on a path that is not UTF-8 is outside of it: it may write the metadata of the path with the bytes replaced.
\<close>

theorem api_versions_immutable:
  assumes "badger_laws (env_db v) E" and "prims_laws (env_prims v)"
    and "\<And>k. secret_key k \<Longrightarrow> E (sv_db s0) k = None" and "api_run v fine_request m s0 s" and "api_run v fine_request n s s'"
    and "m + n < 2 ^ 63" and "utf8_ok path"
    and "kv_get (env_db v) (env_prims v) (env_crypto v) (sv_db s) t path w = Inr e"
  shows "kv_get (env_db v) (env_prims v) (env_crypto v) (sv_db s') t' path (kv_version e) \<in>
      {Inr e, Inl (ErrSecretDeleted path), Inl ErrNotFound}"
proof -
  note a = apiI[OF assms(1,2)]
  have i: "secrets_inv v m (sv_db s)" using api.reached[OF a assms(3,4)] assms(6) by simp
  then obtain y where y: "holds_kv v (sv_db s) path y" "count y \<le> int m"
    using assms(7) by (auto simp: secrets_inv_def kv_inv_def)
  have "int64_ok (int (m + n))" using assms(6) by (simp add: int64_ok_def)
  then obtain z where "holds_kv v (sv_db s') path z" "secret_grows y z"
    using api.run_inv[OF a assms(5) i] y assms(7) unfolding all_grow_def by blast
  from api.version_later[OF a y(1) this assms(8)] show ?thesis .
qed

theorem api_versions_immutable_witness:
  "\<exists>db s s' e. api_run demo_env fine_request 1 (demo_server db) s \<and> api_run demo_env fine_request 1 s s'
    \<and> kv_get mem_badger demo_prims demo_crypto (sv_db s) 9 ''a'' 0 = Inr e \<and> kv_value e = JStr ''x''
    \<and> kv_get mem_badger demo_prims demo_crypto (sv_db s') 99 ''a'' 1 \<in> {Inr e, Inl (ErrSecretDeleted ''a''), Inl ErrNotFound}"
proof (rule demo_stored)
  fix db s
  assume e: "\<And>k. secret_key k \<Longrightarrow> map_of (sv_db (demo_server db)) k = None"
    and r: "api_run demo_env fine_request 1 (demo_server db) s"
    and h: "holds_kv demo_env (sv_db s) ''a'' (Some (abs_set None (JStr ''x'') 2))"
  obtain s' where r': "api_run demo_env fine_request 1 s s'" using demo_other_request by blast
  let ?e = "abs_entry ''a'' (abs_set None (JStr ''x'') 2) 1"
  have g: "kv_get mem_badger demo_prims demo_crypto (sv_db s) 9 ''a'' 0 = Inr ?e" using demo_stored_read[OF h] .
  have v: "kv_version ?e = 1" "kv_value ?e = JStr ''x''" by (simp_all add: abs_entry_def abs_set_def)
  have "kv_get (env_db demo_env) (env_prims demo_env) (env_crypto demo_env) (sv_db s') 99 ''a'' (kv_version ?e)
     \<in> {Inr ?e, Inl (ErrSecretDeleted ''a''), Inl ErrNotFound}"
    by (rule api_versions_immutable[OF demo_env_laws e r r']) (use g demo_path_ok(1) in simp_all)
  with r r' g v show ?thesis by fastforce
qed

text \<open>
  C7: A ciphertext that the server made stays readable under requests with UTF-8 paths and bodies nested less than ten thousand
  levels deep: made under a UTF-8 name in a state that such requests reached, it decrypts under its name to the plaintext after further
  such requests (fewer than 2^63 in all), rotations among them. Without the condition on the paths it is lost by
  the rotation of another key, transit_rotate_overwrites.
\<close>

theorem api_transit_forever:
  assumes "badger_laws (env_db v) E" and "prims_laws (env_prims v)"
    and "\<And>k. secret_key k \<Longrightarrow> E (sv_db s0) k = None" and "api_run v fine_request m s0 s" and "api_run v fine_request n s s'"
    and "m + n < 2 ^ 63" and "utf8_ok name"
    and "transit_encrypt (env_db v) (env_prims v) (env_crypto v) (sv_db s) t rng name plaintext = Done (Inr ct)"
  shows "transit_decrypt (env_db v) (env_prims v) (env_crypto v) (sv_db s') t' name ct = Inr plaintext"
proof -
  note a = apiI[OF assms(1,2)] and va = vaultI[OF assms(1,2)]
  have i: "secrets_inv v m (sv_db s)" using api.reached[OF a assms(3,4)] assms(6) by simp
  then obtain x where x: "holds_transit v (sv_db s) name x" "ring_size x \<le> m"
    using assms(7) by (auto simp: secrets_inv_def transit_inv_def)
  then obtain ks where ks: "x = Some ks" using assms(8) by (cases x) (auto simp: transit_encrypt_def transit_rep_def)
  have "int64_ok (int (m + n))" using assms(6) by (simp add: int64_ok_def)
  then obtain y where "holds_transit v (sv_db s') name y" "ring_grows x y"
    using api.run_inv[OF a assms(5) i] x assms(7) unfolding all_grow_def by blast
  then obtain later where "holds_transit v (sv_db s') name (Some (ks @ later))" using ks by (auto simp: ring_grows_def)
  with vault.transit_decrypts[OF va x(1)[unfolded ks] assms(8)] show ?thesis by blast
qed

theorem api_transit_forever_witness:
  "\<exists>db s s' ct. api_run demo_env fine_request 1 (demo_server db) s \<and> api_run demo_env fine_request 1 s s'
    \<and> transit_encrypt mem_badger demo_prims demo_crypto (sv_db s) 9 demo_rng ''k'' ''m'' = Done (Inr ct)
    \<and> transit_decrypt mem_badger demo_prims demo_crypto (sv_db s') 99 ''k'' ct = Inr ''m''"
proof (rule demo_made)
  fix db s k
  assume e: "\<And>k. secret_key k \<Longrightarrow> map_of (sv_db (demo_server db)) k = None"
    and r: "api_run demo_env fine_request 1 (demo_server db) s" and h: "holds_transit demo_env (sv_db s) ''k'' (Some [(k, 2)])"
  obtain s' where r': "api_run demo_env fine_request 1 s s'" using demo_other_request by blast
  obtain ct where c: "transit_encrypt mem_badger demo_prims demo_crypto (sv_db s) 9 demo_rng ''k'' ''m'' = Done (Inr ct)"
    using demo_encrypts[OF h[simplified]] by blast
  have "transit_decrypt (env_db demo_env) (env_prims demo_env) (env_crypto demo_env) (sv_db s') 99 ''k'' ct = Inr ''m''"
    by (rule api_transit_forever[OF demo_env_laws e r r']) (use c in \<open>simp_all add: utf8_ok_all_ascii is_ascii_def\<close>)
  with r r' c show ?thesis by auto
qed

end
