(* ===== verification/Api_Kv_Spec.thy ===== *)
theory Api_Kv_Spec
  imports Api_Run_Props
begin

text \<open>
  The key-value service as an abstract machine over histories, and the simulation: a permitted request
  on the encrypted records does what the machine does on the history of the path.
\<close>

section \<open>The abstract machine\<close>

datatype kv_op = Read int | Write json | Rollback int | Remove

datatype kv_reply = Entry kv_entry | Removed | Refused nat

text \<open>The version that is asked for: 0 is the current one. A deleted secret has none.\<close>

definition asked :: "secret option \<Rightarrow> int \<Rightarrow> int option" where
  "asked x w = (case x of None \<Rightarrow> None | Some h \<Rightarrow>
     if removed h \<noteq> None then None
     else (let u = (if w = 0 then KV.count x else w) in if 1 \<le> u \<and> u \<le> KV.count x then Some u else None))"

definition stored_entry :: "string \<Rightarrow> time \<Rightarrow> secret option \<Rightarrow> kv_entry" where
  "stored_entry path t x = \<lparr>kv_path = path, kv_version = KV.count x + 1, kv_value = JNull, kv_created = t, kv_deleted = None\<rparr>"

text \<open>
  Reads are exact, but for the versions that fell out of the window, which may be gone. A change happens as a
  whole, or it is refused and nothing changed.
\<close>

inductive kv_spec :: "string \<Rightarrow> time \<Rightarrow> kv_op \<Rightarrow> secret option \<Rightarrow> secret option \<Rightarrow> kv_reply \<Rightarrow> bool" for path t where
  spec_read: "x = Some h \<Longrightarrow> asked x w = Some u \<Longrightarrow> kv_spec path t (Read w) x x (Entry (abs_entry path h u))"
| spec_unread: "asked x w = None \<Longrightarrow> kv_spec path t (Read w) x x (Refused 404)"
| spec_pruned: "asked x w = Some u \<Longrightarrow> u \<le> KV.count x - maxVersions \<Longrightarrow> kv_spec path t (Read w) x x (Refused 404)"
| spec_write: "kv_spec path t (Write v) x (Some (abs_set x v t)) (Entry (stored_entry path t x))"
| spec_write_failed: "kv_spec path t (Write v) x x (Refused 500)"
| spec_rollback: "kv_spec path t (Read i) x x (Entry e) \<Longrightarrow>
    kv_spec path t (Rollback i) x (Some (abs_set x (kv_value e) t)) (Entry (stored_entry path t x))"
| spec_rollback_failed: "kv_spec path t (Rollback i) x x (Refused 404)"
| spec_remove: "kv_spec path t Remove (Some h) (Some (h\<lparr>removed := Some t\<rparr>)) Removed"
| spec_remove_failed: "kv_spec path t Remove x x (Refused 404)"

section \<open>The engine\<close>

text \<open>The operations of the engine as the handlers use them.\<close>

fun kv_do :: "'s env \<Rightarrow> 's \<Rightarrow> time \<Rightarrow> rng \<Rightarrow> string \<Rightarrow> kv_op \<Rightarrow> 's \<times> kv_reply" where
  "kv_do v db t rng path (Read w) = (db, case kv_get (env_db v) (env_prims v) (env_crypto v) db t path w of
     Inl _ \<Rightarrow> Refused 404 | Inr e \<Rightarrow> Entry e)"
| "kv_do v db t rng path (Write val) = (case kv_set (env_db v) (env_prims v) (env_crypto v) db t rng path val of
     (db', Inl _) \<Rightarrow> (db', Refused 500) | (db', Inr e) \<Rightarrow> (db', Entry (e\<lparr>kv_value := JNull\<rparr>)))"
| "kv_do v db t rng path (Rollback i) = (case kv_rollback (env_db v) (env_prims v) (env_crypto v) db t rng path i of
     (db', Inl _) \<Rightarrow> (db', Refused 404) | (db', Inr e) \<Rightarrow> (db', Entry (e\<lparr>kv_value := JNull\<rparr>)))"
| "kv_do v db t rng path Remove = (case kv_delete (env_db v) (env_prims v) (env_crypto v) db t rng path of
     Inl _ \<Rightarrow> (db, Refused 404) | Inr db' \<Rightarrow> (db', Removed))"

fun op_ok :: "kv_op \<Rightarrow> bool" where
  "op_ok (Write val) \<longleftrightarrow> value_ok val"
| "op_ok _ \<longleftrightarrow> True"

context vault
begin

lemma read_spec:
  assumes "kv_rep B P c s path x"
  shows "case kv_get B P c s t path w of Inl _ \<Rightarrow> kv_spec path t' (Read w) x x (Refused 404)
    | Inr e \<Rightarrow> kv_spec path t' (Read w) x x (Entry e)"
proof (cases "asked x w")
  case None
  then have "\<exists>e. kv_get B P c s t path w = Inl e"
  proof (cases x)
    case None
    then show ?thesis using assms by (auto simp: kv_rep_def kv_get_def)
  next
    case (Some h)
    with \<open>asked x w = None\<close> kv_get_rep[OF assms[unfolded Some], of t w] show ?thesis
      by (auto simp: asked_def Let_def Suc_le_eq split: if_splits)
  qed
  then show ?thesis using spec_unread[OF None] by auto
next
  case (Some u)
  then obtain h where h: "x = Some h" "removed h = None" "1 \<le> u" "u \<le> int (length (history h))"
      "u = (if w = 0 then int (length (history h)) else w)"
    by (auto simp: asked_def Let_def split: option.splits if_splits)
  then have g: "kv_get B P c s t path w = get_version B P c s t path u"
    using kv_repD(1)[OF assms[unfolded h(1)], of t] by (auto simp: kv_get_def Let_def Suc_le_eq split: if_splits)
  from kv_repD(5)[OF assms[unfolded h(1)] h(3,4), of t] g spec_read[OF h(1) Some] spec_pruned[OF Some] h(1)
  show ?thesis by auto
qed

lemma set_spec:
  assumes "kv_rep B P c s path x" "int64_ok (KV.count x + 1)" "utf8_ok path" "value_ok val"
    "kv_set B P c s t rng path val = (s', y)"
  obtains (failed) e where "y = Inl e" "kv_rep B P c s' path x"
    | (stored) e where "y = Inr e" "kv_rep B P c s' path (Some (abs_set x val t))" "e\<lparr>kv_value := JNull\<rparr> = stored_entry path t x"
proof (cases y)
  case (Inl e)
  with kv_set_rep[OF assms] failed show thesis by simp
next
  case (Inr e)
  with kv_set_rep[OF assms] stored abs_entry_new[of path x val t] show thesis by (simp add: stored_entry_def)
qed

lemma set_others:
  assumes "kv_rep B P c s path x" "int64_ok (KV.count x + 1)" "kv_set B P c s t rng path val = (s', y)"
    "q \<noteq> path" "kv_rep B P c s q z"
  shows "kv_rep B P c s' q z"
  using kv_rep_same[OF assms(5)] set_from_other[OF _ assms(4)] assms(3) kv_set_from[OF assms(1,2)] by metis

end

context api
begin

text \<open>One operation of the engine is one step of the machine, and leaves the other paths.\<close>

lemma kv_do_spec:
  assumes "holds_kv v db path x" "int64_ok (KV.count x + 1)" "utf8_ok path" "op_ok op" "kv_do v db t rng path op = (db', ans)"
  shows "\<exists>y. kv_spec path t op x y ans \<and> holds_kv v db' path y
    \<and> (\<forall>q z. q \<noteq> path \<longrightarrow> holds_kv v db q z \<longrightarrow> holds_kv v db' q z)"
proof (cases op)
  case (Read w)
  then show ?thesis using assms(1,5) read_spec[OF assms(1), of t w t] by (auto split: sum.splits)
next
  case (Write val)
  obtain y where k: "kv_set (env_db v) (env_prims v) (env_crypto v) db t rng path val = (db', y)"
    using assms(5) Write by (auto split: prod.splits sum.splits)
  have "value_ok val" using assms(4) Write by simp
  from set_spec[OF assms(1-3) this k] set_others[OF assms(1,2) k] k assms(5) Write show ?thesis
    by cases (auto intro: spec_write spec_write_failed)
next
  case (Rollback i)
  show ?thesis
  proof (cases "kv_get (env_db v) (env_prims v) (env_crypto v) db t path i")
    case (Inl e)
    then show ?thesis using assms(1,5) Rollback by (auto simp: kv_rollback_def intro: spec_rollback_failed)
  next
    case (Inr e)
    have r: "kv_spec path t (Read i) x x (Entry e)" using read_spec[OF assms(1), of t i t] Inr by simp
    obtain y where k: "kv_set (env_db v) (env_prims v) (env_crypto v) db t rng path (kv_value e) = (db', y)"
      using assms(5) Rollback Inr by (auto simp: kv_rollback_def split: prod.splits sum.splits)
    from set_spec[OF assms(1-3) kv_get_value_ok[OF assms(1) Inr] k] set_others[OF assms(1,2) k] k assms(5) Rollback Inr
    show ?thesis by cases (auto simp: kv_rollback_def intro: spec_rollback[OF r] spec_rollback_failed)
  qed
next
  case Remove
  show ?thesis
  proof (cases "kv_delete (env_db v) (env_prims v) (env_crypto v) db t rng path")
    case (Inl e)
    then show ?thesis using assms(1,5) Remove by (auto intro: spec_remove_failed)
  next
    case (Inr db1)
    obtain h where "x = Some h" "holds_kv v db1 path (Some (h\<lparr>removed := Some t\<rparr>))"
      using kv_delete_rep(1)[OF assms(1,3) Inr] by blast
    moreover have "holds_kv v db1 q z" if "q \<noteq> path" "holds_kv v db q z" for q z
      using kv_rep_same[OF that(2)] kv_delete_other[OF assms(1) Inr that(1)] by blast
    ultimately show ?thesis using assms(5) Remove Inr by (auto intro: spec_remove)
  qed
qed

end

section \<open>The requests\<close>

text \<open>What a request on the key-value routes asks of the machine; listings and the list of versions are apart.\<close>

definition kv_request :: "request \<Rightarrow> (string \<times> kv_op) option" where
  "kv_request r = (let path = trim_prefix (req_path r) kv_prefix in
     if has_suffix (req_path r) ''/rollback'' \<and> req_method r = ''POST'' then
       (case decode_body dec_version r of None \<Rightarrow> None
        | Some i \<Rightarrow> if i < 1 then None else Some (trim_suffix path ''/rollback'', Rollback i))
     else if req_method r = ''GET'' then
       (if has_suffix path ''/'' \<or> has_suffix path ''/versions'' then None
        else (let param = query_get r ''version'' in
          map_option (\<lambda>w. (path, Read w)) (if param = [] then Some 0 else parse_int64 param)))
     else if req_method r = ''PUT'' then map_option (\<lambda>val. (path, Write val)) (json_decode (req_body r))
     else if req_method r = ''DELETE'' then Some (path, Remove)
     else None)"

fun kv_answers :: "'s env \<Rightarrow> string \<Rightarrow> kv_reply \<Rightarrow> response \<Rightarrow> bool" where
  "kv_answers v rid (Entry e) resp \<longleftrightarrow> resp = write_json rid 200 (enc_entry (env_prims v) e)"
| "kv_answers v rid Removed resp \<longleftrightarrow> resp = write_json rid 200 (Some (JObj [(''status'', JStr ''deleted'')]))"
| "kv_answers v rid (Refused st) resp \<longleftrightarrow> (\<exists>msg. resp = write_error_rid rid st msg)"

lemma handle_kv_does:
  assumes "kv_request r = Some (path, op)" "needs_kv r = Some (obj, cap)" "allowed_here c s obj cap"
    "kv_do v (sv_db s) (out_clock out 2) (rng_from 1 (out_rng out)) path op = (db', ans)"
  shows "\<exists>resp. handle_kv v out r c s = (s\<lparr>sv_db := db'\<rparr>, Done resp) \<and> kv_answers v (ctx_request_id c) ans resp"
proof -
  note defs = needs_kv_def kv_object_def Let_def handle_kv_def answer_defs get_request_id_def
  consider "has_suffix (req_path r) ''/rollback'' \<and> req_method r = ''POST''"
    | "\<not> (has_suffix (req_path r) ''/rollback'' \<and> req_method r = ''POST'')" "req_method r \<in> {''GET'', ''PUT'', ''DELETE''}"
    using assms(1) by (auto simp: kv_request_def Let_def split: if_splits)
  then show ?thesis
  proof cases
    case 1
    obtain i where i: "decode_body dec_version r = Some i" "\<not> i < 1" "op = Rollback i"
        "path = trim_suffix (trim_prefix (req_path r) kv_prefix) ''/rollback''"
      using assms(1) 1 by (auto simp: kv_request_def Let_def split: option.splits if_splits)
    obtain z y where "kv_rollback (env_db v) (env_prims v) (env_crypto v) (sv_db s) (out_clock out 2) (rng_from 1 (out_rng out)) path i = (z, y)"
      by (metis prod.exhaust)
    then show ?thesis using 1 i assms(2-4) by (cases y) (auto simp: defs handle_kv_rollback_def)
  next
    case 2
    let ?p = "trim_prefix (req_path r) kv_prefix"
    have p: "path = ?p" using 2 assms(1) by (auto simp: kv_request_def Let_def split: if_splits)
    consider (get) w where "req_method r = ''GET''" "op = Read w" "\<not> has_suffix ?p ''/''" "\<not> has_suffix ?p ''/versions''"
        "(if query_get r ''version'' = [] then Some 0 else parse_int64 (query_get r ''version'')) = Some w"
      | (put) val where "req_method r = ''PUT''" "op = Write val" "json_decode (req_body r) = Some val"
      | (delete) "req_method r = ''DELETE''" "op = Remove"
      using 2 assms(1) by (auto simp: kv_request_def Let_def split: if_splits)
    then show ?thesis
    proof cases
      case get
      have w: "allowed_here c s (''secrets/kv/'' @ ?p) CapRead"
        using 2 get assms(2,3) by (simp add: needs_kv_def kv_object_def Let_def)
      show ?thesis using 2 get assms(4) p w
        by (cases "kv_get (env_db v) (env_prims v) (env_crypto v) (sv_db s) (out_clock out 2) ?p w")
          (auto simp: handle_kv_def handle_kv_get_def Let_def answer_defs get_request_id_def split del: if_split)
    next
      case put
      have w: "allowed_here c s (''secrets/kv/'' @ ?p) CapWrite"
        using 2 put assms(2,3) by (simp add: needs_kv_def kv_object_def Let_def)
      obtain z y where "kv_set (env_db v) (env_prims v) (env_crypto v) (sv_db s) (out_clock out 2) (rng_from 1 (out_rng out)) ?p val = (z, y)"
        by (metis prod.exhaust)
      then show ?thesis using 2 put assms(4) p w
        by (cases y) (auto simp: handle_kv_def handle_kv_put_def Let_def answer_defs get_request_id_def)
    next
      case delete
      have w: "allowed_here c s (''secrets/kv/'' @ ?p) CapDelete"
        using 2 delete assms(2,3) by (simp add: needs_kv_def kv_object_def Let_def)
      show ?thesis using 2 delete assms(4) p w
        by (cases "kv_delete (env_db v) (env_prims v) (env_crypto v) (sv_db s) (out_clock out 2) (rng_from 1 (out_rng out)) ?p")
          (auto simp: handle_kv_def handle_kv_delete_def Let_def answer_defs get_request_id_def)
    qed
  qed
qed

lemma request_fine:
  assumes "kv_request r = Some (path, op)" "fine_request r"
  shows "utf8_ok path" and "op_ok op"
  using assms fine_paths[OF assms(2)] fine_body[OF assms(2)]
  by (auto simp: kv_request_def Let_def split: if_splits option.splits)

context api
begin

lemma serve_kv_does:
  assumes "mux_route public_routes r = MuxHandler PProtected" "mux_route authed_routes r = MuxHandler RKV"
    "authenticate v out r s = (s1, Inr a)" "kv_request r = Some (path, op)" "needs_kv r = Some (obj, cap)"
    "policy_allowed (sv_engine s) (as_policy a) obj cap"
    "kv_do v (sv_db s1) (out_clock out 2) (rng_from 1 (out_rng out)) path op = (db', ans)"
  obtains s' rid x where "serve v out r s = (s', rid, Done x)" "kv_answers v rid ans x" "\<And>k. secret_key k \<Longrightarrow> E (sv_db s') k = E db' k"
proof -
  have "allowed_here (authed_ctx out a) s1 obj cap"
    using assms(6) authenticate_step(2)[OF assms(3)] by (simp add: allowed_here_def)
  from handle_kv_does[OF assms(4,5) this assms(7)] obtain x where
    h: "route_handler RKV v out r (authed_ctx out a) s1 = (s1\<lparr>sv_db := db'\<rparr>, Done x)"
      "kv_answers v (ctx_request_id (first_ctx out)) ans x" by auto
  from that[OF serve_answered[OF assms(1,3,2) h(1)] h(2)] zones_disjoint(1) show thesis
    by (simp add: log_entry_keeps)
qed

end

section \<open>Properties\<close>

text \<open>
  C4: The key-value routes implement the abstract machine: in every state that the server reaches from one without
  secrets, a request that the policy of its authenticated caller permits takes one step of the machine on the history that
  the path holds, is answered as the machine answers, and leaves what the other paths hold.
\<close>

theorem kv_routes_refine:
  assumes "badger_laws (env_db v) E" and "prims_laws (env_prims v)"
    and "\<And>k. secret_key k \<Longrightarrow> E (sv_db s0) k = None" and "api_run v fine_request n s0 s" and "Suc n < 2 ^ 63"
    and "fine_request r" and "mux_route public_routes r = MuxHandler PProtected" and "mux_route authed_routes r = MuxHandler RKV"
    and "authenticate v out r s = (s1, Inr a)" and "kv_request r = Some (path, op)"
    and "needs_kv r = Some (obj, cap)" and "policy_allowed (sv_engine s) (as_policy a) obj cap"
  shows "\<exists>x y ans s' rid resp. serve v out r s = (s', rid, Done resp) \<and> kv_answers v rid ans resp
    \<and> holds_kv v (sv_db s) path x \<and> kv_spec path (out_clock out 2) op x y ans \<and> holds_kv v (sv_db s') path y
    \<and> (\<forall>q z. q \<noteq> path \<longrightarrow> holds_kv v (sv_db s) q z \<longrightarrow> holds_kv v (sv_db s') q z)"
proof -
  note a = apiI[OF assms(1,2)] and va = vaultI[OF assms(1,2)]
  note f = request_fine[OF assms(10,6)]
  have "secrets_inv v n (sv_db s)" using api.reached[OF a assms(3,4)] assms(5) by simp
  then obtain x where x: "holds_kv v (sv_db s) path x" "KV.count x \<le> int n"
    using f(1) by (auto simp: secrets_inv_def kv_inv_def)
  have same: "E (sv_db s1) k = E (sv_db s) k" if "kv_record k" for k
    using api.secrets_kept(1)[OF a assms(9)] kv_record_secret[OF that] by simp
  have n: "int64_ok (KV.count x + 1)" using x(2) assms(5) by (simp add: int64_ok_def)
  obtain db' ans where d: "kv_do v (sv_db s1) (out_clock out 2) (rng_from 1 (out_rng out)) path op = (db', ans)" by fastforce
  obtain y where y: "kv_spec path (out_clock out 2) op x y ans" "holds_kv v db' path y"
      "\<And>q z. q \<noteq> path \<Longrightarrow> holds_kv v (sv_db s1) q z \<Longrightarrow> holds_kv v db' q z"
    using api.kv_do_spec[OF a vault.kv_rep_agree[OF va x(1) same] n f d] by blast
  obtain s' rid resp where s': "serve v out r s = (s', rid, Done resp)" "kv_answers v rid ans resp"
      "\<And>k. kv_record k \<Longrightarrow> E (sv_db s') k = E db' k"
    by (rule api.serve_kv_does[OF a assms(7-12) d]) (use kv_record_secret in blast)
  have "holds_kv v (sv_db s') q z" if "q \<noteq> path" "holds_kv v (sv_db s) q z" for q z
    using vault.kv_rep_agree[OF va y(3)[OF that(1) vault.kv_rep_agree[OF va that(2) same]] s'(3)] .
  with s' x(1) y(1) vault.kv_rep_agree[OF va y(2) s'(3)] show ?thesis by blast
qed

theorem kv_routes_refine_witness:
  "\<exists>db token s' rid resp x y ans. serve demo_env (demo_out 0) (demo_put token) (demo_server db) = (s', rid, Done resp)
    \<and> kv_answers demo_env rid ans resp \<and> holds_kv demo_env (sv_db (demo_server db)) ''a'' x
    \<and> kv_spec ''a'' 2 (Write (JStr ''x'')) x y ans \<and> holds_kv demo_env (sv_db s') ''a'' y"
proof -
  have u: "utf8_ok ''ada''" "utf8_ok ''user''" "utf8_ok ''admin''" using demo_identity_ok demo_admin_names by auto
  obtain db token m where d: "has_prefix token ''lvt_''" "token \<noteq> []" "\<And>k. \<not> token_key k \<Longrightarrow> map_of db k = None"
    "session_validate mem_badger demo_prims db (0 + 1) token = (db, Inr m)" "sess_policy m = ''admin''"
    by (rule demo_session_at[OF u, of 1]) (auto simp: minute_def second_def)
  have e: "map_of (sv_db (demo_server db)) k = None" if "secret_key k" for k
    using d(3) that zones_disjoint(1) by (metis demo_server_simps(1))
  have a: "authenticate demo_env (demo_out 0) (demo_put token) (demo_server db) = (demo_server db, Inr
      \<lparr>as_identity = sess_identity m, as_method = sess_method m, as_policy = sess_policy m\<rparr>)"
    unfolding demo_put_def by (rule demo_authenticated[OF d(4,1,2)])
  have p: "policy_allowed (new_engine ''policies'') ''admin'' ''secrets/kv/a'' CapWrite" by code_simp
  have k: "kv_request (demo_put token) = Some (''a'', Write (JStr ''x''))" "needs_kv (demo_put token) = Some (''secrets/kv/a'', CapWrite)"
    using demo_put_path by (simp_all add: kv_request_def needs_kv_def kv_object_def demo_put_def Let_def)
  have "\<exists>x y ans s' rid resp. serve demo_env (demo_out 0) (demo_put token) (demo_server db) = (s', rid, Done resp)
    \<and> kv_answers demo_env rid ans resp \<and> holds_kv demo_env (sv_db (demo_server db)) ''a'' x
    \<and> kv_spec ''a'' (out_clock (demo_out 0) 2) (Write (JStr ''x'')) x y ans \<and> holds_kv demo_env (sv_db s') ''a'' y
    \<and> (\<forall>q z. q \<noteq> ''a'' \<longrightarrow> holds_kv demo_env (sv_db (demo_server db)) q z \<longrightarrow> holds_kv demo_env (sv_db s') q z)"
    by (rule kv_routes_refine[OF demo_env_laws e run_start _ demo_put_fine demo_put_routes a k]) (use p d(5) in simp_all)
  moreover have "out_clock (demo_out 0) 2 = 2" by simp
  ultimately show ?thesis by metis
qed

end
