(* ===== verification/Api_Answers.thy ===== *)
theory Api_Answers
  imports Api_Run_Props
begin

text \<open>
  The answers of the server: of what form they are, and that there is one to every request.
\<close>

section \<open>The form of an answer\<close>

definition error_codes :: "nat set" where
  "error_codes = {400, 401, 403, 404, 405, 409, 500}"

text \<open>
  What the handlers answer for a request id: data with 200, an error with one of a few codes, with the request id
  or without; and what the muxes answer themselves.
\<close>

definition answer_of :: "string \<Rightarrow> response \<Rightarrow> bool" where
  "answer_of rid x \<longleftrightarrow> (\<exists>data. x = write_json rid 200 data)
     \<or> (\<exists>st m. st \<in> error_codes \<and> (x = write_error st m \<or> x = write_error_rid rid st m))"

definition mux_answer :: "response \<Rightarrow> bool" where
  "mux_answer x \<longleftrightarrow> x = plain_response 301 [] \<or> x = plain_response 400 [] \<or> x = not_found_response"

definition typed :: "string \<Rightarrow> response outcome \<Rightarrow> bool" where
  "typed rid resp \<longleftrightarrow> (case resp of Panic _ \<Rightarrow> True | Done x \<Rightarrow> answer_of rid x)"

lemma typed_answers [simp]:
  "typed (ctx_request_id c) (permission_denied c)" "st \<in> error_codes \<Longrightarrow> typed rid (refuse st m)"
  "st \<in> error_codes \<Longrightarrow> typed (ctx_request_id c) (refuse_rid c st m)"
  "st \<in> error_codes \<Longrightarrow> typed (ctx_request_id c) (fail_with v c st e)"
  "typed (ctx_request_id c) (ok_json c j)" "typed (ctx_request_id c) (ok_strings c kvs)"
  "typed (ctx_request_id c) (Done (write_json (get_request_id c) 200 d))" "typed rid (Panic m)"
  "st \<in> error_codes \<Longrightarrow> typed rid (Done (write_error st m))"
  by (auto simp: answer_defs typed_def answer_of_def error_codes_def get_request_id_def)

lemma codes [simp]: "400 \<in> error_codes" "401 \<in> error_codes" "403 \<in> error_codes" "404 \<in> error_codes" "405 \<in> error_codes"
  "409 \<in> error_codes" "500 \<in> error_codes"
  by (simp_all add: error_codes_def)

lemma kv_typed: "typed (ctx_request_id c) (snd (handle_kv v out r c s))"
proof -
  have "typed (ctx_request_id c) (snd (handle_kv_get v out r c s))"
    by (auto simp: handle_kv_get_def Let_def split: sum.splits option.splits)
  moreover have "typed (ctx_request_id c) (snd (handle_kv_put v out r c s))"
    by (auto simp: handle_kv_put_def Let_def split: option.splits sum.splits prod.splits)
  moreover have "typed (ctx_request_id c) (snd (handle_kv_rollback v out r c s))"
    by (auto simp: handle_kv_rollback_def Let_def split: option.splits sum.splits prod.splits)
  moreover have "typed (ctx_request_id c) (snd (handle_kv_delete v out r c s))"
    by (auto simp: handle_kv_delete_def Let_def split: sum.splits)
  ultimately show ?thesis by (simp add: handle_kv_def)
qed

lemma transit_typed: "typed (ctx_request_id c) (snd (handle_transit v out r c s))"
  by (cases rule: transit_cases[of v out r c s])
    (simp_all add: with_admin_def handle_transit_create_def handle_transit_encrypt_def handle_transit_decrypt_def
      handle_transit_rotate_def handle_transit_info_def Let_def split: option.splits sum.splits outcome.splits)

lemma route_typed: "typed (ctx_request_id c) (snd (route_handler rt v out r c s))"
  using kv_typed transit_typed
  by (cases rt) (simp_all add: handle_logout_def handle_whoami_def with_admin_def handle_status_def handle_enroll_def
    handle_revoke_def handle_audit_def handle_admin_create_def handle_admin_delete_def handle_policy_reload_def
    handle_users_def handle_user_def handle_user_create_def handle_user_list_def handle_user_delete_def
    handle_user_update_def Let_def split: option.splits sum.splits prod.splits)

lemma login_typed: "p \<noteq> PProtected \<Longrightarrow> typed (ctx_request_id c) (snd (public_handler p v out r c s))"
  by (cases p) (simp_all add: handle_health_def handle_challenge_def handle_verify_def handle_totp_login_def
    handle_admin_login_def handle_user_login_def issue_session_def login_answer_def
    split: option.splits sum.splits prod.splits outcome.splits)

section \<open>An answer to every request\<close>

context api
begin

lemma encrypt_answers:
  assumes "secrets_inv v n db" "utf8_ok name"
  shows "transit_encrypt (env_db v) (env_prims v) (env_crypto v) db t rng name plaintext \<noteq> Panic m"
proof -
  obtain x where x: "holds_transit v db name x" using assms by (auto simp: secrets_inv_def transit_inv_def)
  show ?thesis
  proof (cases x)
    case None
    then show ?thesis using x by (simp add: transit_encrypt_def transit_rep_def)
  next
    case (Some ks)
    then show ?thesis using transit_encrypt_result[OF x[unfolded Some]] by simp
  qed
qed

lemma answers [simp]:
  "\<exists>x. permission_denied c = Done x" "\<exists>x. refuse st m = Done x" "\<exists>x. refuse_rid c st m = Done x"
  "\<exists>x. fail_with v c st e = Done x" "\<exists>x. ok_json c j = Done x" "\<exists>x. ok_strings c kvs = Done x"
  by (simp_all add: answer_defs)

lemma kv_done: "\<exists>x. snd (handle_kv v out r c s) = Done x"
proof -
  have "\<exists>x. snd (handle_kv_get v out r c s) = Done x"
    by (auto simp: handle_kv_get_def Let_def split: sum.splits option.splits)
  moreover have "\<exists>x. snd (handle_kv_put v out r c s) = Done x"
    by (auto simp: handle_kv_put_def Let_def split: option.splits sum.splits prod.splits)
  moreover have "\<exists>x. snd (handle_kv_rollback v out r c s) = Done x"
    by (auto simp: handle_kv_rollback_def Let_def split: option.splits sum.splits prod.splits)
  moreover have "\<exists>x. snd (handle_kv_delete v out r c s) = Done x"
    by (auto simp: handle_kv_delete_def Let_def split: sum.splits)
  ultimately show ?thesis by (simp add: handle_kv_def)
qed

lemma transit_done:
  assumes "secrets_inv v n (sv_db s)" "fine_request r"
  shows "\<exists>x. snd (handle_transit v out r c s) = Done x"
proof (cases rule: transit_cases[of v out r c s])
  case encrypts
  have "utf8_ok (transit_key_name (req_path r) ''/encrypt'')"
    by (rule fine_paths(3)[OF assms(2)]) (simp add: is_ascii_def)
  from encrypt_answers[OF assms(1) this] encrypts(1) show ?thesis
    by (auto simp: handle_transit_encrypt_def Let_def split: option.splits sum.splits outcome.splits)
next
  case neither
  then show ?thesis by (simp add:)
qed (simp_all add: with_admin_def handle_transit_create_def handle_transit_decrypt_def handle_transit_rotate_def
    handle_transit_info_def Let_def split: option.splits sum.splits outcome.splits)

lemma route_done:
  assumes "secrets_inv v n (sv_db s)" "fine_request r" "env_audit v \<or> rt \<noteq> RAudit"
  shows "\<exists>x. snd (route_handler rt v out r c s) = Done x"
  using kv_done transit_done[OF assms(1,2)] assms(3)
  by (cases rt) (simp_all add: handle_logout_def handle_whoami_def with_admin_def handle_status_def handle_enroll_def
    handle_revoke_def handle_audit_def handle_admin_create_def handle_admin_delete_def handle_policy_reload_def
    handle_users_def handle_user_def handle_user_create_def handle_user_list_def handle_user_delete_def
    handle_user_update_def Let_def split: option.splits sum.splits prod.splits)

text \<open>Only the check of a signature may panic: ed25519.Verify on a stored key that has not 32 bytes.\<close>

lemma verify_panic:
  assumes "service_verify B P db t ch challenge sig = (ch', Panic m)"
  shows "\<exists>name svc. get_service B db t name = Inr svc \<and> length (svc_public_key svc) \<noteq> 32"
  using assms by (auto simp: service_verify_def Let_def split: option.splits if_splits sum.splits)

lemma login_done:
  assumes "public_handler p v out r c s = (s', Panic m)" "p \<noteq> PProtected"
  shows "p = PVerify \<and> (\<exists>name svc. get_service (env_db v) (sv_db s) (out_clock out 2) name = Inr svc
    \<and> length (svc_public_key svc) \<noteq> 32)"
proof (cases "p = PVerify")
  case True
  then show ?thesis using assms(1)
    by (auto simp: handle_verify_def issue_session_def login_answer_def answer_defs dest!: verify_panic
      split: option.splits sum.splits prod.splits outcome.splits)
next
  case False
  then show ?thesis using assms
    by (cases p) (auto simp: handle_health_def handle_challenge_def handle_totp_login_def
      handle_admin_login_def handle_user_login_def issue_session_def login_answer_def answer_defs
      split: option.splits sum.splits prod.splits if_splits)
qed

lemma serve_answers:
  assumes "secrets_inv v n (sv_db s)" "fine_request r" "serve v out r s = (s', rid, Panic m)"
  shows "mux_route public_routes r = MuxHandler PVerify
    \<and> (\<exists>name svc. get_service (env_db v) (sv_db s) (out_clock out 2) name = Inr svc \<and> length (svc_public_key svc) \<noteq> 32)
    \<or> \<not> env_audit v \<and> mux_route public_routes r = MuxHandler PProtected \<and> mux_route authed_routes r = MuxHandler RAudit"
proof -
  obtain p where p: "mux_route public_routes r = MuxHandler p" "public_handler p v out r (first_ctx out) s = (s', Panic m)"
    using assms(3) by (auto simp: serve_eq mux_serve_def split: mux_result.splits prod.splits)
  show ?thesis
  proof (cases "p = PProtected")
    case True
    with p(2) have "protected_handler v out r (first_ctx out) s = (s', Panic m)" by simp
    then show ?thesis
    proof (cases rule: protected_cases)
      case (panicked s1 a m')
      have "secrets_inv v n (sv_db s1)"
        using same_inv[OF assms(1)] authenticate_step(1)[OF panicked(1)] zones_disjoint(1)
        by (simp add: moves_def confined_def)
      note ok = route_done[OF this assms(2)]
      obtain rt where rt: "mux_route authed_routes r = MuxHandler rt"
          "route_handler rt v out r (authed_ctx out a) s1 = (s', Panic m')"
        using panicked(2) by (auto simp: mux_serve_def split: mux_result.splits)
      then have "\<not> (env_audit v \<or> rt \<noteq> RAudit)" using ok[of rt out "authed_ctx out a"] by fastforce
      with rt(1) p(1) True show ?thesis by simp
    qed auto
  next
    case False
    with login_done[OF p(2)] p(1) show ?thesis by simp
  qed
qed

end

section \<open>Properties\<close>

text \<open>
  C17: Every answer of the server has one of three forms, whatever the request and the state: data with
  status 200 and the request's id; an error with a status of 400, 401, 403, 404, 405, 409 or 500; or the muxes' own
  redirect, bad request or not found, which carry no envelope.
\<close>

theorem answers_typed:
  "case serve v out r s of (s', rid, resp) \<Rightarrow>
     (case resp of Panic m \<Rightarrow> True | Done x \<Rightarrow> answer_of rid x \<or> mux_answer x)"
proof -
  obtain s' rid resp where s: "serve v out r s = (s', rid, resp)" by (metis prod.exhaust)
  have "answer_of rid x \<or> mux_answer x" if "resp = Done x" for x
  proof (cases "mux_route public_routes r = MuxHandler PProtected")
    case False
    have "typed rid (snd (public_handler p v out r (first_ctx out) s))" if "mux_route public_routes r = MuxHandler p" for p
      using login_typed[of p "first_ctx out"] False that s by (auto simp: serve_eq split: prod.splits)
    with \<open>resp = Done x\<close> s show ?thesis
      by (auto simp: serve_eq mux_serve_def mux_answer_def typed_def split: mux_result.splits prod.splits)
  next
    case True
    then have "protected_handler v out r (first_ctx out) s = (s', Done x)" and rid: "rid = ctx_request_id (first_ctx out)"
      using s \<open>resp = Done x\<close> by (auto simp: serve_eq mux_serve_def split: prod.splits)
    then show ?thesis
    proof (cases rule: protected_cases)
      case (refused s1 a msg)
      have "(401::nat) \<in> error_codes" by simp
      with refused(2) show ?thesis unfolding answer_of_def by blast
    next
      case (answered s1 s2 a y)
      have "typed rid (snd (route_handler rt v out r (authed_ctx out a) s1))" for rt
        using route_typed[of "authed_ctx out a"] rid by simp
      with answered(2,3) show ?thesis
        by (auto simp: mux_serve_def mux_answer_def typed_def split: mux_result.splits) (metis outcome.simps(5) snd_conv)+
    qed auto
  qed
  with s show ?thesis by (auto split: outcome.splits)
qed

text \<open>
  C16: Every request is answered, no handler panics, with two exceptions: the check of a signature for a service whose stored
  key has not 32 bytes, and the audit query on a server without an audit logger, which there is none of in development mode.
  This holds of every request with a UTF-8 path and a body nested less than ten thousand levels deep, in every state
  that the server reached by fewer than 2^63 such requests from one without secrets.
\<close>

theorem requests_answered:
  assumes "badger_laws (env_db v) E" and "prims_laws (env_prims v)"
    and "\<And>k. secret_key k \<Longrightarrow> E (sv_db s0) k = None" and "api_run v fine_request n s0 s" and "n < 2 ^ 63"
    and "fine_request r" and "serve v out r s = (s', rid, resp)"
  shows "(\<exists>x. resp = Done x)
    \<or> mux_route public_routes r = MuxHandler PVerify
      \<and> (\<exists>name svc. get_service (env_db v) (sv_db s) (out_clock out 2) name = Inr svc \<and> length (svc_public_key svc) \<noteq> 32)
    \<or> \<not> env_audit v \<and> mux_route public_routes r = MuxHandler PProtected \<and> mux_route authed_routes r = MuxHandler RAudit"
proof (cases resp)
  case (Panic m)
  note a = apiI[OF assms(1,2)]
  from api.serve_answers[OF a api.reached[OF a assms(3-5)] assms(6)] assms(7) Panic show ?thesis by blast
qed simp

theorem requests_answered_witness:
  "\<exists>db s s' rid x. api_run demo_env fine_request 1 (demo_server db) s
    \<and> serve demo_env (demo_out 5) (demo_make_key ''t'') s = (s', rid, Done x)"
proof (rule demo_stored)
  fix db s
  assume e: "\<And>k. secret_key k \<Longrightarrow> map_of (sv_db (demo_server db)) k = None" and r: "api_run demo_env fine_request 1 (demo_server db) s"
  obtain s' rid resp where s: "serve demo_env (demo_out 5) (demo_make_key ''t'') s = (s', rid, resp)" by (metis prod.exhaust)
  have "\<exists>x. resp = Done x"
    using requests_answered[OF demo_env_laws e r _ demo_make_key_fine s] demo_make_key_routes[of "''t''"] by simp
  with r s show ?thesis by blast
qed

end
