(* ===== verification/Api_Transit_Spec.thy ===== *)
theory Api_Transit_Spec
  imports Api_Kv_Spec Api_Answers
begin

text \<open>
  The transit service as an abstract machine over key rings, and the simulation by its routes.
\<close>

section \<open>The abstract machine\<close>

datatype transit_op = Make | Encrypt bytes | Decrypt string | Rotate | Info

datatype transit_reply = Made | Ciphertext string | Plaintext bytes | Rotated | Described transit_meta | Declined nat

text \<open>What a text decrypts to under a ring: its number names the version, the rest is nonce and sealed bytes.\<close>

definition ring_decrypt :: "prims \<Rightarrow> key_ring \<Rightarrow> string \<Rightarrow> bytes option" where
  "ring_decrypt P ks ct = (case parse_vault ct of Inl _ \<Rightarrow> None | Inr (n, encoded) \<Rightarrow>
     if 1 \<le> n \<and> n \<le> int (length ks) then
       (case b64_decode encoded of None \<Rightarrow> None
        | Some data \<Rightarrow> (case aesgcm_decrypt_bytes P (fst (ks ! nat (n - 1))) data of Inl _ \<Rightarrow> None | Inr pt \<Rightarrow> Some pt))
     else None)"

definition ring_encrypts :: "prims \<Rightarrow> key_ring \<Rightarrow> bytes \<Rightarrow> string \<Rightarrow> bool" where
  "ring_encrypts P ks pt ct \<longleftrightarrow> (\<exists>rng data. aesgcm_encrypt_bytes P rng 0 (fst (last ks)) pt = Inr data
     \<and> ct = format_vault (int (length ks)) (std_encode data))"

lemma ring_encryptsI: "aesgcm_encrypt_bytes P rng 0 (fst (last ks)) pt = Inr data \<Longrightarrow>
    ring_encrypts P ks pt (format_vault (int (length ks)) (std_encode data))"
  unfolding ring_encrypts_def by blast

definition ring_info :: "string \<Rightarrow> key_ring \<Rightarrow> transit_meta" where
  "ring_info name ks = (ring_meta name ks)\<lparr>tm_versions := map (\<lambda>v. v\<lparr>tv_key := []\<rparr>) (ring_from 1 ks)\<rparr>"

text \<open>Decryption and the description of a key are exact. The others happen as a whole or not at all.\<close>

inductive transit_spec ::
  "prims \<Rightarrow> string \<Rightarrow> time \<Rightarrow> transit_op \<Rightarrow> key_ring option \<Rightarrow> key_ring option \<Rightarrow> transit_reply \<Rightarrow> bool" for P name t where
  spec_make: "transit_spec P name t Make None (Some [(k, t)]) Made"
| spec_make_refused: "transit_spec P name t Make x x (Declined 409)"
| spec_encrypt: "ring_encrypts P ks pt ct \<Longrightarrow> transit_spec P name t (Encrypt pt) (Some ks) (Some ks) (Ciphertext ct)"
| spec_encrypt_refused: "transit_spec P name t (Encrypt pt) x x (Declined 500)"
| spec_decrypt: "ring_decrypt P ks ct = Some pt \<Longrightarrow> transit_spec P name t (Decrypt ct) (Some ks) (Some ks) (Plaintext pt)"
| spec_decrypt_refused: "(\<And>ks. x = Some ks \<Longrightarrow> ring_decrypt P ks ct = None) \<Longrightarrow>
    transit_spec P name t (Decrypt ct) x x (Declined 400)"
| spec_rotate: "transit_spec P name t Rotate (Some ks) (Some (ks @ [(k, t)])) Rotated"
| spec_rotate_refused: "transit_spec P name t Rotate x x (Declined 500)"
| spec_info: "transit_spec P name t Info (Some ks) (Some ks) (Described (ring_info name ks))"
| spec_info_refused: "transit_spec P name t Info None None (Declined 404)"

section \<open>The engine\<close>

fun transit_do :: "'s env \<Rightarrow> 's \<Rightarrow> time \<Rightarrow> rng \<Rightarrow> string \<Rightarrow> transit_op \<Rightarrow> 's \<times> transit_reply" where
  "transit_do v db t rng name Make = (case transit_create (env_db v) (env_prims v) (env_crypto v) db t rng name of
     Inl _ \<Rightarrow> (db, Declined 409) | Inr db' \<Rightarrow> (db', Made))"
| "transit_do v db t rng name (Encrypt pt) = (db, case transit_encrypt (env_db v) (env_prims v) (env_crypto v) db t rng name pt of
     Done (Inr ct) \<Rightarrow> Ciphertext ct | _ \<Rightarrow> Declined 500)"
| "transit_do v db t rng name (Decrypt ct) = (db, case transit_decrypt (env_db v) (env_prims v) (env_crypto v) db t name ct of
     Inl _ \<Rightarrow> Declined 400 | Inr pt \<Rightarrow> Plaintext pt)"
| "transit_do v db t rng name Rotate = (case transit_rotate (env_db v) (env_prims v) (env_crypto v) db t rng name of
     Inl _ \<Rightarrow> (db, Declined 500) | Inr db' \<Rightarrow> (db', Rotated))"
| "transit_do v db t rng name Info = (db, case transit_info (env_db v) (env_prims v) (env_crypto v) db t name of
     Inl _ \<Rightarrow> Declined 404 | Inr m \<Rightarrow> Described m)"

context vault
begin

lemma ring_decrypts:
  assumes "transit_rep B P c s name (Some ks)"
  shows "(case transit_decrypt B P c s t name ct of Inl _ \<Rightarrow> None | Inr pt \<Rightarrow> Some pt) = ring_decrypt P ks ct"
  using transit_repD(1)[OF assms, of t]
  by (auto simp: transit_decrypt_def ring_decrypt_def ring_meta_def key_version_ring split: sum.splits prod.splits option.splits)

lemma ring_informs:
  "transit_rep B P c s name (Some ks) \<Longrightarrow> transit_info B P c s t name = Inr (ring_info name ks)"
  using transit_repD(1)[of s name ks t] by (simp add: transit_info_def ring_info_def ring_meta_def)

end

context api
begin

lemma make_spec:
  assumes "holds_transit v db name x" "int64_ok (int (ring_size x) + 1)" "utf8_ok name" "transit_do v db t rng name Make = (db', ans)"
  shows "\<exists>y. transit_spec (env_prims v) name t Make x y ans \<and> holds_transit v db' name y
    \<and> (\<forall>q z. q \<noteq> name \<longrightarrow> holds_transit v db q z \<longrightarrow> holds_transit v db' q z)"
proof (cases "transit_create (env_db v) (env_prims v) (env_crypto v) db t rng name")
  case (Inl e)
  then show ?thesis using assms(1,4) by (auto intro: spec_make_refused)
next
  case (Inr db1)
  have "x = None" using assms(1) Inr by (cases x) (auto simp: transit_create_def transit_rep_def)
  moreover have "holds_transit v db1 q z" if "q \<noteq> name" "holds_transit v db q z" for q z
    using transit_rep_same[OF that(2)] transit_rep_other[OF disjI1[OF Inr] that(1)] by blast
  ultimately show ?thesis using transit_create_rep[OF Inr assms(3)] assms(4) Inr by (auto intro: spec_make)
qed

lemma rotate_spec:
  assumes "holds_transit v db name x" "int64_ok (int (ring_size x) + 1)" "utf8_ok name" "transit_do v db t rng name Rotate = (db', ans)"
  shows "\<exists>y. transit_spec (env_prims v) name t Rotate x y ans \<and> holds_transit v db' name y
    \<and> (\<forall>q z. q \<noteq> name \<longrightarrow> holds_transit v db q z \<longrightarrow> holds_transit v db' q z)"
proof (cases "transit_rotate (env_db v) (env_prims v) (env_crypto v) db t rng name")
  case (Inl e)
  then show ?thesis using assms(1,4) by (auto intro: spec_rotate_refused)
next
  case (Inr db1)
  then obtain ks where ks: "x = Some ks" using assms(1) by (cases x) (auto simp: transit_rotate_def transit_rep_def)
  have "int64_ok (int (length ks) + 1)" using assms(2) ks by (simp add: ring_size_def)
  from transit_rotate_rep[OF assms(1)[unfolded ks] Inr assms(3) this] obtain k where
    "holds_transit v db1 name (Some (ks @ [(k, t)]))" by blast
  moreover have "holds_transit v db1 q z" if "q \<noteq> name" "holds_transit v db q z" for q z
    using transit_rep_same[OF that(2)] transit_rep_other[OF disjI2 that(1)] Inr assms(1) ks by blast
  ultimately show ?thesis using assms(4) Inr ks by (auto intro: spec_rotate)
qed

lemma transit_do_spec:
  assumes "holds_transit v db name x" "int64_ok (int (ring_size x) + 1)" "utf8_ok name" "transit_do v db t rng name op = (db', ans)"
  shows "\<exists>y. transit_spec (env_prims v) name t op x y ans \<and> holds_transit v db' name y
    \<and> (\<forall>q z. q \<noteq> name \<longrightarrow> holds_transit v db q z \<longrightarrow> holds_transit v db' q z)"
proof (cases op)
  case Make
  with make_spec[OF assms(1-3)] assms(4) show ?thesis by simp
next
  case (Encrypt pt)
  show ?thesis
  proof (cases x)
    case None
    then show ?thesis using assms(1,4) Encrypt by (auto simp: transit_rep_def transit_encrypt_def intro: spec_encrypt_refused)
  next
    case (Some ks)
    with transit_encrypt_result[OF assms(1)[unfolded Some], of t rng pt] assms(1,4) Encrypt show ?thesis
      by (intro exI[of _ "Some ks"]) (auto intro!: spec_encrypt spec_encrypt_refused ring_encryptsI split: sum.splits)
  qed
next
  case (Decrypt ct)
  show ?thesis
  proof (cases x)
    case None
    then have "\<exists>e. transit_decrypt (env_db v) (env_prims v) (env_crypto v) db t name ct = Inl e"
      using assms(1) by (auto simp: transit_rep_def transit_decrypt_def split: sum.splits)
    then show ?thesis using assms(1,4) Decrypt None spec_decrypt_refused[of None]
      by (intro exI[of _ None]) auto
  next
    case (Some ks)
    with ring_decrypts[OF assms(1)[unfolded Some], of t ct, symmetric] assms(1,4) Decrypt show ?thesis
      by (intro exI[of _ x]) (auto intro: spec_decrypt spec_decrypt_refused split: sum.splits)
  qed
next
  case Rotate
  with rotate_spec[OF assms(1-3)] assms(4) show ?thesis by simp
next
  case Info
  show ?thesis
  proof (cases x)
    case None
    then show ?thesis using assms(1,4) Info by (auto simp: transit_rep_def transit_info_def intro: spec_info_refused)
  next
    case (Some ks)
    with ring_informs[OF assms(1)[unfolded Some], of t] assms(1,4) Info show ?thesis by (auto intro: spec_info)
  qed
qed

end

section \<open>The requests\<close>

text \<open>What a request on the transit routes asks of the machine.\<close>

definition transit_request :: "request \<Rightarrow> (string \<times> transit_op) option" where
  "transit_request r = (let name = transit_key_name (req_path r);
       field = (\<lambda>f op. case decode_body (dec_field f) r of None \<Rightarrow> None | Some x \<Rightarrow> if x = [] then None else Some (op x)) in
     if has_suffix (req_path r) ''/create'' then Some (name ''/create'', Make)
     else if has_suffix (req_path r) ''/encrypt'' then map_option (Pair (name ''/encrypt'')) (field ''plaintext'' Encrypt)
     else if has_suffix (req_path r) ''/decrypt'' then map_option (Pair (name ''/decrypt'')) (field ''ciphertext'' Decrypt)
     else if has_suffix (req_path r) ''/rotate'' then Some (name ''/rotate'', Rotate)
     else if has_suffix (req_path r) ''/info'' then Some (name ''/info'', Info)
     else None)"

fun transit_answers :: "'s env \<Rightarrow> string \<Rightarrow> string \<Rightarrow> transit_reply \<Rightarrow> response \<Rightarrow> bool" where
  "transit_answers v rid name Made resp \<longleftrightarrow>
     resp = write_json rid 200 (Some (JObj [(''key'', JStr name), (''status'', JStr ''created'')]))"
| "transit_answers v rid name (Ciphertext ct) resp \<longleftrightarrow> resp = write_json rid 200 (Some (JObj [(''ciphertext'', JStr ct)]))"
| "transit_answers v rid name (Plaintext pt) resp \<longleftrightarrow> resp = write_json rid 200 (Some (JObj [(''plaintext'', JStr pt)]))"
| "transit_answers v rid name Rotated resp \<longleftrightarrow> resp = write_json rid 200 (Some (JObj [(''status'', JStr ''rotated'')]))"
| "transit_answers v rid name (Described m) resp \<longleftrightarrow> resp = write_json rid 200 (enc_info (env_prims v) m)"
| "transit_answers v rid name (Declined st) resp \<longleftrightarrow> (\<exists>msg. resp = write_error_rid rid st msg)"

lemma handle_transit_does:
  assumes "transit_request r = Some (name, op)" "needs_transit r = Some (obj, cap)" "allowed_here c s obj cap"
    "op = Make \<Longrightarrow> env_dev v \<or> ctx_method c = Some ''admin_token''"
    "transit_do v (sv_db s) (out_clock out 2) (rng_from 1 (out_rng out)) name op = (db', ans)"
    "\<And>pt m. op = Encrypt pt \<Longrightarrow> transit_encrypt (env_db v) (env_prims v) (env_crypto v) (sv_db s) (out_clock out 2)
       (rng_from 1 (out_rng out)) name pt \<noteq> Panic m"
  shows "\<exists>resp. handle_transit v out r c s = (s\<lparr>sv_db := db'\<rparr>, Done resp) \<and> transit_answers v (ctx_request_id c) name ans resp"
proof -
  let ?suf = "has_suffix (req_path r)" and ?n = "transit_key_name (req_path r)"
  note a = answer_defs get_request_id_def
  consider (make) "?suf ''/create''" | (encrypt) "\<not> ?suf ''/create''" "?suf ''/encrypt''"
    | (decrypt) "\<not> ?suf ''/create''" "\<not> ?suf ''/encrypt''" "?suf ''/decrypt''"
    | (rotate) "\<not> ?suf ''/create''" "\<not> ?suf ''/encrypt''" "\<not> ?suf ''/decrypt''" "?suf ''/rotate''"
    | (info) "\<not> ?suf ''/create''" "\<not> ?suf ''/encrypt''" "\<not> ?suf ''/decrypt''" "\<not> ?suf ''/rotate''" "?suf ''/info''"
    using assms(1) by (auto simp: transit_request_def Let_def split: if_splits)
  then show ?thesis
  proof cases
    case make
    then have o: "name = ?n ''/create''" "op = Make" using assms(1) by (simp_all add: transit_request_def Let_def)
    have h: "handle_transit v out r c s = handle_transit_create v out r c s"
      using make assms(4)[OF o(2)] by (auto simp: handle_transit_def with_admin_def)
    have "allowed_here c s (''secrets/transit/'' @ name) CapWrite"
      using assms(2,3) make o by (simp add: needs_transit_def transit_object_def)
    then show ?thesis unfolding h using assms(5) o
      by (cases "transit_create (env_db v) (env_prims v) (env_crypto v) (sv_db s) (out_clock out 2) (rng_from 1 (out_rng out)) name")
        (auto simp: handle_transit_create_def a Let_def)
  next
    case encrypt
    then obtain pt where o: "name = ?n ''/encrypt''" "op = Encrypt pt" "decode_body (dec_field ''plaintext'') r = Some pt" "pt \<noteq> []"
      using assms(1) by (auto simp: transit_request_def Let_def split: option.splits if_splits)
    have h: "handle_transit v out r c s = handle_transit_encrypt v out r c s" using encrypt by (simp add: handle_transit_def)
    have w: "allowed_here c s (''secrets/transit/'' @ name) CapEncrypt"
      using assms(2,3) encrypt o by (simp add: needs_transit_def transit_object_def)
    obtain y where "transit_encrypt (env_db v) (env_prims v) (env_crypto v) (sv_db s) (out_clock out 2) (rng_from 1 (out_rng out)) name pt = Done y"
      using assms(6)[OF o(2)] by (metis outcome.exhaust)
    with w show ?thesis unfolding h using assms(5) o by (cases y) (auto simp: handle_transit_encrypt_def a Let_def)
  next
    case decrypt
    then obtain ct where o: "name = ?n ''/decrypt''" "op = Decrypt ct" "decode_body (dec_field ''ciphertext'') r = Some ct" "ct \<noteq> []"
      using assms(1) by (auto simp: transit_request_def Let_def split: option.splits if_splits)
    have h: "handle_transit v out r c s = handle_transit_decrypt v out r c s" using decrypt by (simp add: handle_transit_def)
    have "allowed_here c s (''secrets/transit/'' @ name) CapDecrypt"
      using assms(2,3) decrypt o by (simp add: needs_transit_def transit_object_def)
    then show ?thesis unfolding h using assms(5) o
      by (cases "transit_decrypt (env_db v) (env_prims v) (env_crypto v) (sv_db s) (out_clock out 2) name ct")
        (auto simp: handle_transit_decrypt_def a Let_def)
  next
    case rotate
    then have o: "name = ?n ''/rotate''" "op = Rotate" using assms(1) by (simp_all add: transit_request_def Let_def)
    have h: "handle_transit v out r c s = handle_transit_rotate v out r c s" using rotate by (simp add: handle_transit_def)
    have "allowed_here c s (''secrets/transit/'' @ name) CapWrite"
      using assms(2,3) rotate o by (simp add: needs_transit_def transit_object_def)
    then show ?thesis unfolding h using assms(5) o
      by (cases "transit_rotate (env_db v) (env_prims v) (env_crypto v) (sv_db s) (out_clock out 2) (rng_from 1 (out_rng out)) name")
        (auto simp: handle_transit_rotate_def a Let_def)
  next
    case info
    then have o: "name = ?n ''/info''" "op = Info" using assms(1) by (simp_all add: transit_request_def Let_def)
    have h: "handle_transit v out r c s = handle_transit_info v out r c s" using info by (simp add: handle_transit_def)
    have "allowed_here c s (''secrets/transit/'' @ name) CapRead"
      using assms(2,3) info o by (simp add: needs_transit_def transit_object_def)
    then show ?thesis unfolding h using assms(5) o
      by (cases "transit_info (env_db v) (env_prims v) (env_crypto v) (sv_db s) (out_clock out 2) name")
        (auto simp: handle_transit_info_def a Let_def)
  qed
qed

lemma transit_request_name:
  assumes "transit_request r = Some (name, op)" "fine_request r"
  shows "utf8_ok name"
proof -
  have "utf8_ok (transit_key_name (req_path r) (CHR ''/'' # suffix))" for suffix
    by (rule fine_paths(3)[OF assms(2)]) (simp add: is_ascii_def)
  then show ?thesis using assms(1)
    by (auto simp: transit_request_def Let_def split: if_splits option.splits)
qed

section \<open>Properties\<close>

text \<open>
  C5: The transit routes implement the abstract machine: in every state that the server reaches from one without secrets, a
  request that the policy of its authenticated caller permits takes one step of the machine on the key ring of the
  name, is answered as the machine answers, and leaves what the other names hold. Only Create also needs an administrator
  (or development mode): a caller who is none and has the capability write rotates the key, where the API reference asks for an admin token.
  The request and those before it have UTF-8 paths and bodies nested less than ten thousand levels deep, and there are fewer than
  2^63 of them; on a name that is not UTF-8 a rotation replaces another name's ring (transit_rotate_overwrites).
\<close>

theorem transit_routes_refine:
  assumes "badger_laws (env_db v) E" and "prims_laws (env_prims v)"
    and "\<And>k. secret_key k \<Longrightarrow> E (sv_db s0) k = None" and "api_run v fine_request n s0 s" and "Suc n < 2 ^ 63"
    and "fine_request r" and "mux_route public_routes r = MuxHandler PProtected" and "mux_route authed_routes r = MuxHandler RTransit"
    and "authenticate v out r s = (s1, Inr a)" and "transit_request r = Some (name, op)"
    and "needs_transit r = Some (obj, cap)" and "policy_allowed (sv_engine s) (as_policy a) obj cap"
    and "op = Make \<Longrightarrow> env_dev v \<or> as_method a = ''admin_token''"
  shows "\<exists>x y ans s' rid resp. serve v out r s = (s', rid, Done resp) \<and> transit_answers v rid name ans resp
    \<and> holds_transit v (sv_db s) name x \<and> transit_spec (env_prims v) name (out_clock out 2) op x y ans
    \<and> holds_transit v (sv_db s') name y
    \<and> (\<forall>q z. q \<noteq> name \<longrightarrow> holds_transit v (sv_db s) q z \<longrightarrow> holds_transit v (sv_db s') q z)"
proof -
  note api = apiI[OF assms(1,2)] and va = vaultI[OF assms(1,2)]
  note u = transit_request_name[OF assms(10,6)]
  have inv: "secrets_inv v n (sv_db s)" using api.reached[OF api assms(3,4)] assms(5) by simp
  then obtain x where x: "holds_transit v (sv_db s) name x" "ring_size x \<le> n"
    using u by (auto simp: secrets_inv_def transit_inv_def)
  have same: "E (sv_db s1) k = E (sv_db s) k" if "transit_record k" for k
    using api.secrets_kept(1)[OF api assms(9)] transit_record_secret[OF that] by simp
  have inv1: "secrets_inv v n (sv_db s1)" using api.same_inv[OF api inv api.secrets_kept(1)[OF api assms(9)]] .
  have n: "int64_ok (int (ring_size x) + 1)" using x(2) assms(5) by (simp add: int64_ok_def)
  obtain db' ans where d: "transit_do v (sv_db s1) (out_clock out 2) (rng_from 1 (out_rng out)) name op = (db', ans)" by fastforce
  obtain y where y: "transit_spec (env_prims v) name (out_clock out 2) op x y ans" "holds_transit v db' name y"
      "\<And>q z. q \<noteq> name \<Longrightarrow> holds_transit v (sv_db s1) q z \<Longrightarrow> holds_transit v db' q z"
    using api.transit_do_spec[OF api vault.transit_rep_agree[OF va x(1) same] n u d] by blast
  have "allowed_here (authed_ctx out a) s1 obj cap"
    using assms(12) api.authenticate_step(2)[OF api assms(9)] by (simp add: allowed_here_def)
  from handle_transit_does[OF assms(10,11) this _ d api.encrypt_answers[OF api inv1 u]] assms(13)
  obtain resp where h: "route_handler RTransit v out r (authed_ctx out a) s1 = (s1\<lparr>sv_db := db'\<rparr>, Done resp)"
      "transit_answers v (ctx_request_id (first_ctx out)) name ans resp" by auto
  define s' where "s' = (if env_audit v then log_entry v out 5 (request_entry out r (first_ctx out) a (resp_status resp))
      (s1\<lparr>sv_db := db'\<rparr>) else s1\<lparr>sv_db := db'\<rparr>)"
  have s': "serve v out r s = (s', ctx_request_id (first_ctx out), Done resp)"
    unfolding s'_def by (rule serve_answered[OF assms(7,9,8) h(1)])
  have late: "E (sv_db s') k = E db' k" if "transit_record k" for k
    using api.secrets_kept(2)[OF api transit_record_secret[OF that]] unfolding s'_def by simp
  have "holds_transit v (sv_db s') q z" if "q \<noteq> name" "holds_transit v (sv_db s) q z" for q z
    using vault.transit_rep_agree[OF va y(3)[OF that(1) vault.transit_rep_agree[OF va that(2) same]] late] .
  with s' h(2) x(1) y(1) vault.transit_rep_agree[OF va y(2) late] show ?thesis by blast
qed

theorem transit_routes_refine_witness:
  "\<exists>db token s' rid resp x y ans. serve demo_env (demo_out 0) (demo_make_key token) (demo_server db) = (s', rid, Done resp)
    \<and> transit_answers demo_env rid ''k'' ans resp \<and> holds_transit demo_env (sv_db (demo_server db)) ''k'' x
    \<and> transit_spec demo_prims ''k'' 2 Make x y ans \<and> holds_transit demo_env (sv_db s') ''k'' y"
proof -
  have u: "utf8_ok ''ada''" "utf8_ok ''admin_token''" "utf8_ok ''root''" by code_simp+
  obtain db token m where d: "has_prefix token ''lvt_''" "token \<noteq> []" "\<And>k. \<not> token_key k \<Longrightarrow> map_of db k = None"
    "session_validate mem_badger demo_prims db (0 + 1) token = (db, Inr m)" "sess_policy m = ''root''" "sess_method m = ''admin_token''"
    by (rule demo_session_at[OF u, of 1]) (auto simp: minute_def second_def)
  have e: "map_of (sv_db (demo_server db)) k = None" if "secret_key k" for k
    using d(3) that zones_disjoint(1) by (metis demo_server_simps(1))
  have a: "authenticate demo_env (demo_out 0) (demo_make_key token) (demo_server db) = (demo_server db, Inr
      \<lparr>as_identity = sess_identity m, as_method = sess_method m, as_policy = sess_policy m\<rparr>)"
    unfolding demo_make_key_def by (rule demo_authenticated[OF d(4,1,2)])
  have p: "policy_allowed (new_engine ''policies'') ''root'' ''secrets/transit/k'' CapWrite" by code_simp
  have "has_suffix ''/v1/secrets/transit/k/create'' ''/create''"
    "transit_key_name ''/v1/secrets/transit/k/create'' ''/create'' = ''k''" by code_simp+
  then have k: "transit_request (demo_make_key token) = Some (''k'', Make)"
      "needs_transit (demo_make_key token) = Some (''secrets/transit/k'', CapWrite)"
    by (simp_all add: transit_request_def needs_transit_def transit_object_def demo_make_key_def Let_def)
  have "\<exists>x y ans s' rid resp. serve demo_env (demo_out 0) (demo_make_key token) (demo_server db) = (s', rid, Done resp)
    \<and> transit_answers demo_env rid ''k'' ans resp \<and> holds_transit demo_env (sv_db (demo_server db)) ''k'' x
    \<and> transit_spec (env_prims demo_env) ''k'' (out_clock (demo_out 0) 2) Make x y ans \<and> holds_transit demo_env (sv_db s') ''k'' y
    \<and> (\<forall>q z. q \<noteq> ''k'' \<longrightarrow> holds_transit demo_env (sv_db (demo_server db)) q z \<longrightarrow> holds_transit demo_env (sv_db s') q z)"
    by (rule transit_routes_refine[OF demo_env_laws e run_start _ demo_make_key_fine demo_make_key_routes a k])
      (use p d(5,6) in simp_all)
  moreover have "out_clock (demo_out 0) 2 = 2" "env_prims demo_env = demo_prims" by simp_all
  ultimately show ?thesis by metis
qed

end
