(* ===== verification/Cli_Init.thy ===== *)
theory Cli_Init
  imports Server_Run
begin

text \<open>
  The init command of cmd/lockr/main.go: the master key under a passphrase read from standard input,
  the TLS certificates, an example configuration and the first administrator. What it prints is not
  modelled, but for the administrator token, which it returns here.
\<close>

section \<open>The machine\<close>

text \<open>\<open>mc_db\<close> is the database in a data directory, an empty one where there was none.\<close>

record 's machine =
  mc_files :: "string \<Rightarrow> bytes option"
  mc_db :: "string \<Rightarrow> 's"

text \<open>
  What the certificate library produces: keys and certificates in DER (None where it fails), and pem.Encode.
\<close>

record pki =
  pki_ca_cert :: "bytes option"
  pki_ca_key :: "bytes option"
  pki_server_cert :: "bytes option"
  pki_server_key :: "bytes option"
  pki_pem :: "string \<Rightarrow> bytes \<Rightarrow> bytes"

text \<open>The outcome of the system calls: which directories can be made and which files written.\<close>

record init_env =
  su_stdin :: bytes
  su_rng :: rng
  su_time :: time
  su_mkdir :: "string \<Rightarrow> bool"
  su_write :: "string \<Rightarrow> bool"
  su_open :: "string \<Rightarrow> err option"
  su_pki :: pki

definition write_file :: "init_env \<Rightarrow> string \<Rightarrow> bytes \<Rightarrow> 's machine \<Rightarrow> 's machine \<times> err option" where
  "write_file u path data m =
     (if su_write u path then (m\<lparr>mc_files := (mc_files m)(path \<mapsto> data)\<rparr>, None) else (m, Some (ErrFile path)))"

section \<open>The passphrase\<close>

text \<open>
  fmt.Scanln into one string, with its error dropped: spaces are skipped, a newline among them ends the
  scan, and the string is what comes before the next space.
\<close>

function scan_token :: "string \<Rightarrow> string" where
  "scan_token [] = []"
| "scan_token (a # s) = (case decode_rune (a # s) of
     None \<Rightarrow> replacement @ scan_token s
   | Some (r, n) \<Rightarrow> if is_space_rune r then [] else take n (a # s) @ scan_token (drop n (a # s)))"
  by pat_completeness auto
termination
  by (relation "measure length") (auto dest: decode_rune_width)

declare scan_token.simps(2) [simp del]

definition read_passphrase :: "bytes \<Rightarrow> err + bytes" where
  "read_passphrase stdin =
     (let pass = (case skip_space stdin of None \<Rightarrow> [] | Some s \<Rightarrow> scan_token s) in
      if pass = [] then Inl (ErrText ''passphrase cannot be empty'') else Inr pass)"

section \<open>Certificates\<close>

definition write_pem :: "init_env \<Rightarrow> string \<Rightarrow> string \<Rightarrow> bytes \<Rightarrow> 's machine \<Rightarrow> 's machine \<times> err option" where
  "write_pem u path typ der m = write_file u path (pki_pem (su_pki u) typ der) m"

text \<open>The four files in order; the first failure ends the generation.\<close>

fun write_certs ::
  "init_env \<Rightarrow> (string \<times> string \<times> bytes option) list \<Rightarrow> 's machine \<Rightarrow> 's machine \<times> err option" where
  "write_certs u [] m = (m, None)"
| "write_certs u ((path, typ, der) # rest) m = (case der of
     None \<Rightarrow> (m, Some (ErrText ''x509''))
   | Some d \<Rightarrow> (case write_pem u path typ d m of
        (m', Some e) \<Rightarrow> (m', Some e)
      | (m', None) \<Rightarrow> write_certs u rest m'))"

definition generate_tls_certs :: "init_env \<Rightarrow> string \<Rightarrow> 's machine \<Rightarrow> 's machine \<times> err option" where
  "generate_tls_certs u dir m =
     (if \<not> su_mkdir u dir then (m, Some (ErrFile dir))
      else write_certs u
        [(path_join dir ''ca.crt'', ''CERTIFICATE'', pki_ca_cert (su_pki u)),
         (path_join dir ''ca.key'', ''PRIVATE KEY'', pki_ca_key (su_pki u)),
         (path_join dir ''server.crt'', ''CERTIFICATE'', pki_server_cert (su_pki u)),
         (path_join dir ''server.key'', ''PRIVATE KEY'', pki_server_key (su_pki u))] m)"

section \<open>The configuration\<close>

definition quoted :: "string \<Rightarrow> string" where
  "quoted s = dquote # s @ [dquote]"

definition example_config :: "string \<Rightarrow> bytes" where
  "example_config data_dir = concat (map (\<lambda>line. line @ [CHR 0x0A]) [
     ''server:'',
     ''  addr: '' @ quoted ''0.0.0.0:8300'',
     ''  tls_cert: '' @ quoted ''/etc/lockr/tls/server.crt'',
     ''  tls_key: '' @ quoted ''/etc/lockr/tls/server.key'',
     ''  tls_ca: '' @ quoted ''/etc/lockr/tls/ca.crt'',
     [],
     ''storage:'',
     ''  data_dir: '' @ quoted (data_dir @ ''/data''),
     ''  master_key_path: '' @ quoted (data_dir @ ''/master.key.enc''),
     [],
     ''audit:'',
     ''  log_file: '' @ quoted (data_dir @ ''/audit.log''),
     [],
     ''policy:'',
     ''  dir: '' @ quoted ''/etc/lockr/policies'',
     [],
     ''session:'',
     ''  ttl: '' @ quoted ''1h'',
     ''  max_ttl: '' @ quoted ''24h'',
     [],
     ''log_level: '' @ quoted ''info''])"

section \<open>The first administrator\<close>

text \<open>No token when there is an administrator already.\<close>

definition bootstrap_admin_token ::
  "'s badger \<Rightarrow> prims \<Rightarrow> init_env \<Rightarrow> string \<Rightarrow> 's machine \<Rightarrow> 's machine \<times> (err + string)" where
  "bootstrap_admin_token B P u data_dir m = (case su_open u data_dir of
     Some e \<Rightarrow> (m, Inl (Wrapped ''open storage'' e))
   | None \<Rightarrow> (case has_admins B (mc_db m data_dir) (su_time u) of
        Inl e \<Rightarrow> (m, Inl e)
      | Inr True \<Rightarrow> (m, Inr [])
      | Inr False \<Rightarrow> (case admin_create B P (mc_db m data_dir) (su_time u) (rng_from 3 (su_rng u)) ''root'' ''root'' of
           Inl e \<Rightarrow> (m, Inl e)
         | Inr (db, token) \<Rightarrow> (m\<lparr>mc_db := (mc_db m)(data_dir := db)\<rparr>, Inr token))))"

section \<open>init\<close>

text \<open>
  Draw 0 is the master key, 1 and 2 are the salt and the nonce of its file, 3 and 4 the administrator's.
  The failures of the certificates, of the configuration and of the administrator are warnings.
\<close>

definition config_path :: string where
  "config_path = ''/etc/lockr/config.yml''"

definition write_config :: "init_env \<Rightarrow> string \<Rightarrow> 's machine \<Rightarrow> 's machine" where
  "write_config u data_dir m =
     (if mc_files m config_path = None then fst (write_file u config_path (example_config data_dir) m) else m)"

definition run_init ::
  "'s badger \<Rightarrow> prims \<Rightarrow> init_env \<Rightarrow> string \<Rightarrow> 's machine \<Rightarrow> 's machine \<times> (err + string)" where
  "run_init B P u data_dir m =
     (if \<not> su_mkdir u data_dir then (m, Inl (Wrapped ''create data directory'' (ErrFile data_dir)))
      else if \<not> su_mkdir u (path_join data_dir ''data'')
      then (m, Inl (Wrapped ''create data directory'' (ErrFile (path_join data_dir ''data''))))
      else (case generate_master_key (su_rng u) 0 of
        Inl e \<Rightarrow> (m, Inl (Wrapped ''generate master key'' e))
      | Inr key \<Rightarrow> (case read_passphrase (su_stdin u) of
           Inl e \<Rightarrow> (m, Inl e)
         | Inr passphrase \<Rightarrow> (case save_master_key P (su_rng u) 1 key passphrase of
              Inl e \<Rightarrow> (m, Inl (Wrapped ''save master key'' e))
            | Inr data \<Rightarrow> (case write_file u (path_join data_dir ''master.key.enc'') data m of
                 (m1, Some e) \<Rightarrow> (m1, Inl (Wrapped ''save master key'' e))
               | (m1, None) \<Rightarrow>
                   (let m2 = fst (generate_tls_certs u ''/etc/lockr/tls'' m1);
                        m3 = write_config u data_dir m2 in
                    case bootstrap_admin_token B P u (path_join data_dir ''data'') m3 of
                      (m4, Inl _) \<Rightarrow> (m4, Inr [])
                    | (m4, Inr token) \<Rightarrow> (m4, Inr token)))))))"

end
