(* ===== verification/Cli_Init_Props.thy ===== *)
theory Cli_Init_Props
  imports Cli_Init Api_Props
begin

text \<open>
  What init leaves behind: a machine on which the server starts with the same passphrase and knows the
  printed administrator token; and two surprises, the passphrase that ends at its first space and the
  master key that a second init overwrites.
\<close>

section \<open>The passphrase\<close>

definition word_char :: "char \<Rightarrow> bool" where
  "word_char c \<longleftrightarrow> is_ascii c \<and> 32 < (of_char c :: nat)"

lemma scan_token_word:
  assumes "list_all word_char w" and "rest = [] \<or> (\<exists>c r. rest = c # r \<and> c \<in> {CHR '' '', CHR 0x09, CHR 0x0A, CHR 0x0D})"
  shows "scan_token (w @ rest) = w"
  using assms(1)
proof (induction w)
  case Nil
  then show ?case using assms(2)
    by (auto simp: scan_token.simps(2) decode_rune_ascii is_ascii_def is_space_rune_def)
next
  case (Cons a w)
  then have "is_ascii a" "32 < (of_char a :: nat)" by (auto simp: word_char_def)
  then have "\<not> is_space_rune (of_char a)" by (auto simp: is_space_rune_def is_ascii_def)
  with Cons \<open>is_ascii a\<close> show ?case by (simp add: scan_token.simps(2))
qed

lemma read_passphrase_word:
  assumes "w \<noteq> []" "list_all word_char w"
    and "rest = [] \<or> (\<exists>c r. rest = c # r \<and> c \<in> {CHR '' '', CHR 0x09, CHR 0x0A, CHR 0x0D})"
  shows "read_passphrase (w @ rest) = Inr w"
proof -
  obtain a u where "w = a # u" using assms(1) by (cases w) auto
  then have "skip_space (w @ rest) = Some (w @ rest)" using assms(2) by (simp add: skip_space_nonspace word_char_def)
  then show ?thesis using assms scan_token_word by (simp add: read_passphrase_def)
qed

section \<open>The files\<close>

definition key_file :: "string \<Rightarrow> string" where
  "key_file data_dir = path_join data_dir ''master.key.enc''"

lemma key_file_distinct:
  "key_file d \<noteq> config_path" "key_file d \<noteq> path_join e ''ca.crt''" "key_file d \<noteq> path_join e ''ca.key''"
  "key_file d \<noteq> path_join e ''server.crt''" "key_file d \<noteq> path_join e ''server.key''"
proof -
  have "plain_name ''master.key.enc''" "plain_name ''ca.crt''" "plain_name ''ca.key''" "plain_name ''server.crt''"
    "plain_name ''server.key''" by code_simp+
  note ends = this[THEN path_join_ends]
  obtain p where p: "key_file d = p @ ''master.key.enc''" using ends(1)[of d] by (auto simp: key_file_def)
  have last: "last (key_file d) = CHR ''c''" unfolding p by simp
  have "last config_path = CHR ''l''" by (simp add: config_path_def)
  moreover have "last (path_join e ''ca.crt'') = CHR ''t''" "last (path_join e ''ca.key'') = CHR ''y''"
    "last (path_join e ''server.crt'') = CHR ''t''" "last (path_join e ''server.key'') = CHR ''y''"
    using ends(2)[of e] ends(3)[of e] ends(4)[of e] ends(5)[of e] by auto
  ultimately show "key_file d \<noteq> config_path" "key_file d \<noteq> path_join e ''ca.crt''" "key_file d \<noteq> path_join e ''ca.key''"
    "key_file d \<noteq> path_join e ''server.crt''" "key_file d \<noteq> path_join e ''server.key''"
    using last by auto
qed

lemma write_file_keeps: "path \<noteq> p \<Longrightarrow> mc_files (fst (write_file u p data m)) path = mc_files m path"
  "mc_db (fst (write_file u p data m)) = mc_db m"
  by (simp_all add: write_file_def)

lemma write_certs_keeps:
  "path \<notin> fst ` set ps \<Longrightarrow> mc_files (fst (write_certs u ps m)) path = mc_files m path"
  "mc_db (fst (write_certs u ps m)) = mc_db m"
proof -
  have "(path \<notin> fst ` set ps \<longrightarrow> mc_files (fst (write_certs u ps m)) path = mc_files m path)
      \<and> mc_db (fst (write_certs u ps m)) = mc_db m"
  proof (induction u ps m rule: write_certs.induct)
    case (2 u p kind der rest m)
    show ?case
    proof (cases der)
      case (Some d)
      obtain m' e where w: "write_file u p (pki_pem (su_pki u) kind d) m = (m', e)"
        by (cases "write_file u p (pki_pem (su_pki u) kind d) m")
      have k: "path \<noteq> p \<longrightarrow> mc_files m' path = mc_files m path" "mc_db m' = mc_db m"
        using write_file_keeps(1)[of path p u "pki_pem (su_pki u) kind d" m]
        write_file_keeps(2)[of u p "pki_pem (su_pki u) kind d" m] w by auto
      show ?thesis
      proof (cases e)
        case None
        then show ?thesis using Some w k "2.IH"[OF Some] by (auto simp: write_pem_def)
      qed (use Some w k in \<open>auto simp: write_pem_def\<close>)
    qed simp
  qed simp
  then show "path \<notin> fst ` set ps \<Longrightarrow> mc_files (fst (write_certs u ps m)) path = mc_files m path"
    "mc_db (fst (write_certs u ps m)) = mc_db m" by auto
qed

text \<open>What a successful init has done, step by step.\<close>

lemma init_done:
  assumes "run_init B P u d m = (m', Inr token)"
  obtains key pass data m3 where "generate_master_key (su_rng u) 0 = Inr key" "read_passphrase (su_stdin u) = Inr pass"
    "save_master_key P (su_rng u) 1 key pass = Inr data" "mc_files m' (key_file d) = Some data" "mc_db m3 = mc_db m"
    "bootstrap_admin_token B P u (path_join d ''data'') m3 = (m', Inr token)
       \<or> (\<exists>e. bootstrap_admin_token B P u (path_join d ''data'') m3 = (m', Inl e)) \<and> token = []"
proof -
  obtain key pass data m1 where s: "generate_master_key (su_rng u) 0 = Inr key" "read_passphrase (su_stdin u) = Inr pass"
    "save_master_key P (su_rng u) 1 key pass = Inr data" "write_file u (key_file d) data m = (m1, None)"
    and b: "\<And>m3. m3 = write_config u d (fst (generate_tls_certs u ''/etc/lockr/tls'' m1)) \<Longrightarrow>
      bootstrap_admin_token B P u (path_join d ''data'') m3 = (m', Inr token)
       \<or> (\<exists>e. bootstrap_admin_token B P u (path_join d ''data'') m3 = (m', Inl e)) \<and> token = []"
    using assms by (auto simp: run_init_def Let_def key_file_def split: if_splits sum.splits prod.splits option.splits)
  let ?m2 = "fst (generate_tls_certs u ''/etc/lockr/tls'' m1)"
  let ?m3 = "write_config u d ?m2"
  have m1: "mc_files m1 (key_file d) = Some data" "mc_db m1 = mc_db m"
    using s(4) by (auto simp: write_file_def split: if_splits)
  have "mc_files ?m2 (key_file d) = Some data \<and> mc_db ?m2 = mc_db m"
    using m1 by (simp add: generate_tls_certs_def write_certs_keeps key_file_distinct del: write_certs.simps)
  then have m3: "mc_files ?m3 (key_file d) = Some data" "mc_db ?m3 = mc_db m"
    by (simp_all add: write_config_def write_file_keeps key_file_distinct)
  have "mc_files m' = mc_files ?m3"
    using b[OF refl] by (auto simp: bootstrap_admin_token_def split: option.splits sum.splits bool.splits prod.splits)
  with m3 s b[OF refl] that show thesis by metis
qed

section \<open>Properties\<close>

text \<open>
  C13: After an init that succeeded and printed a token, on a data directory without administrators, the server starts
  on the key that init drew and accepts the printed token on every protected request, as the administrator root
  with the policy root. The passphrase in the server's environment is the one that readPassphrase took from the input: the first
  word of the line, so not all that was typed when that has a blank in it (init_takes_first_word). The server reads the files and the database that init left, under the configured
  directory and key file; opening the database and the audit log, loading the policies and the certificate pair succeed.
\<close>

theorem init_then_serve:
  assumes "badger_laws (env_db v) E" and "prims_laws (env_prims v)"
    and "run_init (env_db v) (env_prims v) u d m = (m', Inr token)" and "token \<noteq> []"
    and "\<And>name. E (mc_db m (path_join d ''data'')) (admin_key name) = None"
    and "read_passphrase (su_stdin u) = Inr (host_environ h ''LOCKR_PASSPHRASE'')"
    and "host_read h = mc_files m'" and "host_open h (path_join d ''data'') False = Inr (mc_db m' (path_join d ''data''))"
    and "sto_data_dir (cfg_storage cfg) = path_join d ''data''" and "sto_master_key (cfg_storage cfg) = key_file d"
    and "host_log h (aud_log_file (cfg_audit cfg)) = Some f" and "open_policies h cfg False = Inr engine"
    and "host_pair h (srv_tls_cert (cfg_server cfg)) (srv_tls_key (cfg_server cfg))"
  shows "\<exists>v' s. server_run v h cfg False = Done (Inr (v', s)) \<and> sv_engine s = engine
    \<and> generate_master_key (su_rng u) 0 = Inr (masterKey (env_crypto v'))
    \<and> (\<forall>out r. extract_token r = token \<longrightarrow>
        authenticate v' out r s = (s, Inr \<lparr>as_identity = ''admin:root'', as_method = ''admin_token'', as_policy = ''root''\<rparr>))"
proof -
  obtain key data m3 where i: "generate_master_key (su_rng u) 0 = Inr key"
    "save_master_key (env_prims v) (su_rng u) 1 key (host_environ h ''LOCKR_PASSPHRASE'') = Inr data"
    "mc_files m' (key_file d) = Some data" "mc_db m3 = mc_db m"
    "bootstrap_admin_token (env_db v) (env_prims v) u (path_join d ''data'') m3 = (m', Inr token)"
    using init_done[OF assms(3)] assms(4,6) by (metis sum.inject(2))
  obtain db where a: "admin_create (env_db v) (env_prims v) (mc_db m (path_join d ''data'')) (su_time u)
      (rng_from 3 (su_rng u)) ''root'' ''root'' = Inr (db, token)" "mc_db m' (path_join d ''data'') = db"
    using i(4,5) assms(4) by (auto simp: bootstrap_admin_token_def split: option.splits sum.splits bool.splits prod.splits)
  have root: "utf8_ok ''root''" by (simp add: utf8_ok_all_ascii is_ascii_def)
  have first: "has_prefix token adminTokenPrefix \<and> (\<exists>rec. admin_verify (env_db v) (env_prims v) db t' token = Inr rec
      \<and> admin_name rec = ''root'' \<and> admin_policy rec = ''root'')" for t'
    using assms(5) by (intro auth_base.admin_first[OF authI[OF assms(1,2)] a(1) root root])
  have "host_environ h ''LOCKR_PASSPHRASE'' \<noteq> []" using assms(6) by (auto simp: read_passphrase_def Let_def split: if_splits)
  then have "open_crypto (env_prims v) h cfg False = Done (Inr \<lparr>masterKey = key\<rparr>)"
    using save_load_master_key[OF assms(2) i(2)] i(3) assms(7,10) by (simp add: open_crypto_def)
  then have run: "server_run v h cfg False = Done (Inr
      (v\<lparr>env_crypto := \<lparr>masterKey = key\<rparr>, env_dev := False, env_audit := True, env_config := cfg, env_start := host_time h\<rparr>,
       \<lparr>sv_db = db, sv_engine = engine, sv_challenges = (\<lambda>_. None), sv_log = f\<rparr>))" (is "_ = Done (Inr (?v, ?s))")
    using assms(8,9,11-13) a(2) by (simp add: server_run_def storage_open_def open_audit_def new_logger_def open_tls_def)
  have auth: "authenticate ?v out r ?s = (?s, Inr \<lparr>as_identity = ''admin:root'', as_method = ''admin_token'', as_policy = ''root''\<rparr>)"
    if "extract_token r = token" for out r
  proof -
    obtain rec where "admin_verify (env_db v) (env_prims v) db (out_clock out 1) token = Inr rec"
        "admin_name rec = ''root''" "admin_policy rec = ''root''"
      using first[of "out_clock out 1"] by blast
    moreover have "has_prefix token ''lkat_''" using first by (simp add: adminTokenPrefix_def)
    moreover have "\<not> has_prefix token ''lvt_''" using \<open>has_prefix token ''lkat_''\<close> unfolding has_prefix_iff by auto
    ultimately show ?thesis using that assms(4) by (simp add: authenticate_def Let_def)
  qed
  from run i(1) auth show ?thesis by auto
qed

text \<open>A demonstration: someone types two words at the prompt on an empty machine.\<close>

definition demo_init :: init_env where
  "demo_init = \<lparr>su_stdin = ''correct horse'' @ [CHR 0x0A], su_rng = (\<lambda>i. if i < 3 then Some ''K'' else demo_rng (i - 3)),
     su_time = 0, su_mkdir = (\<lambda>_. True), su_write = (\<lambda>_. True), su_open = (\<lambda>_. None),
     su_pki = \<lparr>pki_ca_cert = Some ''ca'', pki_ca_key = Some ''k'', pki_server_cert = Some ''srv'', pki_server_key = Some ''k'',
       pki_pem = (\<lambda>_ der. der)\<rparr>\<rparr>"

definition demo_machine :: "mem machine" where
  "demo_machine = \<lparr>mc_files = (\<lambda>_. None), mc_db = (\<lambda>_. [])\<rparr>"

definition demo_host :: "mem machine \<Rightarrow> string \<Rightarrow> mem host" where
  "demo_host m pass = \<lparr>host_open = (\<lambda>d _. Inr (mc_db m d)), host_environ = (\<lambda>_. pass), host_read = mc_files m,
     host_log = (\<lambda>_. Some []), host_pair = (\<lambda>_ _. True),
     host_policies = \<lparr>read_dir = (\<lambda>_. DirMissing), read_file = (\<lambda>_. None), yaml_policy = (\<lambda>_. None)\<rparr>,
     host_rng = demo_rng, host_time = 0\<rparr>"

definition demo_config :: config where
  "demo_config = config_defaults\<lparr>cfg_storage := \<lparr>sto_data_dir = path_join ''/data'' ''data'', sto_master_key = key_file ''/data''\<rparr>\<rparr>"

lemma demo_passphrase: "read_passphrase (su_stdin demo_init) = Inr ''correct''"
proof -
  have "list_all word_char ''correct''" by code_simp
  from read_passphrase_word[OF _ this, of "'' horse'' @ [CHR 0x0A]"] show ?thesis by (simp add: demo_init_def)
qed

lemma demo_run_init:
  assumes "\<And>name. map_of (mc_db m (path_join ''/data'' ''data'')) (admin_key name) = None" "mc_db m (path_join ''/data'' ''data'') = []"
  shows "\<exists>m' token. run_init mem_badger demo_prims demo_init ''/data'' m = (m', Inr token) \<and> token \<noteq> []"
proof -
  let ?d = "path_join ''/data'' ''data''"
  have k: "generate_master_key (su_rng demo_init) 0 = Inr (fill 32 ''K'')"
    by (simp add: generate_master_key_def rand_read_def demo_init_def master_key_len_def)
  obtain data where s: "save_master_key demo_prims (su_rng demo_init) (Suc 0) (fill 32 ''K'') ''correct'' = Inr data"
    by (auto simp: save_master_key_def demo_init_def rand_read_def aesgcm_encrypt_def aes_key_ok_def
        demo_prims_def enc_mkf_def json_marshal_def Let_def)
  obtain m1 where w: "write_file demo_init (path_join ''/data'' ''master.key.enc'') data m = (m1, None)" "mc_db m1 = mc_db m"
    by (simp add: write_file_def demo_init_def)
  let ?m3 = "write_config demo_init ''/data'' (fst (generate_tls_certs demo_init ''/etc/lockr/tls'' m1))"
  have db: "mc_db ?m3 ?d = []" using w(2) assms(2)
    by (simp add: write_config_def generate_tls_certs_def write_file_keeps write_certs_keeps del: write_certs.simps)
  have h: "has_admins mem_badger [] 0 = Inr False" using demo_auth.has_admins_iff[of "[]"] by (simp add: visible_def)
  have r: "rng_from 3 (su_rng demo_init) = demo_rng" by (simp add: rng_from_def demo_init_def)
  obtain db token where a: "admin_create mem_badger demo_prims [] 0 demo_rng ''root'' ''root'' = Inr (db, token)"
    using demo_admin_create by blast
  have "utf8_ok ''root''" by (simp add: utf8_ok_all_ascii is_ascii_def)
  then have "token \<noteq> []" using demo_auth.admin_first[OF a] by (auto simp: has_prefix_def adminTokenPrefix_def)
  moreover have "bootstrap_admin_token mem_badger demo_prims demo_init ?d ?m3 = (?m3\<lparr>mc_db := (mc_db ?m3)(?d := db)\<rparr>, Inr token)"
    using db h r a by (simp add: bootstrap_admin_token_def) (simp add: demo_init_def)
  ultimately show ?thesis using k s w(1) demo_passphrase
    by (simp add: run_init_def Let_def) (simp add: demo_init_def)
qed

theorem init_then_serve_witness:
  "\<exists>m' token v' s. run_init mem_badger demo_prims demo_init ''/data'' demo_machine = (m', Inr token)
    \<and> server_run demo_env (demo_host m' ''correct'') demo_config False = Done (Inr (v', s))
    \<and> authenticate v' (demo_out 0) (demo_put token) s =
        (s, Inr \<lparr>as_identity = ''admin:root'', as_method = ''admin_token'', as_policy = ''root''\<rparr>)"
proof -
  obtain m' token where r: "run_init mem_badger demo_prims demo_init ''/data'' demo_machine = (m', Inr token)" "token \<noteq> []"
    using demo_run_init[of demo_machine] by (auto simp: demo_machine_def)
  have p: "open_policies (demo_host m' ''correct'') demo_config False = Inr (new_engine (pol_dir (cfg_policy demo_config)))"
    by (simp add: open_policies_def Let_def load_all_def demo_host_def)
  have "\<exists>v' s. server_run demo_env (demo_host m' ''correct'') demo_config False = Done (Inr (v', s))
    \<and> sv_engine s = new_engine (pol_dir (cfg_policy demo_config))
    \<and> generate_master_key (su_rng demo_init) 0 = Inr (masterKey (env_crypto v'))
    \<and> (\<forall>out r. extract_token r = token \<longrightarrow>
        authenticate v' out r s = (s, Inr \<lparr>as_identity = ''admin:root'', as_method = ''admin_token'', as_policy = ''root''\<rparr>))"
    by (rule init_then_serve[OF demo_env_laws, where u = demo_init and d = "''/data''" and m = demo_machine and m' = m' and f = "[]"])
      (use r p demo_passphrase in \<open>simp_all add: demo_machine_def demo_host_def demo_config_def\<close>)
  moreover have "extract_token (demo_put token) = token" by (simp add: demo_put_def)
  ultimately show ?thesis using r(1) by blast
qed

text \<open>
  The passphrase that init takes ends at the first space: of what is typed only the first word
  protects the master key, and the same text given to the server as a whole is another passphrase.
\<close>

theorem init_takes_first_word:
  assumes "w \<noteq> []" and "list_all word_char w"
  shows "read_passphrase (w @ CHR '' '' # rest) = Inr w"
  using read_passphrase_word[OF assms, of "CHR '' '' # rest"] by simp

theorem init_takes_first_word_witness:
  "read_passphrase (''correct'' @ CHR '' '' # ''horse'') = Inr ''correct''"
  by (rule init_takes_first_word) (simp, code_simp)

text \<open>
  init overwrites the master key of an existing installation without asking: whatever the files and the
  database held, afterwards the key file holds the newly drawn key, and nothing else.
\<close>

theorem init_overwrites_key:
  assumes "prims_laws P" and "run_init B P u d m = (m', Inr token)"
  shows "\<exists>key pass data. rand_read (su_rng u) 0 32 = Inr key \<and> read_passphrase (su_stdin u) = Inr pass
    \<and> mc_files m' (key_file d) = Some data \<and> load_master_key P (Some data) pass = Done (Inr key)"
proof -
  obtain key pass data where i: "generate_master_key (su_rng u) 0 = Inr key" "read_passphrase (su_stdin u) = Inr pass"
    "save_master_key P (su_rng u) 1 key pass = Inr data" "mc_files m' (key_file d) = Some data"
    by (rule init_done[OF assms(2)]) blast
  with save_load_master_key[OF assms(1) i(3)] show ?thesis
    by (auto simp: generate_master_key_def master_key_len_def)
qed

text \<open>The demonstration: the key file was there.\<close>

theorem init_overwrites_key_witness:
  "\<exists>m' token data. run_init mem_badger demo_prims demo_init ''/data''
      (demo_machine\<lparr>mc_files := [key_file ''/data'' \<mapsto> ''old key file'']\<rparr>) = (m', Inr token)
    \<and> mc_files m' (key_file ''/data'') = Some data \<and> load_master_key demo_prims (Some data) ''correct'' = Done (Inr (fill 32 ''K''))"
proof -
  let ?m = "demo_machine\<lparr>mc_files := [key_file ''/data'' \<mapsto> ''old key file'']\<rparr>"
  obtain m' token where r: "run_init mem_badger demo_prims demo_init ''/data'' ?m = (m', Inr token)"
    using demo_run_init[of ?m] by (auto simp: demo_machine_def)
  have "rand_read (su_rng demo_init) 0 32 = Inr (fill 32 ''K'')" by (simp add: rand_read_def demo_init_def)
  with init_overwrites_key[OF demo_laws r] r demo_passphrase show ?thesis by auto
qed

end
