(* ===== verification/Go_Url.thy ===== *)
theory Go_Url
  imports Http Config
begin

text \<open>
  What the clients use of net/url and net/http: the request that http.NewRequest makes of a target (the
  text after the server's address), as the server will parse it. The address is a scheme and an
  authority, so the path starts where it ends. Sending the request is a parameter, the transport: it
  stands for Client.Do, the network and the server, whose state it threads.
\<close>

section \<open>Paths\<close>

definition is_alnum :: "char \<Rightarrow> bool" where
  "is_alnum c \<longleftrightarrow> (let n = (of_char c :: nat) in 48 \<le> n \<and> n \<le> 57 \<or> 65 \<le> n \<and> n \<le> 90 \<or> 97 \<le> n \<and> n \<le> 122)"

text \<open>shouldEscape for a path.\<close>

definition should_escape :: "char \<Rightarrow> bool" where
  "should_escape c \<longleftrightarrow> \<not> is_alnum c \<and> c \<notin> set ''-_.~$&+,/:;=@''"

definition upper_hex :: "nat \<Rightarrow> char" where
  "upper_hex d = (if d < 10 then char_of (48 + d) else char_of (55 + d))"

fun escape_path :: "string \<Rightarrow> string" where
  "escape_path [] = []"
| "escape_path (c # s) = (if should_escape c
     then [CHR ''%'', upper_hex (of_char c div 16), upper_hex (of_char c mod 16)] else [c]) @ escape_path s"

definition valid_encoded :: "string \<Rightarrow> bool" where
  "valid_encoded s \<longleftrightarrow> list_all (\<lambda>c. c \<in> set (CHR 0x27 # ''!$&()*+,;=:@[]%'') \<or> \<not> should_escape c) s"

text \<open>The path of a target and its escaped form (setPath, EscapedPath).\<close>

definition target_paths :: "string \<Rightarrow> (string \<times> string) option" where
  "target_paths p = (case url_unescape False p of
     None \<Rightarrow> None
   | Some path \<Rightarrow> Some (path, if p \<noteq> escape_path path \<and> valid_encoded p then p
       else if path = ''*'' then ''*'' else escape_path path))"

definition is_control :: "char \<Rightarrow> bool" where
  "is_control c \<longleftrightarrow> (of_char c :: nat) < 32 \<or> of_char c = (127 :: nat)"

section \<open>Requests\<close>

text \<open>A token is sent in a header, which may hold no control character but a tab.\<close>

definition header_value_ok :: "string \<Rightarrow> bool" where
  "header_value_ok s \<longleftrightarrow> list_all (\<lambda>c. \<not> is_control c \<or> c = CHR 0x09) s"

definition new_request :: "string \<Rightarrow> string \<Rightarrow> (string \<times> string) list \<Rightarrow> bytes \<Rightarrow> err + request" where
  "new_request meth target headers body =
     (let (u, fragment) = cut_at (CHR ''#'') target; (p, query) = cut_at (CHR ''?'') u in
      if list_ex is_control u then Inl (ErrText ''net/url: invalid control character in URL'')
      else (case (target_paths p, url_unescape False fragment) of
         (Some (path, escaped), Some _) \<Rightarrow> Inr \<lparr>req_method = meth, req_path = path, req_escaped = escaped,
            req_query = query, req_headers = headers, req_body = body, req_remote = []\<rparr>
       | _ \<Rightarrow> Inl (ErrText ''invalid URL escape'')))"

type_synonym 'w transport = "'w \<Rightarrow> request \<Rightarrow> 'w \<times> (err + response)"

text \<open>The headers that both clients send.\<close>

definition client_headers :: "string \<Rightarrow> (string \<times> string) list" where
  "client_headers token = (''Content-Type'', ''application/json'') #
     (if token \<noteq> [] then [(''Authorization'', ''Bearer '' @ token)] else [])"

text \<open>
  A request with the token, sent; the state of the other side moves on when it was sent. A transport is
  http.Client's Do, whose failures the clients wrap with a label of their own.
\<close>

definition send_request ::
  "'w transport \<Rightarrow> string \<Rightarrow> string \<Rightarrow> string \<Rightarrow> string \<Rightarrow> bytes \<Rightarrow> 'w \<Rightarrow> 'w \<times> (err + response)" where
  "send_request T label token meth target body w = (case new_request meth target (client_headers token) body of
     Inl e \<Rightarrow> (w, Inl e)
   | Inr r \<Rightarrow> if \<not> header_value_ok token then (w, Inl (Wrapped label (ErrText ''invalid header field value'')))
       else (case T w r of (w', Inl e) \<Rightarrow> (w', Inl (Wrapped label e)) | (w', Inr resp) \<Rightarrow> (w', Inr resp)))"

section \<open>Plain targets\<close>

text \<open>A target of unreserved characters and slashes is its own path, escaped form and all.\<close>

definition target_char :: "char \<Rightarrow> bool" where
  "target_char c \<longleftrightarrow> is_alnum c \<or> c \<in> set ''-_./''"

definition plain_target :: "string \<Rightarrow> bool" where
  "plain_target s \<longleftrightarrow> list_all target_char s"

lemma alnum_control: "is_alnum c \<Longrightarrow> \<not> is_control c \<and> \<not> should_escape c"
  unfolding is_alnum_def is_control_def should_escape_def Let_def by linarith

lemma plain_not_escaped: "target_char c \<Longrightarrow> \<not> is_control c \<and> \<not> should_escape c"
proof -
  have "list_all (\<lambda>c. \<not> is_control c \<and> \<not> should_escape c) ''-_./''" by code_simp
  then show "target_char c \<Longrightarrow> ?thesis" using alnum_control unfolding target_char_def list_all_iff by blast
qed

lemma plain_not_mark: "target_char c \<Longrightarrow> c \<noteq> CHR ''%'' \<and> c \<noteq> CHR ''#'' \<and> c \<noteq> CHR ''?'' \<and> c \<noteq> CHR ''*''"
proof -
  have "\<not> target_char (CHR ''%'')" "\<not> target_char (CHR ''#'')" "\<not> target_char (CHR ''?'')" "\<not> target_char (CHR ''*'')"
    by code_simp+
  then show "target_char c \<Longrightarrow> ?thesis" by blast
qed

lemma plain_escape: "plain_target s \<Longrightarrow> escape_path s = s"
  using plain_not_escaped plain_not_mark by (induction s) (auto simp: plain_target_def)

lemma plain_unescape: "plain_target s \<Longrightarrow> url_unescape False s = Some s"
  using plain_not_escaped plain_not_mark by (induction s) (auto simp: plain_target_def)

lemma plain_cut:
  assumes "plain_target s"
  shows "cut_at (CHR ''#'') s = (s, [])" "cut_at (CHR ''?'') s = (s, [])" "\<not> list_ex is_control s"
proof -
  have "\<forall>c\<in>set s. c \<noteq> CHR ''#'' \<and> c \<noteq> CHR ''?'' \<and> \<not> is_control c"
    using assms plain_not_escaped plain_not_mark unfolding plain_target_def list_all_iff by blast
  then show "cut_at (CHR ''#'') s = (s, [])" "cut_at (CHR ''?'') s = (s, [])" "\<not> list_ex is_control s"
    by (simp_all add: cut_at_def list_ex_iff takeWhile_eq_all_conv[THEN iffD2] dropWhile_eq_Nil_conv[THEN iffD2])
qed

lemma plain_request:
  assumes "plain_target s"
  shows "new_request meth s headers body = Inr \<lparr>req_method = meth, req_path = s, req_escaped = s,
            req_query = [], req_headers = headers, req_body = body, req_remote = []\<rparr>"
proof -
  have "s \<noteq> ''*''"
  proof
    assume "s = ''*''"
    then have "target_char (CHR ''*'')" using assms by (simp add: plain_target_def)
    then show False using plain_not_mark by blast
  qed
  then show ?thesis using assms by (simp add: new_request_def plain_cut plain_unescape target_paths_def plain_escape)
qed

end
