(* ===== verification/Go_Client.thy ===== *)
theory Go_Client
  imports Go_Url Externals
begin

text \<open>
  pkg/client/client.go: the Go client library. Its calls run over a transport. The signing function of
  Ed25519 is a parameter; it panics on a key that has not 64 bytes.
\<close>

section \<open>The client\<close>

record go_client =
  gc_priv :: bytes
  gc_token :: string

record client_options =
  op_priv_hex :: string
  op_priv_path :: string
  op_ca_path :: string
  op_admin_token :: string

text \<open>bytes.TrimSpace.\<close>

function trim_left :: "string \<Rightarrow> string" where
  "trim_left [] = []"
| "trim_left (a # s) = (case decode_rune (a # s) of
     None \<Rightarrow> a # s | Some (r, n) \<Rightarrow> if is_space_rune r then trim_left (drop n (a # s)) else a # s)"
  by pat_completeness auto
termination
  by (relation "measure length") (auto dest: decode_rune_width)

declare trim_left.simps(2) [simp del]

function trim_right :: "string \<Rightarrow> string" where
  "trim_right [] = []"
| "trim_right (a # s) = (if trim_left (a # s) = [] then []
     else (case decode_rune (a # s) of
        None \<Rightarrow> a # trim_right s | Some (r, n) \<Rightarrow> take n (a # s) @ trim_right (drop n (a # s))))"
  by pat_completeness auto
termination
  by (relation "measure length") (auto dest: decode_rune_width)

declare trim_right.simps(2) [simp del]

definition trim_space :: "string \<Rightarrow> string" where
  "trim_space s = trim_right (trim_left s)"

text \<open>The TLS configuration only needs the CA file to be readable; what is in it is not checked.\<close>

definition client_tls :: "(string \<Rightarrow> bytes option) \<Rightarrow> string \<Rightarrow> err option" where
  "client_tls files ca_path = (if ca_path = [] then None
     else (case files ca_path of None \<Rightarrow> Some (Wrapped ''read CA cert'' (ErrFile ca_path)) | Some _ \<Rightarrow> None))"

definition new_client :: "(string \<Rightarrow> bytes option) \<Rightarrow> client_options \<Rightarrow> err + go_client" where
  "new_client files opts = (case client_tls files (op_ca_path opts) of
     Some e \<Rightarrow> Inl e
   | None \<Rightarrow>
      (case (if op_priv_path opts \<noteq> [] then
               (case files (op_priv_path opts) of
                  None \<Rightarrow> Inl (Wrapped ''read private key'' (ErrFile (op_priv_path opts)))
                | Some data \<Rightarrow> Inr (trim_space data))
             else Inr (op_priv_hex opts)) of
         Inl e \<Rightarrow> Inl e
       | Inr hex \<Rightarrow>
           if hex = [] then Inr \<lparr>gc_priv = [], gc_token = op_admin_token opts\<rparr>
           else (case hex_decode hex of
              None \<Rightarrow> Inl (Wrapped ''decode private key'' (ErrText ''hex''))
            | Some key \<Rightarrow> Inr \<lparr>gc_priv = key, gc_token = op_admin_token opts\<rparr>)))"

section \<open>Requests\<close>

text \<open>
  doJSON. The body is None for nil; \<open>dec\<close> fills the struct for the answer. The status is not looked at.
\<close>

definition do_json ::
  "'w transport \<Rightarrow> go_client \<Rightarrow> string \<Rightarrow> string \<Rightarrow> json option \<Rightarrow> (json \<Rightarrow> 'd option) \<Rightarrow> 'w \<Rightarrow> 'w \<times> (err + 'd)" where
  "do_json T c meth path body dec w =
     (case send_request T ''lockr request'' (gc_token c) meth path (case body of None \<Rightarrow> [] | Some j \<Rightarrow> json_print j) w of
        (w', Inl e) \<Rightarrow> (w', Inl e)
      | (w', Inr resp) \<Rightarrow> (w', case json_decode (resp_body resp) of
           None \<Rightarrow> Inl ErrUnmarshal
         | Some j \<Rightarrow> (case dec j of None \<Rightarrow> Inl ErrUnmarshal | Some d \<Rightarrow> Inr d)))"

text \<open>
  Decoding into an empty interface turns every number into a float64. \<open>fl\<close> is the shortest text of the
  float64 that a literal rounds to (strconv.ParseFloat and the encoding of floats), None out of range.
\<close>

fun any_value :: "(string \<Rightarrow> string option) \<Rightarrow> json \<Rightarrow> json option" where
  "any_value fl (JNum s) = map_option JNum (fl s)"
| "any_value fl (JArr js) = map_option JArr (those (map (any_value fl) js))"
| "any_value fl (JObj ms) = map_option JObj (those (map (\<lambda>(k, j). map_option (Pair k) (any_value fl j)) ms))"
| "any_value fl j = Some j"

text \<open>The structs that answers are decoded into: the error, one string in the data, the data as a map.\<close>

definition dec_err :: "json \<Rightarrow> string option" where
  "dec_err j = (case members j of None \<Rightarrow> None | Some ms \<Rightarrow> obj_get ''error'' dec_str [] ms)"

definition dec_in :: "string \<Rightarrow> json \<Rightarrow> string \<Rightarrow> string option" where
  "dec_in f j z = (case members j of None \<Rightarrow> None | Some ms \<Rightarrow> obj_get f dec_str z ms)"

definition dec_data_str :: "string \<Rightarrow> json \<Rightarrow> string option" where
  "dec_data_str f j = (case members j of None \<Rightarrow> None | Some ms \<Rightarrow> obj_get ''data'' (dec_in f) [] ms)"

definition dec_map :: "(string \<Rightarrow> string option) \<Rightarrow> json \<Rightarrow> (string \<times> json) list \<Rightarrow> (string \<times> json) list option" where
  "dec_map fl j z = (case j of JNull \<Rightarrow> Some []
     | JObj ms \<Rightarrow> (case any_value fl j of Some (JObj ms') \<Rightarrow> Some (z @ ms') | _ \<Rightarrow> None)
     | _ \<Rightarrow> None)"

definition dec_pair :: "(json \<Rightarrow> 'a option) \<Rightarrow> (json \<Rightarrow> 'b option) \<Rightarrow> json \<Rightarrow> ('a \<times> 'b) option" where
  "dec_pair f g j = (case (f j, g j) of (Some a, Some b) \<Rightarrow> Some (a, b) | _ \<Rightarrow> None)"

definition dec_data_map :: "(string \<Rightarrow> string option) \<Rightarrow> json \<Rightarrow> (string \<times> json) list option" where
  "dec_data_map fl j = (case members j of None \<Rightarrow> None | Some ms \<Rightarrow> obj_get ''data'' (dec_map fl) [] ms)"

text \<open>A Go map filled from the members of an object: the last of a name counts.\<close>

definition map_entry :: "(string \<times> json) list \<Rightarrow> string \<Rightarrow> json option" where
  "map_entry ms k = map_of (rev ms) k"

definition strings_body :: "(string \<times> string) list \<Rightarrow> json option" where
  "strings_body kvs = Some (JObj (map (\<lambda>(k, v). (k, JStr v)) kvs))"

section \<open>Operations\<close>

definition client_authenticate ::
  "(bytes \<Rightarrow> bytes \<Rightarrow> bytes) \<Rightarrow> 'w transport \<Rightarrow> go_client \<Rightarrow> string \<Rightarrow> 'w \<Rightarrow> 'w \<times> (err + go_client) outcome" where
  "client_authenticate sign T c service w =
     (if gc_priv c = [] then (w, Done (Inl (ErrText ''no private key configured'')))
      else (case do_json T c ''POST'' ''/v1/auth/challenge'' (strings_body [(''service'', service)])
          (dec_data_str ''challenge'') w of
        (w1, Inl e) \<Rightarrow> (w1, Done (Inl (Wrapped ''get challenge'' e)))
      | (w1, Inr challenge) \<Rightarrow> (case hex_decode challenge of
           None \<Rightarrow> (w1, Done (Inl (Wrapped ''decode challenge'' (ErrText ''hex''))))
         | Some challenge_bytes \<Rightarrow>
             if length (gc_priv c) \<noteq> 64 then (w1, Panic ''ed25519: bad private key length'')
             else (case do_json T c ''POST'' ''/v1/auth/verify''
                 (strings_body [(''challenge'', challenge), (''signature'', hex_encode (sign (gc_priv c) challenge_bytes))])
                 (dec_data_str ''token'') w1 of
               (w2, Inl e) \<Rightarrow> (w2, Done (Inl (Wrapped ''verify challenge'' e)))
             | (w2, Inr token) \<Rightarrow> (w2, Done (Inr (c\<lparr>gc_token := token\<rparr>)))))))"

definition kv_url :: "string \<Rightarrow> string" where
  "kv_url path = ''/v1/secrets/kv/'' @ path"

definition client_kv_get ::
  "(string \<Rightarrow> string option) \<Rightarrow> 'w transport \<Rightarrow> go_client \<Rightarrow> string \<Rightarrow> int \<Rightarrow> 'w \<Rightarrow>
   'w \<times> (err + (string \<times> json) list)" where
  "client_kv_get fl T c path version w =
     (let url = kv_url path @ (if version > 0 then ''?version='' @ itoa version else []) in
      case do_json T c ''GET'' url None (dec_pair (dec_data_map fl) dec_err) w of
        (w', Inl e) \<Rightarrow> (w', Inl e)
      | (w', Inr (data, msg)) \<Rightarrow> (w',
          if msg \<noteq> [] then Inl (ErrText msg)
          else (case map_entry data ''value'' of Some (JObj val) \<Rightarrow> Inr val | _ \<Rightarrow> Inr data)))"

text \<open>KVSet and KVDelete decode the error of the answer and drop it.\<close>

definition client_kv_set ::
  "'w transport \<Rightarrow> go_client \<Rightarrow> string \<Rightarrow> json \<Rightarrow> 'w \<Rightarrow> 'w \<times> (err + unit)" where
  "client_kv_set T c path val w = (case do_json T c ''PUT'' (kv_url path) (Some val) dec_err w of
     (w', Inl e) \<Rightarrow> (w', Inl e) | (w', Inr _) \<Rightarrow> (w', Inr ()))"

definition client_kv_delete :: "'w transport \<Rightarrow> go_client \<Rightarrow> string \<Rightarrow> 'w \<Rightarrow> 'w \<times> (err + unit)" where
  "client_kv_delete T c path w = (case do_json T c ''DELETE'' (kv_url path) None dec_err w of
     (w', Inl e) \<Rightarrow> (w', Inl e) | (w', Inr _) \<Rightarrow> (w', Inr ()))"

definition transit_url :: "string \<Rightarrow> string \<Rightarrow> string" where
  "transit_url key_name op = ''/v1/secrets/transit/'' @ key_name @ op"

definition client_transit ::
  "string \<Rightarrow> string \<Rightarrow> string \<Rightarrow> 'w transport \<Rightarrow> go_client \<Rightarrow> string \<Rightarrow> string \<Rightarrow> 'w \<Rightarrow> 'w \<times> (err + string)" where
  "client_transit op field out T c key_name text w =
     (case do_json T c ''POST'' (transit_url key_name op) (strings_body [(field, text)])
         (dec_pair (dec_data_str out) dec_err) w of
        (w', Inl e) \<Rightarrow> (w', Inl e)
      | (w', Inr (result, msg)) \<Rightarrow> (w', if msg \<noteq> [] then Inl (ErrText msg) else Inr result))"

definition client_transit_encrypt :: "'w transport \<Rightarrow> go_client \<Rightarrow> string \<Rightarrow> string \<Rightarrow> 'w \<Rightarrow> 'w \<times> (err + string)" where
  "client_transit_encrypt = client_transit ''/encrypt'' ''plaintext'' ''ciphertext''"

definition client_transit_decrypt :: "'w transport \<Rightarrow> go_client \<Rightarrow> string \<Rightarrow> string \<Rightarrow> 'w \<Rightarrow> 'w \<times> (err + string)" where
  "client_transit_decrypt = client_transit ''/decrypt'' ''ciphertext'' ''plaintext''"

end
