(* ===== verification/Cli.thy ===== *)
theory Cli
  imports Go_Client Cli_Init
begin

text \<open>
  What the client commands of cmd/lockr/main.go share: flags, output, the HTTP client and its login with a
  key. The indentation of printed JSON and the order of its members are not modelled.
\<close>

section \<open>Flags and output\<close>

text \<open>
  \<open>cl_pem_ok\<close> is CertPool.AppendCertsFromPEM, \<open>cl_sign\<close> is ed25519.Sign, \<open>cl_float\<close> the text of a number
  that went through a float64. \<open>cl_mkdir\<close> and \<open>cl_write\<close> tell which directories can be made and which files
  written.
\<close>

record cli =
  cl_addr :: string
  cl_key :: string
  cl_identity :: string
  cl_ca :: string
  cl_token :: string
  cl_output :: string
  cl_files :: "string \<Rightarrow> bytes option"
  cl_pem_ok :: "bytes \<Rightarrow> bool"
  cl_stdin :: bytes
  cl_mkdir :: "string \<Rightarrow> bool"
  cl_write :: "string \<Rightarrow> bool"
  cl_sign :: "bytes \<Rightarrow> bytes \<Rightarrow> bytes"
  cl_float :: "string \<Rightarrow> string option"

definition env_or :: "(string \<Rightarrow> string) \<Rightarrow> string \<Rightarrow> string \<Rightarrow> string" where
  "env_or environ key fallback = (if environ key \<noteq> [] then environ key else fallback)"

text \<open>The flags as they are when none is given.\<close>

definition default_flags :: "(string \<Rightarrow> string) \<Rightarrow> cli \<Rightarrow> cli" where
  "default_flags environ f = f\<lparr>cl_addr := env_or environ ''LOCKR_ADDR'' ''https://localhost:8300'',
     cl_key := env_or environ ''LOCKR_KEY'' [], cl_identity := env_or environ ''LOCKR_SERVICE'' [],
     cl_ca := env_or environ ''LOCKR_CA'' [], cl_token := env_or environ ''LOCKR_TOKEN'' [], cl_output := ''text''\<rparr>"

text \<open>
  What a command does in the end: it prints (JSON, a line, a table of versions and times), prints nothing,
  saves a key file and goes on, returns an error, or exits at once with a message. The last two end
  the process with status 1.
\<close>

datatype cli_out = Shown json | Line "json option" | Table "(json option \<times> json option) list" | Text string
  | Quiet | Saved string bytes cli_out | Failed err | Exited string

fun exit_status :: "cli_out \<Rightarrow> nat" where
  "exit_status (Failed _) = 1"
| "exit_status (Exited _) = 1"
| "exit_status (Saved _ _ rest) = exit_status rest"
| "exit_status _ = 0"

type_synonym answer = "(string \<times> json) list"

definition print_response :: "cli \<Rightarrow> answer \<Rightarrow> cli_out" where
  "print_response f resp =
     (if cl_output f = ''json'' then Shown (JObj resp)
      else (case map_entry resp ''data'' of
         Some d \<Rightarrow> if d \<noteq> JNull then Shown d
           else (case map_entry resp ''error'' of Some (JStr msg) \<Rightarrow> Exited msg | _ \<Rightarrow> Quiet)
       | None \<Rightarrow> (case map_entry resp ''error'' of Some (JStr msg) \<Rightarrow> Exited msg | _ \<Rightarrow> Quiet)))"

section \<open>The HTTP client\<close>

definition build_tls :: "cli \<Rightarrow> err option" where
  "build_tls f =
     (if \<not> has_prefix (cl_addr f) ''https://'' then None
      else if cl_ca f = [] then Some (ErrText ''--ca is required when connecting to HTTPS'')
      else (case cl_files f (cl_ca f) of
         None \<Rightarrow> Some (Wrapped ''read CA certificate'' (ErrFile (cl_ca f)))
       | Some pem \<Rightarrow> if \<not> cl_pem_ok f pem then Some (ErrText (''no valid certificates found in '' @ cl_ca f)) else None))"

text \<open>lockrClient.do: the answer as a map, whatever its status.\<close>

definition cli_do ::
  "cli \<Rightarrow> 'w transport \<Rightarrow> string \<Rightarrow> string \<Rightarrow> string \<Rightarrow> json option \<Rightarrow> 'w \<Rightarrow> 'w \<times> (err + answer)" where
  "cli_do f T token meth path body w =
     (case send_request T ''request failed'' token meth path (case body of None \<Rightarrow> [] | Some j \<Rightarrow> json_print j) w of
        (w', Inl e) \<Rightarrow> (w', Inl e)
      | (w', Inr resp) \<Rightarrow> (w', case json_decode (resp_body resp) of
           None \<Rightarrow> Inl (Wrapped ''decode response'' ErrUnmarshal)
         | Some j \<Rightarrow> (case dec_map (cl_float f) j [] of
              None \<Rightarrow> Inl (Wrapped ''decode response'' ErrUnmarshal) | Some ms \<Rightarrow> Inr ms)))"

definition response_data_string :: "answer \<Rightarrow> string \<Rightarrow> err + string" where
  "response_data_string resp field = (case map_entry resp ''error'' of
     Some (JStr (c # msg)) \<Rightarrow> Inl (ErrText (c # msg))
   | _ \<Rightarrow> (case map_entry resp ''data'' of
        Some (JObj d) \<Rightarrow> (case map_entry d field of
           Some (JStr (c # val)) \<Rightarrow> Inr (c # val)
         | _ \<Rightarrow> Inl (ErrText (''missing data.'' @ field)))
      | _ \<Rightarrow> Inl (ErrText ''missing data object'')))"

definition authenticate_ed25519 :: "cli \<Rightarrow> 'w transport \<Rightarrow> string \<Rightarrow> string \<Rightarrow> 'w \<Rightarrow> 'w \<times> (err + string)" where
  "authenticate_ed25519 f T identity key_path w = (case cl_files f key_path of
     None \<Rightarrow> (w, Inl (Wrapped ''read private key'' (ErrFile key_path)))
   | Some data \<Rightarrow> (case hex_decode (trim_space data) of
        None \<Rightarrow> (w, Inl (Wrapped ''decode private key'' (ErrText ''hex'')))
      | Some priv \<Rightarrow>
          if length priv \<noteq> 64 then (w, Inl (ErrText ''invalid Ed25519 private key length''))
          else (case cli_do f T [] ''POST'' ''/v1/auth/challenge'' (strings_body [(''service'', identity)]) w of
            (w1, Inl e) \<Rightarrow> (w1, Inl (Wrapped ''request challenge'' e))
          | (w1, Inr resp) \<Rightarrow> (case response_data_string resp ''challenge'' of
               Inl e \<Rightarrow> (w1, Inl (Wrapped ''read challenge response'' e))
             | Inr hex \<Rightarrow> (case hex_decode hex of
                  None \<Rightarrow> (w1, Inl (Wrapped ''decode challenge'' (ErrText ''hex'')))
                | Some challenge \<Rightarrow>
                   (case cli_do f T [] ''POST'' ''/v1/auth/verify''
                       (strings_body [(''challenge'', hex), (''signature'', hex_encode (cl_sign f priv challenge))]) w1 of
                      (w2, Inl e) \<Rightarrow> (w2, Inl (Wrapped ''verify challenge'' e))
                    | (w2, Inr resp2) \<Rightarrow> (w2, case response_data_string resp2 ''token'' of
                         Inl e \<Rightarrow> Inl (Wrapped ''read verify response'' e) | Inr token \<Rightarrow> Inr token)))))))"

text \<open>
  The two kinds of client: a service client needs a token or a key and an identity. A TLS configuration
  that cannot be built exits the process.
\<close>

definition with_admin_client :: "cli \<Rightarrow> (string \<Rightarrow> 'w \<Rightarrow> 'w \<times> cli_out) \<Rightarrow> 'w \<Rightarrow> 'w \<times> cli_out" where
  "with_admin_client f k w = (case build_tls f of Some _ \<Rightarrow> (w, Exited ''tls'') | None \<Rightarrow> k (cl_token f) w)"

definition with_service_client :: "cli \<Rightarrow> 'w transport \<Rightarrow> (string \<Rightarrow> 'w \<Rightarrow> 'w \<times> cli_out) \<Rightarrow> 'w \<Rightarrow> 'w \<times> cli_out" where
  "with_service_client f T k w = (case build_tls f of
     Some _ \<Rightarrow> (w, Exited ''tls'')
   | None \<Rightarrow>
       if cl_token f \<noteq> [] then k (cl_token f) w
       else if cl_key f = [] then (w, Failed (ErrText ''service commands require --key/LOCKR_KEY or --token/LOCKR_TOKEN''))
       else if cl_identity f = []
       then (w, Failed (ErrText ''service commands require --identity/LOCKR_SERVICE when using --key''))
       else (case authenticate_ed25519 f T (cl_identity f) (cl_key f) w of
          (w', Inl e) \<Rightarrow> (w', Failed e) | (w', Inr token) \<Rightarrow> k token w'))"

text \<open>Most commands send one request and print its answer.\<close>

definition request_print ::
  "cli \<Rightarrow> 'w transport \<Rightarrow> string \<Rightarrow> string \<Rightarrow> json option \<Rightarrow> string \<Rightarrow> 'w \<Rightarrow> 'w \<times> cli_out" where
  "request_print f T meth path body token w = (case cli_do f T token meth path body w of
     (w', Inl e) \<Rightarrow> (w', Failed e) | (w', Inr resp) \<Rightarrow> (w', print_response f resp))"

end
