(* ===== verification/Cli_Commands.thy ===== *)
theory Cli_Commands
  imports Cli
begin

text \<open>
  The client commands of cmd/lockr/main.go, one definition per command. Cobra's parsing of the command
  line is not modelled: a command is a function of the values of its arguments and flags. A map of strings is
  sent with its members in the order of their names, as encoding/json does.
\<close>

section \<open>Secrets\<close>

definition get_cmd :: "cli \<Rightarrow> 'w transport \<Rightarrow> string \<Rightarrow> int \<Rightarrow> string \<Rightarrow> 'w \<Rightarrow> 'w \<times> cli_out" where
  "get_cmd f T path version field = with_service_client f T (\<lambda>token w.
     (let url = kv_url path @ (if version > 0 then ''?version='' @ itoa version else []) in
      case cli_do f T token ''GET'' url None w of
        (w', Inl e) \<Rightarrow> (w', Failed e)
      | (w', Inr resp) \<Rightarrow> (w',
          if field = [] then print_response f resp
          else (case map_entry resp ''data'' of
             Some (JObj data) \<Rightarrow> (case map_entry data ''value'' of
                Some (JObj val) \<Rightarrow> Line (map_entry val field)
              | _ \<Rightarrow> print_response f resp)
           | _ \<Rightarrow> print_response f resp))))"

text \<open>The value must be one JSON text; it is sent as it is.\<close>

definition set_cmd :: "cli \<Rightarrow> 'w transport \<Rightarrow> string \<Rightarrow> string \<Rightarrow> 'w \<Rightarrow> 'w \<times> cli_out" where
  "set_cmd f T path text w = (case json_parse text of
     None \<Rightarrow> (w, Failed (Wrapped ''value must be valid JSON'' ErrUnmarshal))
   | Some val \<Rightarrow> with_service_client f T (request_print f T ''PUT'' (kv_url path) (Some val)) w)"

definition delete_cmd :: "cli \<Rightarrow> 'w transport \<Rightarrow> string \<Rightarrow> 'w \<Rightarrow> 'w \<times> cli_out" where
  "delete_cmd f T path = with_service_client f T (request_print f T ''DELETE'' (kv_url path) None)"

definition table_row :: "json \<Rightarrow> (json option \<times> json option) option" where
  "table_row v = (case v of
     JObj vm \<Rightarrow> Some (map_entry vm ''version'', map_entry vm ''created_at'') | _ \<Rightarrow> None)"

definition versions_cmd :: "cli \<Rightarrow> 'w transport \<Rightarrow> string \<Rightarrow> 'w \<Rightarrow> 'w \<times> cli_out" where
  "versions_cmd f T path = with_service_client f T (\<lambda>token w.
     case cli_do f T token ''GET'' (kv_url path @ ''/versions'') None w of
       (w', Inl e) \<Rightarrow> (w', Failed e)
     | (w', Inr resp) \<Rightarrow> (w',
         if cl_output f = ''json'' then print_response f resp
         else (case map_entry resp ''data'' of
            Some (JObj data) \<Rightarrow> (case map_entry data ''versions'' of
               Some (JArr (v # vs)) \<Rightarrow> Table (List.map_filter table_row (v # vs))
             | _ \<Rightarrow> Text ''no versions found'')
          | _ \<Rightarrow> print_response f resp)))"

definition rollback_cmd :: "cli \<Rightarrow> 'w transport \<Rightarrow> string \<Rightarrow> int \<Rightarrow> 'w \<Rightarrow> 'w \<times> cli_out" where
  "rollback_cmd f T path to_version w =
     (if to_version < 1 then (w, Failed (ErrText ''--to must be >= 1''))
      else with_service_client f T (request_print f T ''POST'' (kv_url path @ ''/rollback'')
        (Some (JObj [(''version'', JNum (itoa to_version))]))) w)"

definition list_cmd :: "cli \<Rightarrow> 'w transport \<Rightarrow> string \<Rightarrow> 'w \<Rightarrow> 'w \<times> cli_out" where
  "list_cmd f T arg =
     (let path = (if arg = [] \<or> last arg \<noteq> CHR ''/'' then arg @ ''/'' else arg) in
      with_service_client f T (request_print f T ''GET'' (kv_url path) None))"

definition transit_encrypt_cmd :: "cli \<Rightarrow> 'w transport \<Rightarrow> string \<Rightarrow> string \<Rightarrow> 'w \<Rightarrow> 'w \<times> cli_out" where
  "transit_encrypt_cmd f T key_name plaintext = with_service_client f T
     (request_print f T ''POST'' (transit_url key_name ''/encrypt'') (strings_body [(''plaintext'', plaintext)]))"

definition transit_decrypt_cmd :: "cli \<Rightarrow> 'w transport \<Rightarrow> string \<Rightarrow> string \<Rightarrow> 'w \<Rightarrow> 'w \<times> cli_out" where
  "transit_decrypt_cmd f T key_name ct = with_service_client f T
     (request_print f T ''POST'' (transit_url key_name ''/decrypt'') (strings_body [(''ciphertext'', ct)]))"

definition transit_rotate_cmd :: "cli \<Rightarrow> 'w transport \<Rightarrow> string \<Rightarrow> 'w \<Rightarrow> 'w \<times> cli_out" where
  "transit_rotate_cmd f T key_name = with_service_client f T
     (request_print f T ''POST'' (transit_url key_name ''/rotate'') None)"

definition debug_cmd :: "cli \<Rightarrow> 'w transport \<Rightarrow> 'w \<Rightarrow> 'w \<times> cli_out" where
  "debug_cmd f T = with_service_client f T (request_print f T ''GET'' ''/v1/auth/whoami'' None)"

section \<open>Administration\<close>

text \<open>saveEnrollmentKeys: the private key of the answer, in a file of the directory.\<close>

definition save_enrollment_keys :: "cli \<Rightarrow> string \<Rightarrow> string \<Rightarrow> answer \<Rightarrow> cli_out" where
  "save_enrollment_keys f dir service resp =
     (if \<not> cl_mkdir f dir then Failed (ErrFile dir)
      else (case map_entry resp ''data'' of
         Some (JObj data) \<Rightarrow>
           (case hex_decode (case map_entry data ''private_key'' of Some (JStr hex) \<Rightarrow> hex | _ \<Rightarrow> []) of
              None \<Rightarrow> Failed (Wrapped ''decode private key'' (ErrText ''hex''))
            | Some priv \<Rightarrow> (let key_path = path_join dir (service @ ''.key'') in
                if \<not> cl_write f key_path then Failed (ErrFile key_path)
                else Saved key_path (hex_encode priv) (print_response f resp)))
       | _ \<Rightarrow> Failed (ErrText ''unexpected response format'')))"

definition enroll_cmd ::
  "cli \<Rightarrow> 'w transport \<Rightarrow> string \<Rightarrow> string \<Rightarrow> string \<Rightarrow> string \<Rightarrow> 'w \<Rightarrow> 'w \<times> cli_out" where
  "enroll_cmd f T service auth_method policy_arg output_dir = with_admin_client f (\<lambda>token w.
     case cli_do f T token ''POST'' ''/v1/sys/enroll''
         (strings_body [(''auth_method'', auth_method), (''policy'', policy_arg), (''service'', service)]) w of
       (w', Inl e) \<Rightarrow> (w', Failed e)
     | (w', Inr resp) \<Rightarrow> (w',
         if output_dir \<noteq> [] \<and> auth_method \<noteq> ''totp'' then save_enrollment_keys f output_dir service resp
         else print_response f resp))"

definition revoke_cmd :: "cli \<Rightarrow> 'w transport \<Rightarrow> string \<Rightarrow> 'w \<Rightarrow> 'w \<times> cli_out" where
  "revoke_cmd f T service = with_admin_client f (request_print f T ''DELETE'' (''/v1/sys/revoke/'' @ service) None)"

definition status_cmd :: "cli \<Rightarrow> 'w transport \<Rightarrow> 'w \<Rightarrow> 'w \<times> cli_out" where
  "status_cmd f T = with_admin_client f (request_print f T ''GET'' ''/v1/sys/health'' None)"

definition admin_create_cmd :: "cli \<Rightarrow> 'w transport \<Rightarrow> string \<Rightarrow> 'w \<Rightarrow> 'w \<times> cli_out" where
  "admin_create_cmd f T name = with_admin_client f
     (request_print f T ''POST'' ''/v1/sys/admin/create'' (strings_body [(''name'', name)]))"

definition admin_revoke_cmd :: "cli \<Rightarrow> 'w transport \<Rightarrow> string \<Rightarrow> 'w \<Rightarrow> 'w \<times> cli_out" where
  "admin_revoke_cmd f T name = with_admin_client f (request_print f T ''DELETE'' (''/v1/sys/admin/'' @ name) None)"

text \<open>The filters of the audit log go into the query as they were given.\<close>

definition audit_url :: "string \<Rightarrow> string \<Rightarrow> string \<Rightarrow> int \<Rightarrow> string" where
  "audit_url service since path limit = ''/v1/sys/audit?''
     @ (if service \<noteq> [] then ''service='' @ service @ ''&'' else [])
     @ (if since \<noteq> [] then ''since='' @ since @ ''&'' else [])
     @ (if path \<noteq> [] then ''path='' @ path @ ''&'' else [])
     @ (if limit > 0 then ''limit='' @ itoa limit else [])"

definition audit_cmd :: "cli \<Rightarrow> 'w transport \<Rightarrow> string \<Rightarrow> string \<Rightarrow> string \<Rightarrow> int \<Rightarrow> 'w \<Rightarrow> 'w \<times> cli_out" where
  "audit_cmd f T service since path limit = with_admin_client f
     (request_print f T ''GET'' (audit_url service since path limit) None)"

definition policy_cmd :: "cli \<Rightarrow> 'w transport \<Rightarrow> 'w \<Rightarrow> 'w \<times> cli_out" where
  "policy_cmd f T = with_admin_client f (request_print f T ''POST'' ''/v1/sys/policy/reload'' None)"

section \<open>Users\<close>

text \<open>The password is a flag or, without it, what is typed at the prompt.\<close>

definition ask_password :: "cli \<Rightarrow> string \<Rightarrow> err + bytes" where
  "ask_password f flag = (if flag \<noteq> [] then Inr flag else read_passphrase (cl_stdin f))"

definition user_create_cmd :: "cli \<Rightarrow> 'w transport \<Rightarrow> string \<Rightarrow> string \<Rightarrow> string \<Rightarrow> 'w \<Rightarrow> 'w \<times> cli_out" where
  "user_create_cmd f T username policy flag w = (case ask_password f flag of
     Inl e \<Rightarrow> (w, Failed e)
   | Inr password \<Rightarrow> with_admin_client f (request_print f T ''POST'' ''/v1/sys/users''
       (strings_body [(''password'', password), (''policy'', policy), (''username'', username)])) w)"

definition user_list_cmd :: "cli \<Rightarrow> 'w transport \<Rightarrow> 'w \<Rightarrow> 'w \<times> cli_out" where
  "user_list_cmd f T = with_admin_client f (request_print f T ''GET'' ''/v1/sys/users'' None)"

definition user_delete_cmd :: "cli \<Rightarrow> 'w transport \<Rightarrow> string \<Rightarrow> 'w \<Rightarrow> 'w \<times> cli_out" where
  "user_delete_cmd f T username = with_admin_client f
     (request_print f T ''DELETE'' (''/v1/sys/users/'' @ username) None)"

definition user_set_policy_cmd :: "cli \<Rightarrow> 'w transport \<Rightarrow> string \<Rightarrow> string \<Rightarrow> 'w \<Rightarrow> 'w \<times> cli_out" where
  "user_set_policy_cmd f T username policy = with_admin_client f (request_print f T ''PUT''
     (''/v1/sys/users/'' @ username @ ''/policy'') (strings_body [(''policy'', policy)]))"

definition user_reset_password_cmd :: "cli \<Rightarrow> 'w transport \<Rightarrow> string \<Rightarrow> string \<Rightarrow> 'w \<Rightarrow> 'w \<times> cli_out" where
  "user_reset_password_cmd f T username flag w = (case ask_password f flag of
     Inl e \<Rightarrow> (w, Failed e)
   | Inr password \<Rightarrow> with_admin_client f (request_print f T ''PUT''
       (''/v1/sys/users/'' @ username @ ''/password'') (strings_body [(''password'', password)])) w)"

text \<open>The login sends no token, and prints the one it gets.\<close>

definition login_cmd :: "cli \<Rightarrow> 'w transport \<Rightarrow> string \<Rightarrow> string \<Rightarrow> 'w \<Rightarrow> 'w \<times> cli_out" where
  "login_cmd f T username flag w = (case ask_password f flag of
     Inl e \<Rightarrow> (w, Failed e)
   | Inr password \<Rightarrow> with_admin_client f (\<lambda>_ w.
       case cli_do f T [] ''POST'' ''/v1/auth/login''
           (strings_body [(''password'', password), (''username'', username)]) w of
         (w', Inl e) \<Rightarrow> (w', Failed e)
       | (w', Inr resp) \<Rightarrow> (w', case map_entry resp ''error'' of
            Some (JStr msg) \<Rightarrow> Failed (ErrText msg)
          | _ \<Rightarrow> (case map_entry resp ''data'' of
               Some (JObj data) \<Rightarrow> (case map_entry data ''token'' of
                  Some (JStr token) \<Rightarrow> Text token
                | _ \<Rightarrow> print_response f resp)
             | _ \<Rightarrow> print_response f resp))) w)"

end
