(* ===== verification/Client_Link.thy ===== *)
theory Client_Link
  imports Cli_Commands Api_Props
begin

text \<open>
  Both ends together: the clients talking to the server of Api_Router over a connection, and how they
  read its answers.
\<close>

section \<open>The connection\<close>

text \<open>
  The state is how many requests were sent and the server. What the outside gives is told for each
  request. A handler that panics closes the connection. A redirect of the muxes would be followed by
  http.Client, which is not modelled: the facts below are about requests that the muxes route.
\<close>

definition server_link :: "'s env \<Rightarrow> (nat \<Rightarrow> outside) \<Rightarrow> string \<Rightarrow> (nat \<times> 's server) transport" where
  "server_link v outs addr w r = (case w of (n, s) \<Rightarrow>
     (case serve v (outs n) (r\<lparr>req_remote := addr\<rparr>) s of
        (s', _, Done x) \<Rightarrow> ((Suc n, s'), Inr x)
      | (s', _, Panic _) \<Rightarrow> ((Suc n, s'), Inl (ErrText ''EOF''))))"

text \<open>A request of a client, as the server sees it.\<close>

definition client_request :: "string \<Rightarrow> string \<Rightarrow> string \<Rightarrow> string \<Rightarrow> bytes \<Rightarrow> request" where
  "client_request addr token meth path body = \<lparr>req_method = meth, req_path = path, req_escaped = path, req_query = [],
     req_headers = client_headers token, req_body = body, req_remote = addr\<rparr>"

lemma client_request_simps [simp]:
  "req_method (client_request addr tok meth path body) = meth" "req_path (client_request addr tok meth path body) = path"
  "req_escaped (client_request addr tok meth path body) = path" "req_body (client_request addr tok meth path body) = body"
  "req_query (client_request addr tok meth path body) = []"
  by (simp_all add: client_request_def)

lemma client_request_token [simp]: "extract_token (client_request addr tok meth path body) = tok"
proof (cases "tok = []")
  case False
  have "has_prefix (''Bearer '' @ tok) ''Bearer ''" by (rule has_prefix_append)
  with False show ?thesis
    by (simp add: extract_token_def client_request_def client_headers_def header_get_def trim_prefix_def Let_def)
qed (simp add: extract_token_def client_request_def client_headers_def header_get_def has_prefix_def)

lemma sent:
  assumes "plain_target path" "header_value_ok tok"
    "serve v (outs n) (client_request addr tok meth path body) s = (s', rid, Done x)"
  shows "send_request (server_link v outs addr) label tok meth path body (n, s) = ((Suc n, s'), Inr x)"
  using assms by (simp add: send_request_def plain_request server_link_def client_request_def)

lemma target_of_kv [simp]: "plain_target (kv_url path) \<longleftrightarrow> plain_target path"
proof -
  have "list_all target_char ''/v1/secrets/kv/''" by code_simp
  then show ?thesis unfolding kv_url_def plain_target_def list_all_append by blast
qed

section \<open>Answers\<close>

lemma json_decode_encode:
  assumes "json_nums_ok j" "json_depth j \<le> max_depth"
  shows "json_decode (encode_body (Some j)) = Some (json_sanitize j)"
proof -
  have "num_end [CHR 0x0A]" by code_simp
  from parse_value_print(1)[OF assms(1) this, of "2 * (length (json_print j) + 1) + 2"] assms(2) show ?thesis
    by (simp add: json_decode_def encode_body_def json_depth_sanitize)
qed

lemma envelope_names: "sanitize ''data'' = ''data''" "sanitize ''error'' = ''error''" "sanitize ''request_id'' = ''request_id''"
  by (simp_all add: sanitize_id utf8_ok_all_ascii is_ascii_def)

lemma decode_error:
  "json_decode (resp_body (json_response st (Some (envelope JNull (JStr msg) rid)))) =
   Some (envelope JNull (JStr (sanitize msg)) (sanitize rid))"
  by (simp add: json_response_def json_decode_encode envelope_def envelope_names max_depth_def)

lemma decode_answer:
  assumes "json_ok d" "json_depth d < max_depth"
  shows "json_decode (resp_body (write_json rid st (Some d))) = Some (envelope d JNull (sanitize rid))"
  using assms by (simp add: write_json_def json_response_def json_decode_encode envelope_def json_ok_def json_sanitize_id envelope_names)

text \<open>What the structs of the client library take from an envelope.\<close>

lemma read_envelope:
  "dec_err (envelope d (JStr msg) rid) = Some msg" "dec_err (envelope d JNull rid) = Some []"
  "dec_data_str f (envelope JNull e rid) = Some []" "dec_data_str f (envelope (JObj ms) e rid) = obj_get f dec_str [] ms"
  "dec_data_map fl (envelope JNull e rid) = Some []"
  "dec_data_map fl (envelope (JObj ms) e rid) = (case any_value fl (JObj ms) of Some (JObj ms') \<Rightarrow> Some ms' | _ \<Rightarrow> None)"
  by (simp_all add: dec_err_def dec_data_str_def dec_data_map_def dec_map_def dec_in_def envelope_def dec_str_def
      members_def split: option.split json.split)

text \<open>doJSON on a server that answers.\<close>

lemma do_json_answered:
  assumes "plain_target path" "header_value_ok (gc_token c)"
    "serve v (outs n) (client_request addr (gc_token c) meth path (case body of None \<Rightarrow> [] | Some j \<Rightarrow> json_print j)) s =
       (s', rid, Done x)"
    "json_decode (resp_body x) = Some j" "dec j = Some d"
  shows "do_json (server_link v outs addr) c meth path body dec (n, s) = ((Suc n, s'), Inr d)"
  using sent[where outs = outs and n = n, OF assms(1-3)] assms(4,5) by (simp add: do_json_def)

end
