(* ===== verification/Client_Props.thy ===== *)
theory Client_Props
  imports Client_Link Api_Secrets
begin

text \<open>
  What the clients make of the server's answers: secrets written by one call are read by another, and
  what becomes of a refusal in the client library and in the commands.
\<close>

section \<open>Requests on a secret\<close>

text \<open>A secret's URL that the muxes do not clean is routed to the engine.\<close>

lemma segment_names:
  "segment_text ''v1'' = ''v1''" "segment_text ''secrets'' = ''secrets''" "segment_text ''kv'' = ''kv''"
  by code_simp+

lemma kv_segments: "\<exists>x xs. path_segments (kv_url path) = ''v1'' # ''secrets'' # ''kv'' # x # xs"
proof -
  have "\<exists>x xs. path_segments (CHR ''/'' # path) = x # xs"
    by (cases "path = []") (simp_all add: path_segments.simps[of "CHR ''/'' # path"] path_segments.simps[of "''/''"])
  then show ?thesis
    by (simp add: kv_url_def path_segments.simps[of "CHR ''/'' # _ # _"] segment_names)
qed

lemma kv_routed:
  assumes "clean_url (kv_url path) = kv_url path" "req_escaped r = kv_url path" "req_method r \<noteq> ''CONNECT''"
  shows "mux_route public_routes r = MuxHandler PProtected" "mux_route authed_routes r = MuxHandler RKV"
proof -
  obtain x xs where g: "path_segments (kv_url path) = [''v1''] @ ''secrets'' # ''kv'' # x # xs"
      "path_segments (kv_url path) = [''v1'', ''secrets'', ''kv''] @ x # xs"
    using kv_segments by fastforce
  have p: "map_of public_routes (''v1'' # ''secrets'' # ys, b) = None" for ys b by (simp add: public_routes_def)
  have a: "map_of authed_routes (''v1'' # ''secrets'' # ''kv'' # y # ys, b) = None" for y ys b by (simp add: authed_routes_def)
  have fp: "mux_find public_routes [] (path_segments (kv_url path)) = Some PProtected" unfolding g(1)
  proof (rule mux_find_subtree)
    fix pre' post' assume "''secrets'' # ''kv'' # x # xs = pre' @ post'" "pre' \<noteq> []"
    then obtain ys where "pre' = ''secrets'' # ys" by (cases pre') auto
    then show "map_of public_routes ([] @ [''v1''] @ pre', post' \<noteq> []) = None" using p by simp
  qed (simp_all add: public_routes_def)
  have fa: "mux_find authed_routes [] (path_segments (kv_url path)) = Some RKV" unfolding g(2)
  proof (rule mux_find_subtree)
    fix pre' post' assume "x # xs = pre' @ post'" "pre' \<noteq> []"
    then obtain ys where "pre' = x # ys" by (cases pre') auto
    then show "map_of authed_routes ([] @ [''v1'', ''secrets'', ''kv''] @ pre', post' \<noteq> []) = None" using a by simp
  qed (simp_all add: authed_routes_def)
  have "kv_url path \<noteq> ''*''" by (simp add: kv_url_def)
  then show "mux_route public_routes r = MuxHandler PProtected" "mux_route authed_routes r = MuxHandler RKV"
    using assms fp fa p a g by (simp_all add: mux_route_def Let_def)
qed

lemma kv_object_of_url: "trim_prefix (kv_url path) kv_prefix = path"
  using has_prefix_append[of kv_prefix path] by (simp add: kv_url_def kv_prefix_def trim_prefix_def)

context api
begin

lemma put_refused:
  assumes "clean_url (kv_url path) = kv_url path" "req_escaped r = kv_url path" "req_path r = kv_url path"
    and "req_method r = ''PUT''" and "authenticate v out r s = (s1, Inr a)"
    and "\<not> policy_allowed (sv_engine s) (as_policy a) (''secrets/kv/'' @ path) CapWrite"
  obtains s' rid where "serve v out r s = (s', rid, Done (write_error_rid rid 403 ''permission denied''))"
    "\<And>k. \<not> trail_key k \<Longrightarrow> E (sv_db s') k = E (sv_db s) k"
proof -
  note rt = kv_routed[OF assms(1,2)]
  have m: "req_method r \<noteq> ''CONNECT''" using assms(4) by simp
  have n: "needs_kv r = Some (''secrets/kv/'' @ path, CapWrite)"
    using assms(3,4) by (simp add: needs_kv_def kv_object_of_url kv_object_def)
  have d: "\<not> allowed_here (authed_ctx out a) s1 (''secrets/kv/'' @ path) CapWrite"
    using assms(6) authenticate_step(2)[OF assms(5)] by (simp add: allowed_here_def)
  have h: "route_handler RKV v out r (authed_ctx out a) s1 =
      (s1, Done (write_error_rid (ctx_request_id (first_ctx out)) 403 ''permission denied''))"
    using kv_refused[OF n d] by (simp add: permission_denied_def refuse_rid_def get_request_id_def)
  from serve_answered[OF rt(1)[OF m] assms(5) rt(2)[OF m] h] obtain s' where s':
    "serve v out r s = (s', ctx_request_id (first_ctx out),
       Done (write_error_rid (ctx_request_id (first_ctx out)) 403 ''permission denied''))" by blast
  have k: "\<forall>k. \<not> trail_key k \<longrightarrow> E (sv_db s') k = E (sv_db s) k"
    using refused_quiet[OF s' rt(1)[OF m] assms(5) rt(2)[OF m], of 403] n assms(6) by auto
  show thesis by (rule that[OF s']) (use k in blast)
qed

end

section \<open>A demonstration\<close>

lemma session_token_header:
  assumes "session_issue B P ttl s t rng i m p = Inr (s', token)"
  shows "header_value_ok token"
proof -
  obtain raw where t: "token = sessionTokenPrefix @ raw_url_encode raw"
    using assms by (auto simp: session_issue_def Let_def split: sum.splits)
  have "header_value_ok sessionTokenPrefix" by code_simp
  moreover have "list_all (\<lambda>c. \<not> is_control c) (pad_char # b64_url)" by code_simp
  then have "list_all (\<lambda>c. \<not> is_control c) (raw_url_encode raw)"
    by (rule list_all_subset) (use b64_encode_chars[of b64_url False raw] in \<open>auto simp: b64_url_def\<close>)
  ultimately show ?thesis unfolding t header_value_ok_def list_all_append by (auto simp: list_all_iff)
qed

text \<open>A caller with a session for the first minute of the demonstration server.\<close>

lemma demo_caller:
  assumes "utf8_ok identity" "utf8_ok meth" "utf8_ok pol"
  obtains db token where "header_value_ok token" "token \<noteq> []" "\<And>k. \<not> token_key k \<Longrightarrow> map_of db k = None"
    "\<And>t addr m path body. 0 \<le> t + 1 \<Longrightarrow> t + 1 \<le> minute \<Longrightarrow>
       authenticate demo_env (demo_out t) (client_request addr token m path body) (demo_server db) =
         (demo_server db, Inr \<lparr>as_identity = identity, as_method = meth, as_policy = pol\<rparr>)"
proof (rule demo_session[OF assms])
  fix db token
  assume i: "session_issue mem_badger demo_prims hour [] 0 demo_rng identity meth pol = Inr (db, token)"
    and p: "has_prefix token ''lvt_''" "token \<noteq> []" and k: "\<And>k. \<not> token_key k \<Longrightarrow> map_of db k = None"
    and va: "\<And>t. 0 \<le> t \<Longrightarrow> t \<le> minute \<Longrightarrow> \<exists>h. session_validate mem_badger demo_prims db t token = (db, Inr
       \<lparr>sess_identity = identity, sess_method = meth, sess_policy = pol, sess_issued = 0, sess_expires = hour, sess_hash = h\<rparr>)"
  have "authenticate demo_env (demo_out t) (client_request addr token m path body) (demo_server db) =
         (demo_server db, Inr \<lparr>as_identity = identity, as_method = meth, as_policy = pol\<rparr>)"
    if "0 \<le> t + 1" "t + 1 \<le> minute" for t addr m path body
  proof -
    obtain h where "session_validate mem_badger demo_prims db (t + 1) token = (db, Inr
       \<lparr>sess_identity = identity, sess_method = meth, sess_policy = pol, sess_issued = 0, sess_expires = hour, sess_hash = h\<rparr>)"
      using va[OF \<open>0 \<le> t + 1\<close> \<open>t + 1 \<le> minute\<close>] by blast
    then show ?thesis using p by (simp add: authenticate_def Let_def demo_server_def)
  qed
  from that[OF session_token_header[OF i] p(2) k this] show thesis by blast
qed

lemma demo_secret: "plain_target ''a''" "clean_url (kv_url ''a'') = kv_url ''a''"
  "json_print (JStr ''x'') = [dquote, CHR ''x'', dquote]" "json_parse [dquote, CHR ''x'', dquote] = Some (JStr ''x'')"
  by code_simp+

lemma demo_readonly: "\<not> policy_allowed (new_engine ''policies'') ''readonly'' (''secrets/kv/'' @ ''a'') CapWrite"
  by code_simp

section \<open>Refusals\<close>

lemma decode_refusal:
  "json_decode (resp_body (write_error_rid rid st msg)) = Some (envelope JNull (JStr (sanitize msg)) (sanitize rid))"
  by (simp add: write_error_rid_def decode_error)

lemma denied_text [simp]: "sanitize ''permission denied'' = ''permission denied''"
  by (simp add: sanitize_id utf8_ok_all_ascii is_ascii_def)

text \<open>
  C18: KVSet of the client library hides a refusal: when the policy of the caller does not grant the write,
  the server answers 403 and no secret changes, but the call returns without an error.
\<close>

theorem client_set_hides_refusal:
  assumes "badger_laws (env_db v) E" and "prims_laws (env_prims v)"
    and "plain_target path" and "clean_url (kv_url path) = kv_url path" and "header_value_ok (gc_token c)"
    and "authenticate v (outs n) (client_request addr (gc_token c) ''PUT'' (kv_url path) (json_print val)) s = (s1, Inr a)"
    and "\<not> policy_allowed (sv_engine s) (as_policy a) (''secrets/kv/'' @ path) CapWrite"
  shows "\<exists>s'. client_kv_set (server_link v outs addr) c path val (n, s) = ((Suc n, s'), Inr ())
    \<and> (\<forall>k. \<not> trail_key k \<longrightarrow> E (sv_db s') k = E (sv_db s) k)"
proof -
  let ?r = "client_request addr (gc_token c) ''PUT'' (kv_url path) (json_print val)"
  obtain s' rid where s: "serve v (outs n) ?r s = (s', rid, Done (write_error_rid rid 403 ''permission denied''))"
    and k: "\<And>k. \<not> trail_key k \<Longrightarrow> E (sv_db s') k = E (sv_db s) k"
    by (rule api.put_refused[OF apiI[OF assms(1,2)] assms(4) _ _ _ assms(6,7)]) simp_all
  have "do_json (server_link v outs addr) c ''PUT'' (kv_url path) (Some val) dec_err (n, s) =
      ((Suc n, s'), Inr ''permission denied'')"
    by (rule do_json_answered[OF _ assms(5) _ decode_refusal[of rid 403 "''permission denied''"]]) (use assms(3) s in \<open>simp_all add: read_envelope\<close>)
  with k show ?thesis by (simp add: client_kv_set_def)
qed

theorem client_set_hides_refusal_witness:
  "\<exists>db token s'. client_kv_set (server_link demo_env (\<lambda>n. demo_out (int n)) ''10.0.0.1'') \<lparr>gc_priv = [], gc_token = token\<rparr> ''a'' (JStr ''x'')
      (0, demo_server db) = ((1, s'), Inr ()) \<and> map_of (sv_db s') (kv_meta_key ''a'') = None"
proof -
  obtain db token where d: "header_value_ok token" "\<And>k. \<not> token_key k \<Longrightarrow> map_of db k = None"
    "\<And>t addr m path body. 0 \<le> t + 1 \<Longrightarrow> t + 1 \<le> minute \<Longrightarrow>
       authenticate demo_env (demo_out t) (client_request addr token m path body) (demo_server db) =
         (demo_server db, Inr \<lparr>as_identity = ''ada'', as_method = ''user'', as_policy = ''readonly''\<rparr>)"
    by (rule demo_caller[OF demo_identity_ok]) blast
  let ?c = "\<lparr>gc_priv = [], gc_token = token\<rparr>"
  have a: "authenticate demo_env (demo_out (int 0)) (client_request ''10.0.0.1'' (gc_token ?c) ''PUT'' (kv_url ''a'') (json_print (JStr ''x'')))
      (demo_server db) = (demo_server db, Inr \<lparr>as_identity = ''ada'', as_method = ''user'', as_policy = ''readonly''\<rparr>)"
    using d(3)[of 0] by (simp add: minute_def second_def)
  have "\<exists>s'. client_kv_set (server_link demo_env (\<lambda>n. demo_out (int n)) ''10.0.0.1'') ?c ''a'' (JStr ''x'') (0, demo_server db) = ((Suc 0, s'), Inr ())
      \<and> (\<forall>k. \<not> trail_key k \<longrightarrow> map_of (sv_db s') k = map_of (sv_db (demo_server db)) k)"
    by (rule client_set_hides_refusal[where outs = "\<lambda>n. demo_out (int n)" and n = 0, OF demo_env_laws demo_secret(1,2) _ a]) (use d(1) demo_readonly in simp_all)
  moreover have "\<not> trail_key (kv_meta_key ''a'')" "map_of db (kv_meta_key ''a'') = None"
    using d(2) zones_disjoint(1) zone_keys(1) trail_disjoint(1) by blast+
  ultimately show ?thesis by (intro exI[of _ db] exI[of _ token]) auto
qed

text \<open>
  C20: The command lockr set tells of the same refusal: it exits with status 1 and the server's message, but
  asked for JSON output it prints the answer and exits with status 0.
\<close>

theorem set_cmd_refused:
  assumes "badger_laws (env_db v) E" and "prims_laws (env_prims v)"
    and "plain_target path" and "clean_url (kv_url path) = kv_url path"
    and "build_tls f = None" and "cl_token f \<noteq> []" and "header_value_ok (cl_token f)" and "json_parse text = Some val"
    and "authenticate v (outs n) (client_request addr (cl_token f) ''PUT'' (kv_url path) (json_print val)) s = (s1, Inr a)"
    and "\<not> policy_allowed (sv_engine s) (as_policy a) (''secrets/kv/'' @ path) CapWrite"
  shows "\<exists>s' rid. set_cmd f (server_link v outs addr) path text (n, s) = ((Suc n, s'),
      if cl_output f = ''json'' then Shown (envelope JNull (JStr ''permission denied'') rid) else Exited ''permission denied'')
    \<and> (\<forall>k. \<not> trail_key k \<longrightarrow> E (sv_db s') k = E (sv_db s) k)"
proof -
  let ?r = "client_request addr (cl_token f) ''PUT'' (kv_url path) (json_print val)"
  obtain s' rid where s: "serve v (outs n) ?r s = (s', rid, Done (write_error_rid rid 403 ''permission denied''))"
    and k: "\<And>k. \<not> trail_key k \<Longrightarrow> E (sv_db s') k = E (sv_db s) k"
    by (rule api.put_refused[OF apiI[OF assms(1,2)] assms(4) _ _ _ assms(9,10)]) simp_all
  have t: "plain_target (kv_url path)" using assms(3) by simp
  have "cli_do f (server_link v outs addr) (cl_token f) ''PUT'' (kv_url path) (Some val) (n, s) =
      ((Suc n, s'), Inr [(''data'', JNull), (''error'', JStr ''permission denied''), (''request_id'', JStr (sanitize rid))])"
    using sent[where outs = outs and n = n, OF t assms(7) s]
    by (simp add: cli_do_def decode_refusal dec_map_def envelope_def)
  with k show ?thesis using assms(5,6,8)
    by (auto simp: set_cmd_def with_service_client_def request_print_def print_response_def map_entry_def envelope_def)
qed

definition demo_cli :: "string \<Rightarrow> string \<Rightarrow> cli" where
  "demo_cli token output = \<lparr>cl_addr = ''http://localhost:8300'', cl_key = [], cl_identity = [], cl_ca = [], cl_token = token,
     cl_output = output, cl_files = (\<lambda>_. None), cl_pem_ok = (\<lambda>_. True), cl_stdin = [], cl_mkdir = (\<lambda>_. True),
     cl_write = (\<lambda>_. True), cl_sign = (\<lambda>_ _. []), cl_float = Some\<rparr>"

lemma demo_cli_simps [simp]:
  "cl_token (demo_cli token output) = token" "cl_output (demo_cli token output) = output" "cl_float (demo_cli token output) = Some"
  "build_tls (demo_cli token output) = None"
  by (simp_all add: demo_cli_def build_tls_def has_prefix_def)

theorem set_cmd_refused_witness:
  "\<exists>db token s'. set_cmd (demo_cli token ''text'') (server_link demo_env (\<lambda>n. demo_out (int n)) ''10.0.0.1'') ''a''
      [dquote, CHR ''x'', dquote] (0, demo_server db) = ((1, s'), Exited ''permission denied'')
    \<and> map_of (sv_db s') (kv_meta_key ''a'') = None"
proof -
  obtain db token where d: "header_value_ok token" "token \<noteq> []" "\<And>k. \<not> token_key k \<Longrightarrow> map_of db k = None"
    "\<And>t addr m path body. 0 \<le> t + 1 \<Longrightarrow> t + 1 \<le> minute \<Longrightarrow>
       authenticate demo_env (demo_out t) (client_request addr token m path body) (demo_server db) =
         (demo_server db, Inr \<lparr>as_identity = ''ada'', as_method = ''user'', as_policy = ''readonly''\<rparr>)"
    by (rule demo_caller[OF demo_identity_ok]) blast
  let ?f = "demo_cli token ''text''"
  have a: "authenticate demo_env (demo_out (int 0)) (client_request ''10.0.0.1'' (cl_token ?f) ''PUT'' (kv_url ''a'') (json_print (JStr ''x'')))
      (demo_server db) = (demo_server db, Inr \<lparr>as_identity = ''ada'', as_method = ''user'', as_policy = ''readonly''\<rparr>)"
    using d(4)[of 0] by (simp add: minute_def second_def)
  have "\<exists>s' rid. set_cmd ?f (server_link demo_env (\<lambda>n. demo_out (int n)) ''10.0.0.1'') ''a'' [dquote, CHR ''x'', dquote]
      (0, demo_server db) = ((Suc 0, s'), if cl_output ?f = ''json''
         then Shown (envelope JNull (JStr ''permission denied'') rid) else Exited ''permission denied'')
      \<and> (\<forall>k. \<not> trail_key k \<longrightarrow> map_of (sv_db s') k = map_of (sv_db (demo_server db)) k)"
    by (rule set_cmd_refused[where outs = "\<lambda>n. demo_out (int n)" and n = 0, OF demo_env_laws demo_secret(1,2) _ _ _ demo_secret(4) a]) (use d(1,2) demo_readonly in simp_all)
  moreover have "\<not> trail_key (kv_meta_key ''a'')" "map_of db (kv_meta_key ''a'') = None"
    using d(3) zones_disjoint(1) zone_keys(1) trail_disjoint(1) by blast+
  ultimately show ?thesis by (intro exI[of _ db] exI[of _ token]) auto
qed

section \<open>A refused login\<close>

lemma login_routes:
  assumes "req_method r \<noteq> ''CONNECT''"
  shows "req_escaped r = ''/v1/auth/challenge'' \<Longrightarrow> mux_route public_routes r = MuxHandler PChallenge"
    and "req_escaped r = ''/v1/auth/verify'' \<Longrightarrow> mux_route public_routes r = MuxHandler PVerify"
proof -
  have "mux_route public_routes (demo_request ''GET'' ''/v1/auth/challenge'' [] []) = MuxHandler PChallenge"
    "mux_route public_routes (demo_request ''GET'' ''/v1/auth/verify'' [] []) = MuxHandler PVerify" by code_simp+
  then show "req_escaped r = ''/v1/auth/challenge'' \<Longrightarrow> mux_route public_routes r = MuxHandler PChallenge"
    "req_escaped r = ''/v1/auth/verify'' \<Longrightarrow> mux_route public_routes r = MuxHandler PVerify"
    using mux_route_path[OF assms, of public_routes] by simp_all
qed

lemma login_targets: "plain_target ''/v1/auth/challenge''" "plain_target ''/v1/auth/verify''"
  by code_simp+

lemma login_fields: "utf8_ok ''service''" "utf8_ok ''challenge''" "utf8_ok ''signature''"
  by (simp_all add: utf8_ok_all_ascii is_ascii_def)

lemma service_body:
  "utf8_ok service \<Longrightarrow> req_body r = json_print (JObj [(''service'', JStr service)]) \<Longrightarrow>
   decode_body (dec_field ''service'') r = Some service"
  by (simp add: decode_body_def json_decode_print json_ok_def login_fields max_depth_def dec_field_def del: json_print.simps)

lemma verify_body:
  "utf8_ok a \<Longrightarrow> utf8_ok b \<Longrightarrow> req_body r = json_print (JObj [(''challenge'', JStr a), (''signature'', JStr b)]) \<Longrightarrow>
   decode_body (dec_fields2 ''challenge'' ''signature'') r = Some (a, b)"
  by (simp add: decode_body_def json_decode_print json_ok_def login_fields max_depth_def dec_field_def dec_fields2_def
      del: json_print.simps)

context api
begin

lemma unknown_service:
  assumes "E (sv_db s) (service_key service) = None" "service \<noteq> []" "utf8_ok service"
    "req_escaped r = ''/v1/auth/challenge''" "req_method r \<noteq> ''CONNECT''"
    "req_body r = json_print (JObj [(''service'', JStr service)])"
  obtains s' rid msg where "serve v out r s = (s', rid, Done (write_error_rid rid 404 msg))"
    "sv_challenges s' = sv_challenges s" "quiet E trail_key s s'"
proof -
  have "read_rec (env_db v) dec_service (sv_db s) t (service_key service) = Inl ErrNotFound" for t
    by (rule sr.load_absent[THEN iffD2]) (simp_all add: visible_def assms(1))
  then have "generate_challenge (env_db v) (sv_db s) t rng ch service = Inl (ErrUnknownService service)" for t rng ch
    by (simp add: generate_challenge_def get_service_def)
  with serve_public[OF login_routes(1)[OF assms(5,4)], of v out s] service_body[OF assms(3,6)] assms(2) show thesis
    by (intro that[OF _ _ log_auth_quiet])
      (simp_all add: handle_challenge_def fail_with_def refuse_rid_def get_request_id_def log_auth_attempt_def log_entry_rest)
qed

lemma unknown_challenge:
  assumes "sv_challenges s (hex_encode bs) = None"
    "req_escaped r = ''/v1/auth/verify''" "req_method r \<noteq> ''CONNECT''"
    "req_body r = json_print (JObj [(''challenge'', JStr (hex_encode bs)), (''signature'', JStr (hex_encode sig))])"
  obtains s' rid where "serve v out r s = (s', rid, Done (write_error_rid rid 401 ''authentication failed''))"
    "quiet E trail_key s s'"
proof -
  have "service_verify (env_db v) (env_prims v) (sv_db s) t (sv_challenges s) bs sig =
      (sv_challenges s, Done (Inl ErrChallengeUnknown))" for t
    using assms(1) by (simp add: service_verify_def)
  with serve_public[OF login_routes(2)[OF assms(3,2)], of v out s] verify_body[OF utf8_ok_hex utf8_ok_hex assms(4)] show thesis
    by (intro that[OF _ log_auth_quiet])
      (simp_all add: handle_verify_def refuse_rid_def get_request_id_def)
qed

end

text \<open>
  C19: Authenticate of the client library reports success when the server refuses: for a service that is not
  registered both of its requests are refused, no session is made, and the call returns without an error and
  leaves the client with an empty token in place of the one it had.
\<close>

theorem client_login_empty_token:
  assumes "badger_laws (env_db v) E" and "prims_laws (env_prims v)"
    and "E (sv_db s) (service_key service) = None" and "service \<noteq> []" and "utf8_ok service"
    and "sv_challenges s [] = None" and "length (gc_priv c) = 64" and "header_value_ok (gc_token c)"
  shows "\<exists>s'. client_authenticate sign (server_link v outs addr) c service (n, s) = ((Suc (Suc n), s'), Done (Inr (c\<lparr>gc_token := []\<rparr>)))
    \<and> (\<forall>k. \<not> trail_key k \<longrightarrow> E (sv_db s') k = E (sv_db s) k)"
proof -
  let ?T = "server_link v outs addr"
  let ?b1 = "JObj [(''service'', JStr service)]"
  let ?b2 = "JObj [(''challenge'', JStr (hex_encode [])), (''signature'', JStr (hex_encode (sign (gc_priv c) [])))]"
  let ?r1 = "client_request addr (gc_token c) ''POST'' ''/v1/auth/challenge'' (json_print ?b1)"
  let ?r2 = "client_request addr (gc_token c) ''POST'' ''/v1/auth/verify'' (json_print ?b2)"
  obtain s1 rid1 msg where s1: "serve v (outs n) ?r1 s = (s1, rid1, Done (write_error_rid rid1 404 msg))"
    and c1: "sv_challenges s1 = sv_challenges s" and q1: "quiet E trail_key s s1"
    by (rule api.unknown_service[OF apiI[OF assms(1,2)] assms(3-5), of ?r1]) simp_all
  have e: "hex_encode [] = []" by (simp add: hex_encode_def)
  have "sv_challenges s1 (hex_encode []) = None" using c1 assms(6) e by simp
  then obtain s2 rid2 where s2: "serve v (outs (Suc n)) ?r2 s1 = (s2, rid2, Done (write_error_rid rid2 401 ''authentication failed''))"
    and q2: "quiet E trail_key s1 s2"
    by (rule api.unknown_challenge[OF apiI[OF assms(1,2)], of s1 "[]" ?r2]) simp_all
  have d1: "do_json ?T c ''POST'' ''/v1/auth/challenge'' (strings_body [(''service'', service)]) (dec_data_str ''challenge'') (n, s)
      = ((Suc n, s1), Inr [])"
    by (rule do_json_answered[OF login_targets(1) assms(8) _ decode_refusal[of rid1 404 msg]])
      (simp_all add: s1 strings_body_def read_envelope del: json_print.simps)
  have d2: "do_json ?T c ''POST'' ''/v1/auth/verify'' (strings_body [(''challenge'', []),
      (''signature'', hex_encode (sign (gc_priv c) []))]) (dec_data_str ''token'') (Suc n, s1) = ((Suc (Suc n), s2), Inr [])"
    by (rule do_json_answered[OF login_targets(2) assms(8) _ decode_refusal[of rid2 401 "''authentication failed''"]])
      (use s2 e in \<open>simp_all add: strings_body_def read_envelope del: json_print.simps\<close>)
  have "client_authenticate sign ?T c service (n, s) = ((Suc (Suc n), s2), Done (Inr (c\<lparr>gc_token := []\<rparr>)))"
    using d1 d2 assms(7) by (auto simp: client_authenticate_def)
  moreover have "\<forall>k. \<not> trail_key k \<longrightarrow> E (sv_db s2) k = E (sv_db s) k"
    using quiet_trans[OF q1 q2] by (simp add: quiet_def confined_def)
  ultimately show ?thesis by blast
qed

theorem client_login_empty_token_witness:
  "\<exists>s'. client_authenticate (\<lambda>_ _. ''sig'') (server_link demo_env (\<lambda>n. demo_out (int n)) ''10.0.0.1'')
      \<lparr>gc_priv = fill 64 ''key'', gc_token = ''old''\<rparr> ''ghost'' (0, demo_server []) =
      ((2, s'), Done (Inr \<lparr>gc_priv = fill 64 ''key'', gc_token = []\<rparr>))"
proof -
  have u: "utf8_ok ''ghost''" by (simp add: utf8_ok_all_ascii is_ascii_def)
  have h: "header_value_ok ''old''" by code_simp
  have "\<exists>s'. client_authenticate (\<lambda>_ _. ''sig'') (server_link demo_env (\<lambda>n. demo_out (int n)) ''10.0.0.1'')
      \<lparr>gc_priv = fill 64 ''key'', gc_token = ''old''\<rparr> ''ghost'' (0, demo_server []) =
      ((Suc (Suc 0), s'), Done (Inr (\<lparr>gc_priv = fill 64 ''key'', gc_token = ''old''\<rparr>\<lparr>gc_token := []\<rparr>)))
      \<and> (\<forall>k. \<not> trail_key k \<longrightarrow> map_of (sv_db s') k = map_of (sv_db (demo_server [])) k)"
    by (rule client_login_empty_token[OF demo_env_laws _ _ u]) (use h in \<open>simp_all add: demo_server_def\<close>)
  then show ?thesis by (auto simp: numeral_2_eq_2)
qed

end
