(* ===== verification/Client_Roundtrip.thy ===== *)
theory Client_Roundtrip
  imports Client_Props Api_Run_Props
begin

text \<open>
  A secret on its whole way: written by one caller with the client library, over the connection, the
  muxes, the middlewares, the handler and the encrypted records, and read back by another.
\<close>

section \<open>The server's part\<close>

lemma answered_rid: "get_request_id (authed_ctx out a) = ctx_request_id (first_ctx out)"
  by (simp add: get_request_id_def)

lemma put_ok:
  assumes "handle_kv_put v out r c s = (s', Done x)" "req_path r = kv_url path" "json_decode (req_body r) = Some val"
    "resp_status x = 200"
  shows "\<exists>db e. kv_set (env_db v) (env_prims v) (env_crypto v) (sv_db s) (out_clock out 2) (rng_from 1 (out_rng out)) path val
      = (db, Inr e) \<and> s' = s\<lparr>sv_db := db\<rparr> \<and> x = write_json (get_request_id c) 200 (enc_entry (env_prims v) (e\<lparr>kv_value := JNull\<rparr>))"
proof -
  obtain db y where k: "kv_set (env_db v) (env_prims v) (env_crypto v) (sv_db s) (out_clock out 2) (rng_from 1 (out_rng out)) path val = (db, y)"
    by (metis prod.exhaust)
  have w: "allowed_here c s (''secrets/kv/'' @ path) CapWrite"
  proof (rule ccontr)
    assume "\<not> allowed_here c s (''secrets/kv/'' @ path) CapWrite"
    then have "Done x = permission_denied c" using assms(1,2) by (simp add: handle_kv_put_def kv_object_of_url Let_def)
    with assms(4) show False by (simp add: answer_defs)
  qed
  show ?thesis
  proof (cases y)
    case (Inl e)
    then have "Done x = fail_with v c 500 e" using assms(1-3) w k by (simp add: handle_kv_put_def kv_object_of_url Let_def)
    with assms(4) show ?thesis by (simp add: answer_defs)
  next
    case (Inr e)
    then show ?thesis using assms(1-3) w k by (simp add: handle_kv_put_def kv_object_of_url Let_def)
  qed
qed

context api
begin

text \<open>What it means that a PUT was answered with 200.\<close>

lemma put_answered:
  assumes "clean_url (kv_url path) = kv_url path" "req_escaped r = kv_url path" "req_path r = kv_url path"
    and "req_method r = ''PUT''" and "json_decode (req_body r) = Some val"
    and "serve v out r s = (s', rid, Done x)" and "resp_status x = 200"
  obtains s1 :: "'s server" and db t rng e where "\<And>k. secret_key k \<Longrightarrow> E (sv_db s1) k = E (sv_db s) k"
    "kv_set (env_db v) (env_prims v) (env_crypto v) (sv_db s1) t rng path val = (db, Inr e)"
    "\<And>k. secret_key k \<Longrightarrow> E (sv_db s') k = E db k"
    "x = write_json rid 200 (enc_entry (env_prims v) (e\<lparr>kv_value := JNull\<rparr>))"
proof -
  have rt: "mux_route public_routes r = MuxHandler PProtected" "mux_route authed_routes r = MuxHandler RKV"
    using kv_routed[OF assms(1,2)] assms(4) by simp_all
  have p: "protected_handler v out r (first_ctx out) s = (s', Done x)" and rid: "rid = ctx_request_id (first_ctx out)"
    using assms(6) rt(1) by (auto simp: serve_eq mux_serve_def split: prod.splits)
  from p show thesis
  proof (cases rule: protected_cases)
    case (refused s1 a msg)
    then show thesis using assms(7) by simp
  next
    case (answered s1 s2 a y)
    have "handle_kv_put v out r (authed_ctx out a) s1 = (s2, Done x)"
      using answered(2,3) rt(2) assms(4) by (simp add: mux_serve_def handle_kv_def)
    from put_ok[OF this assms(3,5,7)] obtain db e where "kv_set (env_db v) (env_prims v) (env_crypto v) (sv_db s1) (out_clock out 2)
        (rng_from 1 (out_rng out)) path val = (db, Inr e)" "s2 = s1\<lparr>sv_db := db\<rparr>"
        "x = write_json rid 200 (enc_entry (env_prims v) (e\<lparr>kv_value := JNull\<rparr>))"
      unfolding answered_rid rid by blast
    with that[of s1 "out_clock out 2" "rng_from 1 (out_rng out)" db e] secrets_kept(1)[OF answered(1)] secrets_kept(2) answered(4)
    show thesis by simp
  qed simp
qed

lemma get_answers:
  assumes "clean_url (kv_url path) = kv_url path" "req_escaped r = kv_url path" "req_path r = kv_url path"
    and "req_method r = ''GET''" and "req_query r = []" and "\<not> has_suffix path ''/''" "\<not> has_suffix path ''/versions''"
    and "authenticate v out r s = (s1, Inr a)" and "policy_allowed (sv_engine s) (as_policy a) (''secrets/kv/'' @ path) CapRead"
    and "\<And>t. kv_get (env_db v) (env_prims v) (env_crypto v) (sv_db s1) t path 0 = Inr e"
  shows "\<exists>s' rid. serve v out r s = (s', rid, Done (write_json rid 200 (enc_entry (env_prims v) e)))"
proof -
  have rt: "mux_route public_routes r = MuxHandler PProtected" "mux_route authed_routes r = MuxHandler RKV"
    using kv_routed[OF assms(1,2)] assms(4) by simp_all
  have "parse_query [] = []" by code_simp
  then have q: "query_get r ''version'' = []" using assms(5) by (simp add: query_get_def)
  have "sv_engine s1 = sv_engine s" by (rule authenticate_step(2)[OF assms(8)])
  then have "route_handler RKV v out r (authed_ctx out a) s1 =
      (s1, Done (write_json (ctx_request_id (first_ctx out)) 200 (enc_entry (env_prims v) e)))"
    using assms(3,4,6,7,9,10) q
    by (simp add: handle_kv_def handle_kv_get_def kv_object_of_url allowed_here_def answered_rid Let_def)
  from serve_answered[OF rt(1) assms(8) rt(2) this] show ?thesis by blast
qed

text \<open>What is stored when a PUT was answered with 200, and that a GET finds it.\<close>

lemma put_stored:
  assumes "secrets_inv v m (sv_db s)" "Suc m < 2 ^ 63" "utf8_ok path" "value_ok val"
    and "clean_url (kv_url path) = kv_url path" "req_escaped r = kv_url path" "req_path r = kv_url path"
    and "req_method r = ''PUT''" and "json_decode (req_body r) = Some val"
    and "serve v out r s = (s', rid, Done x)" and "resp_status x = 200"
  obtains n t where "entry_ok \<lparr>kv_path = path, kv_version = n, kv_value = val, kv_created = t, kv_deleted = None\<rparr>"
    "\<And>db t'. (\<And>k. secret_key k \<Longrightarrow> E db k = E (sv_db s') k) \<Longrightarrow> kv_get (env_db v) (env_prims v) (env_crypto v) db t' path 0
       = Inr \<lparr>kv_path = path, kv_version = n, kv_value = val, kv_created = t, kv_deleted = None\<rparr>"
    "x = write_json rid 200 (enc_entry (env_prims v) \<lparr>kv_path = path, kv_version = n, kv_value = JNull, kv_created = t, kv_deleted = None\<rparr>)"
proof (rule put_answered[OF assms(5-11)])
  fix s1 db t rng e
  assume k1: "\<And>k. secret_key k \<Longrightarrow> E (sv_db s1) k = E (sv_db s) k"
    and set: "kv_set (env_db v) (env_prims v) (env_crypto v) (sv_db s1) t rng path val = (db, Inr e)"
    and k2: "\<And>k. secret_key k \<Longrightarrow> E (sv_db s') k = E db k"
    and x: "x = write_json rid 200 (enc_entry (env_prims v) (e\<lparr>kv_value := JNull\<rparr>))"
  have "secrets_inv v m (sv_db s1)" by (rule same_inv[OF assms(1) k1])
  then obtain y where y: "holds_kv v (sv_db s1) path y" "KV.count y \<le> int m"
    using assms(3) by (auto simp: secrets_inv_def kv_inv_def)
  let ?e = "\<lparr>kv_path = path, kv_version = KV.count y + 1, kv_value = val, kv_created = t, kv_deleted = None\<rparr>"
  have n: "int64_ok (KV.count y + 1)" using y(2) assms(2) by (simp add: int64_ok_def)
  note stored = kv_set_stored[OF y(1) n assms(3,4) set]
  have e: "e = ?e" using stored(2) by (simp add: abs_entry_new)
  have t: "time_ok t" using set unfolding kv_set_from[OF y(1) n]
    by (auto simp: set_from_def Let_def dest!: write_version_time split: sum.splits)
  have "kv_get (env_db v) (env_prims v) (env_crypto v) db' t' path 0 = Inr ?e"
    if a: "\<And>k. secret_key k \<Longrightarrow> E db' k = E (sv_db s') k" for db' t'
  proof -
    have "E db' k = E db k" if "kv_record k" for k using a k2 kv_record_secret[OF that] by simp
    from kv_rep_agree[OF stored(1) this] have "holds_kv v db' path (Some (abs_set y val t))" .
    from kv_get_rep[OF this, of t' 0] abs_entry_new[of path y val t] show ?thesis
      by (cases y) (simp_all add: Let_def abs_set_def maxVersions_def add.commute)
  qed
  moreover have "entry_ok ?e" using assms(3,4) n t by (simp add: entry_ok_def time_opt_ok_def)
  ultimately show thesis using that x e by simp
qed

text \<open>An entry as a client decodes it.\<close>

lemma entry_answer:
  assumes "entry_ok \<lparr>kv_path = path, kv_version = n, kv_value = val, kv_created = t, kv_deleted = None\<rparr>"
    "Suc (json_depth val) < max_depth"
  obtains created where "json_decode (resp_body (write_json rid 200
      (enc_entry (env_prims v) \<lparr>kv_path = path, kv_version = n, kv_value = val, kv_created = t, kv_deleted = None\<rparr>))) =
    Some (envelope (JObj [(''path'', JStr path), (''version'', enc_int n), (''value'', val), (''created_at'', JStr created)])
      JNull (sanitize rid))"
proof -
  let ?e = "\<lparr>kv_path = path, kv_version = n, kv_value = val, kv_created = t, kv_deleted = None\<rparr>"
  have "time_ok t" using assms(1) by (simp add: entry_ok_def)
  then have j: "enc_entry (env_prims v) ?e = Some (JObj [(''path'', JStr path), (''version'', enc_int n), (''value'', val),
      (''created_at'', JStr (time_format (env_prims v) t))])"
    by (simp add: enc_entry_def enc_time_def enc_time_opt_def)
  obtain i where "enc_entry (env_prims v) ?e = Some i" "json_ok i" using entry.enc_ok[OF assms(1)] by blast
  with j have "json_ok (JObj [(''path'', JStr path), (''version'', enc_int n), (''value'', val), (''created_at'', JStr (time_format (env_prims v) t))])"
    by simp
  from decode_answer[OF this] assms(2) that j show thesis by (simp add: enc_int_def max_depth_def)
qed

end

section \<open>The client's part\<close>

text \<open>What KVGet makes of a decoded answer: the value, with the numbers as float64.\<close>

lemma read_value:
  assumes "any_value fl (JObj ms) = Some (JObj ms')" "fl (itoa n) \<noteq> None"
    "json_decode body = Some (envelope (JObj [(''path'', JStr path), (''version'', enc_int n), (''value'', JObj ms),
      (''created_at'', JStr created)]) JNull rid)"
  obtains data where "dec_data_map fl (the (json_decode body)) = Some data" "dec_err (the (json_decode body)) = Some []"
    "map_entry data ''value'' = Some (JObj ms')"
proof -
  obtain i where "fl (itoa n) = Some i" using assms(2) by auto
  with assms(1) have "any_value fl (JObj [(''path'', JStr path), (''version'', enc_int n), (''value'', JObj ms), (''created_at'', JStr created)])
     = Some (JObj [(''path'', JStr path), (''version'', JNum i), (''value'', JObj ms'), (''created_at'', JStr created)])"
    by (simp add: enc_int_def del: any_value.simps(3)) (simp add: any_value.simps(3)[of fl "_ # _"])
  with that[of "[(''path'', JStr path), (''version'', JNum i), (''value'', JObj ms'), (''created_at'', JStr created)]"] show thesis
    using assms(3) by (simp add: read_envelope map_entry_def)
qed

text \<open>The two calls of the client library.\<close>

context api
begin

lemma set_returns:
  assumes "plain_target path" "header_value_ok (gc_token c)"
    "serve v (outs n) (client_request addr (gc_token c) ''PUT'' (kv_url path) (json_print val)) s =
       (s', rid, Done (write_json rid 200 (enc_entry (env_prims v)
          \<lparr>kv_path = path, kv_version = k, kv_value = JNull, kv_created = t, kv_deleted = None\<rparr>)))"
    "entry_ok \<lparr>kv_path = path, kv_version = k, kv_value = val', kv_created = t, kv_deleted = None\<rparr>"
  shows "client_kv_set (server_link v outs addr) c path val (n, s) = ((Suc n, s'), Inr ())"
proof -
  let ?e = "\<lparr>kv_path = path, kv_version = k, kv_value = JNull, kv_created = t, kv_deleted = None\<rparr>"
  have ok: "entry_ok ?e" using assms(4) by (simp add: entry_ok_def value_ok_def json_ok_def max_depth_def)
  obtain cr where d: "json_decode (resp_body (write_json rid 200 (enc_entry (env_prims v) ?e))) =
      Some (envelope (JObj [(''path'', JStr path), (''version'', enc_int k), (''value'', JNull), (''created_at'', JStr cr)])
        JNull (sanitize rid))"
    by (rule entry_answer[OF ok, of rid]) (simp_all add: max_depth_def)
  have "do_json (server_link v outs addr) c ''PUT'' (kv_url path) (Some val) dec_err (n, s) = ((Suc n, s'), Inr [])"
    by (rule do_json_answered[OF _ assms(2) _ d]) (use assms(1,3) in \<open>simp_all add: read_envelope\<close>)
  then show ?thesis by (simp add: client_kv_set_def)
qed

lemma get_returns:
  assumes "plain_target path" "clean_url (kv_url path) = kv_url path" "\<not> has_suffix path ''/''" "\<not> has_suffix path ''/versions''"
    and "header_value_ok (gc_token c)"
    and "authenticate v (outs n) (client_request addr (gc_token c) ''GET'' (kv_url path) []) s = (s1, Inr a)"
    and "policy_allowed (sv_engine s) (as_policy a) (''secrets/kv/'' @ path) CapRead"
    and "\<And>t'. kv_get (env_db v) (env_prims v) (env_crypto v) (sv_db s1) t' path 0 =
      Inr \<lparr>kv_path = path, kv_version = k, kv_value = JObj ms, kv_created = t, kv_deleted = None\<rparr>"
    and "entry_ok \<lparr>kv_path = path, kv_version = k, kv_value = JObj ms, kv_created = t, kv_deleted = None\<rparr>"
    and "Suc (json_depth (JObj ms)) < max_depth" and "any_value fl (JObj ms) = Some (JObj ms')" and "fl (itoa k) \<noteq> None"
  shows "\<exists>w. client_kv_get fl (server_link v outs addr) c path 0 (n, s) = (w, Inr ms')"
proof -
  let ?e = "\<lparr>kv_path = path, kv_version = k, kv_value = JObj ms, kv_created = t, kv_deleted = None\<rparr>"
  let ?d = "\<lambda>cr rid. envelope (JObj [(''path'', JStr path), (''version'', enc_int k), (''value'', JObj ms), (''created_at'', JStr cr)])
      JNull (sanitize rid)"
  have "\<exists>s' rid. serve v (outs n) (client_request addr (gc_token c) ''GET'' (kv_url path) []) s =
      (s', rid, Done (write_json rid 200 (enc_entry (env_prims v) ?e)))"
    by (rule get_answers[OF assms(2) _ _ _ _ assms(3,4,6,7)]) (use assms(8) in simp_all)
  then obtain s' rid where r: "serve v (outs n) (client_request addr (gc_token c) ''GET'' (kv_url path) []) s =
      (s', rid, Done (write_json rid 200 (enc_entry (env_prims v) ?e)))" by blast
  obtain cr where d: "json_decode (resp_body (write_json rid 200 (enc_entry (env_prims v) ?e))) = Some (?d cr rid)"
    by (rule entry_answer[OF assms(9,10), of rid])
  from read_value[OF assms(11,12) d] obtain data where
    f: "dec_data_map fl (?d cr rid) = Some data" "map_entry data ''value'' = Some (JObj ms')"
    unfolding d by auto
  have "do_json (server_link v outs addr) c ''GET'' (kv_url path) None (dec_pair (dec_data_map fl) dec_err) (n, s) =
      ((Suc n, s'), Inr (data, []))"
    by (rule do_json_answered[OF _ assms(5) _ d]) (use assms(1) r f(1) in \<open>simp_all add: dec_pair_def read_envelope(2)\<close>)
  then show ?thesis using f(2) by (simp add: client_kv_get_def)
qed

end

text \<open>The number literals in a value; when float64 keeps their text, the client reads the value as it is.\<close>

fun json_numbers :: "json \<Rightarrow> string list" where
  "json_numbers (JNum s) = [s]"
| "json_numbers (JArr js) = concat (map json_numbers js)"
| "json_numbers (JObj ms) = concat (map (\<lambda>(k, j). json_numbers j) ms)"
| "json_numbers j = []"

lemma those_same: "(\<And>x. x \<in> set xs \<Longrightarrow> f x = Some x) \<Longrightarrow> those (map f xs) = Some xs"
  by (induction xs) auto

lemma any_value_same: "(\<And>s. s \<in> set (json_numbers j) \<Longrightarrow> fl s = Some s) \<Longrightarrow> any_value fl j = Some j"
proof (induction j)
  case (JArr js)
  then have "those (map (any_value fl) js) = Some js" by (intro those_same) auto
  then show ?case by simp
next
  case (JObj ms)
  then have "those (map (\<lambda>(k, j). map_option (Pair k) (any_value fl j)) ms) = Some ms"
    by (intro those_same) (fastforce simp: case_prod_unfold)
  then show ?case by simp
qed auto

section \<open>A demonstration\<close>

definition demo_object :: "(string \<times> json) list" where
  "demo_object = [(''k'', JStr ''v'')]"

lemma demo_object_ok: "json_ok (JObj demo_object)" "Suc (json_depth (JObj demo_object)) < max_depth"
  "any_value Some (JObj demo_object) = Some (JObj demo_object)" "value_ok (JObj demo_object)"
  by (simp_all add: demo_object_def json_ok_def value_ok_def max_depth_def utf8_ok_all_ascii is_ascii_def)

text \<open>A session works on every state that still has its record.\<close>

lemma demo_session_kept:
  assumes "session_validate mem_badger demo_prims db (t + 1) token = (db, Inr m)" "has_prefix token ''lvt_''" "token \<noteq> []"
    "map_of (sv_db s) (session_key demo_prims token) = map_of db (session_key demo_prims token)" "extract_token r = token"
  shows "authenticate demo_env (demo_out t) r s =
    (s, Inr \<lparr>as_identity = sess_identity m, as_method = sess_method m, as_policy = sess_policy m\<rparr>)"
proof -
  have "session_validate mem_badger demo_prims (sv_db s) (t + 1) token = (sv_db s, Inr m)"
    using assms(1) unfolding demo_auth.validate_iff by (simp add: visible_def assms(4))
  with assms(2,3,5) show ?thesis by (simp add: authenticate_def Let_def)
qed

text \<open>A caller who may write and read, and whose PUT is answered.\<close>

lemma demo_put_object:
  obtains db token s' rid x where "header_value_ok token" "\<And>k. secret_key k \<Longrightarrow> map_of (sv_db (demo_server db)) k = None"
    "serve demo_env (demo_out (int 0)) (client_request ''10.0.0.1'' token ''PUT'' (kv_url ''a'') (json_print (JObj demo_object)))
       (demo_server db) = (s', rid, Done x)" "resp_status x = 200"
    "authenticate demo_env (demo_out (int (Suc 0))) (client_request ''10.0.0.1'' token ''GET'' (kv_url ''a'') []) s' =
       (s', Inr \<lparr>as_identity = ''ada'', as_method = ''user'', as_policy = ''admin''\<rparr>)"
    "sv_engine s' = new_engine ''policies''"
proof -
  have u: "utf8_ok ''ada''" "utf8_ok ''user''" "utf8_ok ''admin''" using demo_identity_ok demo_admin_names by auto
  obtain db token where i: "session_issue mem_badger demo_prims hour [] 0 demo_rng ''ada'' ''user'' ''admin'' = Inr (db, token)"
    and tk: "has_prefix token ''lvt_''" "token \<noteq> []" "\<And>k. \<not> token_key k \<Longrightarrow> map_of db k = None"
    and va: "\<And>t. 0 \<le> t \<Longrightarrow> t \<le> minute \<Longrightarrow> \<exists>h. session_validate mem_badger demo_prims db t token = (db, Inr
       \<lparr>sess_identity = ''ada'', sess_method = ''user'', sess_policy = ''admin'', sess_issued = 0, sess_expires = hour, sess_hash = h\<rparr>)"
    by (rule demo_session[OF u]) blast
  let ?a = "\<lparr>as_identity = ''ada'', as_method = ''user'', as_policy = ''admin''\<rparr>"
  have as: "authenticate demo_env (demo_out t) r s = (s, Inr ?a)"
    if "0 \<le> t + 1" "t + 1 \<le> minute" "extract_token r = token"
      "map_of (sv_db s) (session_key demo_prims token) = map_of db (session_key demo_prims token)" for t r s
    using va[OF \<open>0 \<le> t + 1\<close> \<open>t + 1 \<le> minute\<close>] demo_session_kept[OF _ tk(1,2) that(4,3)] by fastforce
  let ?r = "client_request ''10.0.0.1'' token ''PUT'' (kv_url ''a'') (json_print (JObj demo_object))"
  have e: "map_of db k = None" if "secret_key k" for k using tk(3) that zones_disjoint(1) by blast
  have n: "int64_ok (KV.count None + 1)" by (simp add: int64_ok_def)
  obtain db' y where k: "kv_set mem_badger demo_prims demo_crypto db 2 demo_rng ''a'' (JObj demo_object) = (db', Inr y)"
    using demo_set_ok[OF demo_fresh[OF e[OF zone_keys(1)]] n, of 2] by (force simp: time_ok_def second_def)
  have p: "policy_allowed (new_engine ''policies'') ''admin'' (''secrets/kv/'' @ ''a'') CapWrite" by code_simp
  obtain x where h: "route_handler RKV demo_env (demo_out (int 0)) ?r (authed_ctx (demo_out (int 0)) ?a) (demo_server db) =
      (demo_server db\<lparr>sv_db := db'\<rparr>, Done x)" "resp_status x = 200"
    using k p json_decode_print[OF demo_object_ok(1)]
    by (simp add: handle_kv_def handle_kv_put_def kv_object_of_url allowed_here_def Let_def)
  have rt: "mux_route public_routes ?r = MuxHandler PProtected" "mux_route authed_routes ?r = MuxHandler RKV"
    using kv_routed[OF demo_secret(2)] by simp_all
  have a: "authenticate demo_env (demo_out (int 0)) ?r (demo_server db) = (demo_server db, Inr ?a)"
    by (rule as) (simp_all add: minute_def second_def)
  let ?s = "log_entry demo_env (demo_out (int 0)) 5 (request_entry (demo_out (int 0)) ?r (first_ctx (demo_out (int 0))) ?a (resp_status x))
     (demo_server db\<lparr>sv_db := db'\<rparr>)"
  have s: "serve demo_env (demo_out (int 0)) ?r (demo_server db) = (?s, ctx_request_id (first_ctx (demo_out (int 0))), Done x)"
    using serve_answered[OF rt(1) a rt(2) h(1)] by simp
  have "map_of (sv_db ?s) (session_key demo_prims token) = map_of db (session_key demo_prims token)"
    using demo_vault.kv_set_confined[OF k] zone_keys(8)[of demo_prims token] zones_disjoint(1,3)
    by (simp add: demo_api.log_entry_keeps confined_def) (metis zone_keys(8))
  then have "authenticate demo_env (demo_out (int (Suc 0))) (client_request ''10.0.0.1'' token ''GET'' (kv_url ''a'') []) ?s = (?s, Inr ?a)"
    by (intro as) (simp_all add: minute_def second_def)
  moreover have "sv_engine ?s = new_engine ''policies''" by (simp add: log_entry_rest)
  ultimately show thesis using that[of token db] session_token_header[OF i] e s h(2) by simp
qed

section \<open>Properties\<close>

text \<open>
  C8: What one caller wrote with KVSet another reads with KVGet, through both ends and everything between
  them: when the server, in a state that it reached, answered the PUT of an object with 200, KVSet returns without an error, and
  a KVGet whose caller the policy lets read returns the object with every number turned into the float64 that it denotes
  (fl: the text of that float64), so the object itself when float64 keeps the text of its numbers, or it has none; a large integer
  comes back rounded. The path is a plain one: unreserved characters and slashes, as the mux would
  clean it, not ending in a slash or in /versions, which the server reads as a listing. The server's state
  was reached by requests with UTF-8 paths and bodies nested less than ten thousand levels deep.
\<close>

theorem client_set_get:
  assumes "badger_laws (env_db v) E" and "prims_laws (env_prims v)"
    and "\<And>k. secret_key k \<Longrightarrow> E (sv_db s0) k = None" and "api_run v fine_request m s0 s" and "Suc m < 2 ^ 63"
    and "utf8_ok path" and "plain_target path" and "clean_url (kv_url path) = kv_url path"
    and "\<not> has_suffix path ''/''" and "\<not> has_suffix path ''/versions''"
    and "json_ok (JObj ms)" and "Suc (json_depth (JObj ms)) < max_depth"
    and "any_value fl (JObj ms) = Some (JObj ms')" and "\<And>i. int64_ok i \<Longrightarrow> fl (itoa i) \<noteq> None"
    and "header_value_ok (gc_token c)" and "header_value_ok (gc_token c')"
    and "serve v (outs n) (client_request addr (gc_token c) ''PUT'' (kv_url path) (json_print (JObj ms))) s = (s', rid, Done x)"
    and "resp_status x = 200"
    and "authenticate v (outs (Suc n)) (client_request addr (gc_token c') ''GET'' (kv_url path) []) s' = (s2, Inr a)"
    and "policy_allowed (sv_engine s') (as_policy a) (''secrets/kv/'' @ path) CapRead"
  shows "client_kv_set (server_link v outs addr) c path (JObj ms) (n, s) = ((Suc n, s'), Inr ())
    \<and> (\<exists>w. client_kv_get fl (server_link v outs addr) c' path 0 (Suc n, s') = (w, Inr ms'))
    \<and> ((\<forall>x\<in>set (json_numbers (JObj ms)). fl x = Some x) \<longrightarrow> ms' = ms)"
proof -
  note a = apiI[OF assms(1,2)]
  have same: "ms' = ms" if "\<forall>x\<in>set (json_numbers (JObj ms)). fl x = Some x"
    using any_value_same[of "JObj ms" fl] that assms(13) by simp
  let ?W = "client_request addr (gc_token c) ''PUT'' (kv_url path) (json_print (JObj ms))"
  have inv: "secrets_inv v m (sv_db s)" using api.reached[OF a assms(3,4)] assms(5) by simp
  have val: "value_ok (JObj ms)" using assms(11,12) by (simp add: value_ok_def)
  have body: "json_decode (req_body ?W) = Some (JObj ms)" using json_decode_print[OF assms(11)] by simp
  obtain k t where ok: "entry_ok \<lparr>kv_path = path, kv_version = k, kv_value = JObj ms, kv_created = t, kv_deleted = None\<rparr>"
    and got: "\<And>db t'. (\<And>k. secret_key k \<Longrightarrow> E db k = E (sv_db s') k) \<Longrightarrow> kv_get (env_db v) (env_prims v) (env_crypto v) db t' path 0
       = Inr \<lparr>kv_path = path, kv_version = k, kv_value = JObj ms, kv_created = t, kv_deleted = None\<rparr>"
    and x: "x = write_json rid 200 (enc_entry (env_prims v)
       \<lparr>kv_path = path, kv_version = k, kv_value = JNull, kv_created = t, kv_deleted = None\<rparr>)"
    by (rule api.put_stored[OF a inv assms(5,6) val assms(8) _ _ _ body assms(17,18)]) simp_all
  have r: "serve v (outs n) (client_request addr (gc_token c) ''PUT'' (kv_url path) (json_print (JObj ms))) s =
      (s', rid, Done (write_json rid 200 (enc_entry (env_prims v)
        \<lparr>kv_path = path, kv_version = k, kv_value = JNull, kv_created = t, kv_deleted = None\<rparr>)))"
    using assms(17) x by simp
  have set: "client_kv_set (server_link v outs addr) c path (JObj ms) (n, s) = ((Suc n, s'), Inr ())"
    by (rule api.set_returns[where outs = outs and n = n, OF a assms(7,15) r ok])
  have f: "fl (itoa k) \<noteq> None" using assms(14) ok by (simp add: entry_ok_def)
  have "\<exists>w. client_kv_get fl (server_link v outs addr) c' path 0 (Suc n, s') = (w, Inr ms')"
    by (rule api.get_returns[where outs = outs and n = "Suc n", OF a assms(7-10,16,19,20) got[OF api.secrets_kept(1)[OF a assms(19)]] ok assms(12,13) f])
  with set same show ?thesis by blast
qed

theorem client_set_get_witness:
  "\<exists>db c s' w. client_kv_set (server_link demo_env (\<lambda>n. demo_out (int n)) ''10.0.0.1'') c ''a'' (JObj demo_object) (0, demo_server db)
      = ((1, s'), Inr ())
    \<and> client_kv_get Some (server_link demo_env (\<lambda>n. demo_out (int n)) ''10.0.0.1'') c ''a'' 0 (1, s') = (w, Inr demo_object)"
proof (rule demo_put_object)
  fix db token s' rid x
  assume d: "header_value_ok token" "\<And>k. secret_key k \<Longrightarrow> map_of (sv_db (demo_server db)) k = None"
    "serve demo_env (demo_out (int 0)) (client_request ''10.0.0.1'' token ''PUT'' (kv_url ''a'') (json_print (JObj demo_object)))
       (demo_server db) = (s', rid, Done x)" "resp_status x = 200"
    "authenticate demo_env (demo_out (int (Suc 0))) (client_request ''10.0.0.1'' token ''GET'' (kv_url ''a'') []) s' =
       (s', Inr \<lparr>as_identity = ''ada'', as_method = ''user'', as_policy = ''admin''\<rparr>)"
    "sv_engine s' = new_engine ''policies''"
  let ?c = "\<lparr>gc_priv = [], gc_token = token\<rparr>"
  have p: "policy_allowed (new_engine ''policies'') ''admin'' (''secrets/kv/'' @ ''a'') CapRead" "\<not> has_suffix ''a'' ''/''"
    "\<not> has_suffix ''a'' ''/versions''" by code_simp+
  have "client_kv_set (server_link demo_env (\<lambda>n. demo_out (int n)) ''10.0.0.1'') ?c ''a'' (JObj demo_object) (0, demo_server db)
      = ((Suc 0, s'), Inr ())
    \<and> (\<exists>w. client_kv_get Some (server_link demo_env (\<lambda>n. demo_out (int n)) ''10.0.0.1'') ?c ''a'' 0 (Suc 0, s') = (w, Inr demo_object))
    \<and> ((\<forall>x\<in>set (json_numbers (JObj demo_object)). Some x = Some x) \<longrightarrow> demo_object = demo_object)"
    by (rule client_set_get[where outs = "\<lambda>n. demo_out (int n)" and n = 0 and c = ?c and c' = ?c
          and a = "\<lparr>as_identity = ''ada'', as_method = ''user'', as_policy = ''admin''\<rparr>",
          OF demo_env_laws d(2) run_start _ demo_path_ok(1) demo_secret(1,2) p(2,3) demo_object_ok(1-3)])
      (use d p(1) in simp_all)
  then show ?thesis by (intro exI[of _ db] exI[of _ ?c]) auto
qed

end
