(* ===== verification/Example_Main.thy ===== *)
theory Example_Main
  imports Go_Client
begin

text \<open>
  examples/go/main.go: a program on top of the client library, with what it prints and the error that ends
  it early. The key file is among the files it can read.
\<close>

datatype printed = PrintedAny string "json option" | PrintedText string string

type_synonym example_end = "printed list \<times> err option"

definition example_options :: client_options where
  "example_options = \<lparr>op_priv_hex = [], op_priv_path = ''./certs/api-server.key'', op_ca_path = ''./certs/ca.crt'',
     op_admin_token = []\<rparr>"

definition example_main ::
  "(bytes \<Rightarrow> bytes \<Rightarrow> bytes) \<Rightarrow> (string \<Rightarrow> string option) \<Rightarrow> (string \<Rightarrow> bytes option) \<Rightarrow> 'w transport \<Rightarrow> 'w \<Rightarrow>
   'w \<times> example_end outcome" where
  "example_main sign fl files T w = (case new_client files example_options of
     Inl e \<Rightarrow> (w, Done ([], Some e))
   | Inr c0 \<Rightarrow> (case client_authenticate sign T c0 ''api-server'' w of
        (w1, Panic m) \<Rightarrow> (w1, Panic m)
      | (w1, Done (Inl e)) \<Rightarrow> (w1, Done ([], Some (Wrapped ''auth failed'' e)))
      | (w1, Done (Inr c)) \<Rightarrow> (case client_kv_get fl T c ''secrets/prod/stripe_key'' 0 w1 of
           (w2, Inl e) \<Rightarrow> (w2, Done ([], Some e))
         | (w2, Inr secret) \<Rightarrow>
             (let p1 = PrintedAny ''stripe key:'' (map_entry secret ''key'') in
              case client_transit_encrypt T c ''payments-key'' ''card:4111111111111111'' w2 of
                (w3, Inl e) \<Rightarrow> (w3, Done ([p1], Some e))
              | (w3, Inr ct) \<Rightarrow>
                 (let p2 = PrintedText ''encrypted:'' ct in
                  case client_transit_decrypt T c ''payments-key'' ct w3 of
                    (w4, Inl e) \<Rightarrow> (w4, Done ([p1, p2], Some e))
                  | (w4, Inr pt) \<Rightarrow> (w4, Done ([p1, p2, PrintedText ''decrypted:'' pt], None)))))))"

end
