(* ===== verification/Spec2Isabelle.thy ===== *)
theory Spec2Isabelle
  imports KV_Props Transit_Props Api_Audit_Props Api_Sessions Api_Transit_Spec Cli_Init_Props Client_Roundtrip Example_Main
begin

text \<open>
  Lockr, a self-hosted secrets manager in Go (src/internal, with a command line in src/cmd/lockr and
  a client library in src/pkg/client). A server keeps versioned secrets and transit keys encrypted in
  an embedded Badger database, authenticates services (Ed25519 challenges or TOTP), users (passwords)
  and administrators (tokens), hands out sessions, asks a policy engine before each access to a
  secret, and logs what it answers.

  \<^bold>\<open>Parts and theories\<close>

  \<^item> Go itself: Prelude (errors, outcomes, randomness, time), Go_Strings, Go_Utf8, Go_Encoding (hex, base64),
    Go_Json (encoding/json: printing, parsing, invalid UTF-8, the depth limit), Go_Lines (JSON text has no
    control characters), Go_Path (path.Clean), Http (requests, queries, http.ServeMux; api/response.go).
  \<^item> Externals: what is not in the repository. The record \<open>prims\<close> holds Argon2id, HKDF, AES-GCM, SHA-256,
    HMAC-SHA1, Ed25519 and the RFC 3339 text of a time, with the locale \<open>prims_laws\<close>; the record \<open>badger\<close> holds
    the database's transactions with \<open>badger_laws\<close>; \<open>codec\<close> is what a store needs of the text of its records.
    Demo_Externals gives concrete ones, on which the witnesses run.
  \<^item> storage/badger.go: Storage_DB and Storage_Props; the locale \<open>kvdb\<close>. storage/crypto.go: Storage_Crypto; \<open>cipher\<close>.
    Records: the encrypted records of the secret engines; the locales \<open>doc_store\<close> and \<open>vault\<close>.
  \<^item> secrets/kv.go: KV and KV_Props. secrets/transit.go: Transit and Transit_Props. policy/policy.go: Policy.
  \<^item> auth/: Auth_Records, Auth_Session, Auth_Admin, Auth_User, Auth_Ed25519, Auth_Totp; the locale \<open>auth_base\<close>.
  \<^item> audit/audit.go: Audit_Log and Audit_Log_Props. config/config.go: Config.
  \<^item> api/: Api_Server (server.go, middleware.go), Api_Handlers (kv_handlers.go, transit_handlers.go),
    Api_Accounts (auth_handlers.go, sys_handlers.go, user_handlers.go), Api_Router (router.go).
    Api_Zones, Api_Guards and Api_Serve say where in the key space each operation, handler and request writes;
    the locale \<open>api\<close> is a server over a database and primitives with their laws. Api_Props, Api_Login_Props and
    Api_Audit_Props hold the properties of whole requests, Demo_Api the requests of their witnesses.
    Api_Secrets says what a reader of the secret engines sees depends on the records of secrets only.
    Api_Runs defines whole runs of the server (\<open>api_run\<close>: requests, reloads of the policies, prunings of challenges) and
    Api_Run_Props carries the abstract histories and key rings of the engines through them; Go_Wellformed (what the
    JSON parser returns is a valid value) lets the bodies of requests be arbitrary. Api_Sessions follows the records
    of sessions through the same runs, of requests of any kind, back to their logins, and forward from a login to the uses of its
    token (\<open>kept_run\<close>). Api_Kv_Spec and Api_Transit_Spec are
    abstract machines of the two services with the proofs that the routes implement them. Api_Answers says what the answers look
    like and that there is one to every request.
  \<^item> server/server.go: Server_Run, what Run sets up before it listens (the record \<open>host\<close> is what it finds), with the
    server command of cmd/lockr/main.go.
  \<^item> pkg/client/client.go: Go_Url (targets of requests as net/url reads them) and Go_Client; examples/go/main.go:
    Example_Main. A client runs over a \<open>transport\<close>, http.Client's Do.
  \<^item> cmd/lockr/main.go: Cli_Init (init, on the record \<open>machine\<close> of files and databases), Cli (flags, output, the HTTP
    client), Cli_Commands (one definition per command). Cli_Init_Props follows an installation from init to the
    first request. Client_Link joins the clients to \<open>serve\<close>; Client_Props says what becomes of the answers, and
    Client_Roundtrip follows a secret from one client through the server to another.

  \<^bold>\<open>State and operations\<close>

  Every operation takes the state of the database, the time and its random draws and returns the new state
  or an error of the datatype \<open>err\<close>; a panic is the outcome \<open>Panic\<close>. The theorems speak of the contents \<open>E s\<close>
  of the database state \<open>s\<close>. A request runs on the record \<open>server\<close> (database, policy engine, pending challenges,
  audit file) beside the fixed \<open>env\<close> and the record \<open>outside\<close> with its clock readings and draws: reading 0 is
  the start of the request, 1 the authentication, 2 and 3 the handler, 4 and 5 the audit entries; draw 0 is
  the request id, 1 to 7 the handler's, 8 on the session's. So no two steps share a draw by construction.

  \<^bold>\<open>What the lemmas show\<close>

  The refinement lemmas of KV_Props and Transit_Props relate the encrypted records to abstract histories and key
  rings and carry them through whole runs (fewer than 2^63 calls, so that version numbers do not wrap). Api_Runs
  lifts them to requests of any callers whose path is UTF-8 and whose body is nested less than 10000 deep
  (\<open>fine_request\<close>). Both conditions are needed: a value of the full depth is stored and cannot be read back, and
  the record of a path or name that is not UTF-8 carries another name, the one with its invalid bytes replaced, under which the next
  write stores it: \<open>kv_invalid_path_delete\<close> shows a Delete that deletes nothing and \<open>transit_rotate_overwrites\<close> a rotation that
  replaces the ring of another key. The properties of sessions, accounts, refusals and the audit trail do not need them.
  \<open>kv_window_bound\<close> bounds what can be read of a secret, where the database deletes what it is told to. The codec sublocales show that every record reads back as written. The guards of Api_Guards and the zones of
  Api_Zones give the security properties of a request by cases on its route.
  Fuel: the JSON parser takes twice the length of its text, which is enough for whatever is printed
  (\<open>parse_value_print\<close>). All other definitions terminate by structure or by a proved measure.

  \<^bold>\<open>Not modelled\<close>

  The panic of ulid.MustNew in Log for a clock before 1970. Goroutine interleavings inside one operation, except for the two-writer schedules of \<open>kv_lost_update\<close> and
  \<open>transit_lost_rotation\<close>: every operation is one step, and a run is a sequence of requests. The code takes a mutex for the challenges, the policies and
  the audit log, but none around the reads and writes of the secret engines. Badger's own durability, TLS, the listening
  and the shutdown of the process and the garbage collection of the database are outside. Opening and closing of files
  and the database are parameters. Of the command line: cobra's parsing, the indentation and member order of printed
  JSON, the columns of tables, and what init prints beside the token. The text of floating point numbers is a
  parameter of the clients. Redirects, which http.Client follows, are not followed by \<open>server_link\<close>.
\<close>

section \<open>Properties that span components\<close>

lemma user_session_keys: "session_key P token \<noteq> user_key name"
  by (simp add: session_key_def user_key_def)

text \<open>
  C31: A session outlives the change of the account behind it: creating, deleting or changing a user,
  and creating or deleting an administrator or a service, leaves what Validate answers for every token as
  it was, so the token of a deleted account keeps working, with the old policy, until it expires or is revoked.
\<close>

theorem session_outlives_user:
  assumes "badger_laws B E" and "prims_laws P"
    and "user_create B P s t rng name password policy = Inr s' \<or> user_delete B s t name = Inr s'
      \<or> user_change_policy B P s t name policy = Inr s' \<or> user_change_password B P s t rng name password = Inr s'
      \<or> admin_create B P s t rng name policy = Inr (s', secret) \<or> admin_delete B s t name = Inr s'
      \<or> delete_service B s t name = Inr s'"
  shows "snd (session_validate B P s' t' token) = snd (session_validate B P s t' token)"
proof -
  have "confined account_key (E s) (E s')"
    using assms(3) by (elim disjE) (rule auth_base.account_confined[OF authI[OF assms(1,2)]], assumption)+
  moreover have "\<not> account_key (session_key P token)" using zones_disjoint(2) zone_keys(8) by blast
  ultimately have "db_get B s' t' (session_key P token) = db_get B s t' (session_key P token)"
    using badger_laws.db_get_visible[OF assms(1)] by (simp add: confined_def visible_def)
  then show ?thesis by (simp add: session_validate_def split: sum.splits)
qed

text \<open>A demonstration: the user is created, a session is issued, then the user is deleted.\<close>

theorem session_outlives_user_witness:
  "\<exists>s1 s2 s3 token m. user_create mem_badger demo_prims [] 0 demo_rng ''ada'' ''pw'' ''readonly'' = Inr s1
     \<and> session_issue mem_badger demo_prims hour s1 1 demo_rng ''ada'' ''user'' ''readonly'' = Inr (s2, token)
     \<and> user_delete mem_badger s2 2 ''ada'' = Inr s3
     \<and> snd (session_validate mem_badger demo_prims s3 minute token) = Inr m \<and> sess_policy m = ''readonly''"
proof -
  obtain s1 where c: "user_create mem_badger demo_prims [] 0 demo_rng ''ada'' ''pw'' ''readonly'' = Inr s1"
    using demo_user_create by blast
  obtain r where r: "user_rep mem_badger demo_prims map_of s1 ''ada'' (Some r)"
    using demo_auth.user_create_rep[OF c demo_user_names(1,2)] by blast
  obtain s2 token where i: "session_issue mem_badger demo_prims hour s1 1 demo_rng ''ada'' ''user'' ''readonly'' = Inr (s2, token)"
    by (simp add: session_issue_def Let_def rand_read_def demo_rng_def hash_argon2id_def json_marshal_def
      enc_session_def enc_time_def time_ok_def second_def hour_def minute_def db_set_with_ttl_def lift_bdg_def mem_badger_def)
  obtain m where v: "session_validate mem_badger demo_prims s2 minute token = (s2, Inr m)" "sess_policy m = ''readonly''"
    using demo_auth.session_life[OF i demo_identity_ok, of minute] by (fastforce simp: minute_def hour_def second_def)
  have "db_get mem_badger s1 2 (user_key ''ada'') \<noteq> Inl e" for e
    using demo_auth.user_repD(1)[OF r, of 2] by (auto simp: user_get_def read_rec_def)
  then obtain b where b: "db_get mem_badger s1 2 (user_key ''ada'') = Inr b" by (metis sum.exhaust)
  obtain x where "map_of s2 = (map_of s1)(session_key demo_prims token := x)"
    using demo_auth.issue_E[OF i demo_identity_ok] by metis
  then have "db_get mem_badger s2 2 (user_key ''ada'') = Inr b"
    using b mem.db_get_visible by (simp add: user_session_keys[symmetric])
  then obtain s3 where d: "user_delete mem_badger s2 2 ''ada'' = Inr s3"
    by (simp add: user_delete_def db_delete_def lift_bdg_def mem_badger_def)
  have "snd (session_validate mem_badger demo_prims s3 minute token) = Inr m"
    using session_outlives_user[OF mem_laws demo_laws, of s2 2 demo_rng "''ada''" "[]" "[]" s3 "[]"] d v by simp
  with c i d v show ?thesis by blast
qed

end
